theory Spec2Isabelle
  imports Main "HOL-Library.Word" "HOL-Library.Monad_Syntax"
begin

unbundle bit_operations_syntax

section \<open>Shared data model of the four testbenches\<close>

text \<open>
  The repository holds four Verilator testbenches: \<^verbatim>\<open>sim_chisel_spi.cpp\<close>,
  \<^verbatim>\<open>sim_bitrev_spi.cpp\<close>, \<^verbatim>\<open>sim_qspi_psram.cpp\<close> (APB, the handshake bus) and
  \<^verbatim>\<open>sim_spi_top.cpp\<close> (Wishbone, the single-cycle-acknowledge bus). Each one
  re-implements \<^verbatim>\<open>tick\<close>, a reset sequence, a bus write, a bus read and
  \<^verbatim>\<open>check\<close> over the same file-level globals. The functions of a file are
  suffixed with the file they come from (\<open>_chisel\<close>, \<open>_bitrev\<close>, \<open>_qspi\<close>,
  \<open>_spi_top\<close>).
\<close>

type_synonym u8 = "8 word"
type_synonym u32 = "32 word"
type_synonym u64 = "64 word"

text \<open>
  A C \<^verbatim>\<open>int\<close> is given by its 32 bits; \<open>sint\<close> reads its value, and \<open><s\<close> is the
  signed comparison.
\<close>

type_synonym c_int = "32 word"

text \<open>
  What the testbenches print with \<^verbatim>\<open>printf\<close>: one constructor per format
  string that prints a value of the run, with the values printed. The format strings
  differ between the files only in the padding of the hexadecimal numbers and in the
  language of the fixed words. The lines of \<^verbatim>\<open>main\<close> that print fixed text only
  (the banners, the headings of the tests, the name of the waveform file), and the
  summary line, which prints the two counters the state holds anyway, are left out.
\<close>

datatype log_line =
    PASS string u32 u32
  | FAIL string u32 u32
  | TIMEOUT_apb_write u32
  | TIMEOUT_apb_read u32
  | ERROR_xfer_timeout
  | PSRAM_write_at u32 u8
  | PSRAM_bytes_at u32 u8 u8 u8 u8
  | RESET_done u64
  | TX_RX u32 u32

text \<open>
  The globals of a testbench: \<^verbatim>\<open>dut\<close> (the Verilated model, of type \<open>'d\<close>),
  \<^verbatim>\<open>tfp\<close> (the VCD trace sink, \<open>None\<close> for the null pointer; a sink stores the
  timestamp of every \<^verbatim>\<open>dump\<close> with the signals it saw), \<^verbatim>\<open>sim_time\<close>
  (\<^verbatim>\<open>uint64_t\<close>), \<^verbatim>\<open>test_pass\<close> and \<^verbatim>\<open>test_fail\<close> (C \<^verbatim>\<open>int\<close>, 32 bits wide:
  \<^verbatim>\<open>++\<close> on a counter that holds \<^verbatim>\<open>INT_MAX\<close> gives \<^verbatim>\<open>INT_MIN\<close> in the compiled
  program, which is the wrap-around of the word), and the standard output.
\<close>

record 'd sim =
  dut :: 'd
  tfp :: "(u64 \<times> 'd) list option"
  sim_time :: u64
  test_pass :: c_int
  test_fail :: c_int
  out :: "log_line list"

subsection \<open>The verification oracle\<close>

text \<open>
  \<^verbatim>\<open>
  static void check(const char* name, uint32_t expected, uint32_t actual,
                    uint32_t mask = 0xFFFFFFFF) {
      actual   &= mask;
      expected &= mask;
      if (actual == expected) {
          printf("  PASS %s: expected 0x%X, got 0x%X\n", name, expected, actual);
          test_pass++;
      } else {
          printf("  FAIL %s: expected 0x%X, got 0x%X\n", name, expected, actual);
          test_fail++;
      }
  }
  \<close>
  The same function stands in all four files.
\<close>

definition check ::
  "string \<Rightarrow> u32 \<Rightarrow> u32 \<Rightarrow> u32 \<Rightarrow> ('d, 'z) sim_scheme \<Rightarrow> ('d, 'z) sim_scheme" where
  "check name expected actual msk s =
     (let actual' = actual AND msk;
          expected' = expected AND msk
      in if actual' = expected'
         then s\<lparr>out := out s @ [PASS name expected' actual'],
                test_pass := test_pass s + 1\<rparr>
         else s\<lparr>out := out s @ [FAIL name expected' actual'],
                test_fail := test_fail s + 1\<rparr>)"

text \<open>The call with the default argument \<^verbatim>\<open>mask = 0xFFFFFFFF\<close>.\<close>

definition check_default ::
  "string \<Rightarrow> u32 \<Rightarrow> u32 \<Rightarrow> ('d, 'z) sim_scheme \<Rightarrow> ('d, 'z) sim_scheme" where
  "check_default name expected actual s = check name expected actual 0xFFFFFFFF s"

subsection \<open>The trace sink\<close>

text \<open>
  Every testbench notifies the sink with \<^verbatim>\<open>if (tfp) tfp->dump(sim_time++);\<close>: with a
  sink attached the current signals are recorded under the current virtual time and
  the counter goes up by one; with the null pointer nothing happens, and the counter
  stays.
\<close>

definition dump :: "('d, 'z) sim_scheme \<Rightarrow> ('d, 'z) sim_scheme" where
  "dump s =
     (case tfp s of
        None \<Rightarrow> s
      | Some tr \<Rightarrow> s\<lparr>tfp := Some (tr @ [(sim_time s, dut s)]), sim_time := sim_time s + 1\<rparr>)"

section \<open>The APB models\<close>

text \<open>
  The signal surface of the three APB models (\<^verbatim>\<open>VSPI\<close>, \<^verbatim>\<open>VSPIBitRevTop\<close>,
  \<^verbatim>\<open>VQSPIPSRAMTop\<close>), as far as the testbenches touch it. The generated headers are
  not part of the repository: one-bit ports are modelled as \<open>bool\<close>, the address and
  data ports as 32-bit words, the strobe as a byte. \<open>internal\<close> is everything else
  the model holds (its registers, its other outputs), of a type \<open>'m\<close> the testbench
  never looks into.
\<close>

record 'm apb_dut =
  clock :: bool
  reset :: bool
  psel :: bool
  penable :: bool
  pwrite :: bool
  pstrb :: u8
  paddr :: u32
  pwdata :: u32
  pready :: bool
  prdata :: u32
  internal :: 'm

text \<open>\<^verbatim>\<open>VSPI\<close> adds the two SPI pads that the testbench wires together.\<close>

record 'm spi_dut = "'m apb_dut" +
  misoPadI :: bool
  mosiPadO :: bool

text \<open>
  \<^verbatim>\<open>dut->eval()\<close> is the model under test, an external collaborator: it is a parameter
  \<open>ev\<close> of every function below. It reads the ports and its internal state and
  produces the output ports and the next internal state; it does not write the input
  ports.
\<close>

type_synonym 'm apb_model = "'m apb_dut \<Rightarrow> bool \<times> u32 \<times> 'm"
type_synonym 'm spi_model = "'m spi_dut \<Rightarrow> bool \<times> u32 \<times> bool \<times> 'm"

definition eval_apb :: "'m apb_model \<Rightarrow> 'm apb_dut \<Rightarrow> 'm apb_dut" where
  "eval_apb ev d = (case ev d of (rdy, rd, m) \<Rightarrow> d\<lparr>pready := rdy, prdata := rd, internal := m\<rparr>)"

definition eval_spi :: "'m spi_model \<Rightarrow> 'm spi_dut \<Rightarrow> 'm spi_dut" where
  "eval_spi ev d =
     (case ev d of (rdy, rd, mosi, m) \<Rightarrow>
        d\<lparr>pready := rdy, prdata := rd, internal := m, mosiPadO := mosi\<rparr>)"

subsection \<open>Register map (identical in the SPI testbenches)\<close>

definition ADDR_TX0 :: u8 where "ADDR_TX0 = push_bit 2 0"
definition ADDR_TX1 :: u8 where "ADDR_TX1 = push_bit 2 1"
definition ADDR_CTRL :: u8 where "ADDR_CTRL = push_bit 2 4"
definition ADDR_DIVIDE :: u8 where "ADDR_DIVIDE = push_bit 2 5"
definition ADDR_SS :: u8 where "ADDR_SS = push_bit 2 6"

definition CTRL_GO :: u32 where "CTRL_GO = push_bit 8 1"
definition CTRL_TX_NEG :: u32 where "CTRL_TX_NEG = push_bit 10 1"
definition CTRL_ASS :: u32 where "CTRL_ASS = push_bit 13 1"

section \<open>\<^verbatim>\<open>sim_chisel_spi.cpp\<close>\<close>

text \<open>
  \<^verbatim>\<open>
  static void tick() {
      dut->clock = 1;
      dut->misoPadI = dut->mosiPadO;  // loopback
      dut->eval();
      if (tfp) tfp->dump(sim_time++);
      dut->clock = 0;
      dut->misoPadI = dut->mosiPadO;  // loopback
      dut->eval();
      if (tfp) tfp->dump(sim_time++);
  }
  \<close>
\<close>

definition tick_chisel :: "'m spi_model \<Rightarrow> 'm spi_dut sim \<Rightarrow> 'm spi_dut sim" where
  "tick_chisel ev s =
     (let s1 = s\<lparr>dut := (dut s)\<lparr>clock := True\<rparr>\<rparr>;
          s2 = s1\<lparr>dut := (dut s1)\<lparr>misoPadI := mosiPadO (dut s1)\<rparr>\<rparr>;
          s3 = s2\<lparr>dut := eval_spi ev (dut s2)\<rparr>;
          s4 = dump s3;
          s5 = s4\<lparr>dut := (dut s4)\<lparr>clock := False\<rparr>\<rparr>;
          s6 = s5\<lparr>dut := (dut s5)\<lparr>misoPadI := mosiPadO (dut s5)\<rparr>\<rparr>;
          s7 = s6\<lparr>dut := eval_spi ev (dut s6)\<rparr>
      in dump s7)"

text \<open>
  \<^verbatim>\<open>
  static void do_reset() {
      dut->reset    = 1;   // active-high reset asserted
      dut->psel     = 0;
      dut->penable  = 0;
      dut->pwrite   = 0;
      dut->pstrb    = 0;
      dut->paddr    = 0;
      dut->pwdata   = 0;
      dut->misoPadI = 0;
      for (int i = 0; i < 10; i++) tick();
      dut->reset = 0;      // release reset
      tick();
  }
  \<close>
\<close>

definition do_reset_chisel :: "'m spi_model \<Rightarrow> 'm spi_dut sim \<Rightarrow> 'm spi_dut sim" where
  "do_reset_chisel ev s =
     (let s1 = s\<lparr>dut := (dut s)\<lparr>reset := True, psel := False, penable := False,
                   pwrite := False, pstrb := 0, paddr := 0, pwdata := 0, misoPadI := False\<rparr>\<rparr>;
          s2 = (tick_chisel ev ^^ 10) s1;
          s3 = s2\<lparr>dut := (dut s2)\<lparr>reset := False\<rparr>\<rparr>
      in tick_chisel ev s3)"

text \<open>
  The access phase, \<^verbatim>\<open>do { tick(); } while (!dut->pready);\<close>. Nothing bounds the
  loop: when the model never raises \<^verbatim>\<open>pready\<close> it does not return, which is the
  value \<open>None\<close>.
\<close>

partial_function (option) access_wait_chisel ::
  "'m spi_model \<Rightarrow> 'm spi_dut sim \<Rightarrow> 'm spi_dut sim option" where
  "access_wait_chisel ev s =
     (if \<not> pready (dut (tick_chisel ev s))
      then access_wait_chisel ev (tick_chisel ev s)
      else Some (tick_chisel ev s))"

text \<open>
  \<^verbatim>\<open>
  static void apb_write(uint8_t addr, uint32_t data) {
      dut->paddr   = addr;
      dut->pwdata  = data;
      dut->pstrb   = 0xF;
      dut->pwrite  = 1;
      dut->psel    = 1;
      dut->penable = 0;
      tick();
      dut->penable = 1;
      do { tick(); } while (!dut->pready);
      dut->psel    = 0;
      dut->penable = 0;
      dut->pwrite  = 0;
      tick();
  }
  \<close>
\<close>

definition apb_write_chisel ::
  "'m spi_model \<Rightarrow> u8 \<Rightarrow> u32 \<Rightarrow> 'm spi_dut sim \<Rightarrow> 'm spi_dut sim option" where
  "apb_write_chisel ev addr data s =
     (let s1 = s\<lparr>dut := (dut s)\<lparr>paddr := ucast addr, pwdata := data, pstrb := 0xF,
                   pwrite := True, psel := True, penable := False\<rparr>\<rparr>;
          s2 = tick_chisel ev s1;
          s3 = s2\<lparr>dut := (dut s2)\<lparr>penable := True\<rparr>\<rparr>
      in case access_wait_chisel ev s3 of
           None \<Rightarrow> None
         | Some s4 \<Rightarrow>
             Some (tick_chisel ev
               (s4\<lparr>dut := (dut s4)\<lparr>psel := False, penable := False, pwrite := False\<rparr>\<rparr>)))"

text \<open>
  \<^verbatim>\<open>
  static uint32_t apb_read(uint8_t addr) {
      dut->paddr   = addr;
      dut->pwrite  = 0;
      dut->pstrb   = 0xF;
      dut->psel    = 1;
      dut->penable = 0;
      tick();
      dut->penable = 1;
      do { tick(); } while (!dut->pready);
      uint32_t data = dut->prdata;
      dut->psel    = 0;
      dut->penable = 0;
      tick();
      return data;
  }
  \<close>
\<close>

definition apb_read_chisel ::
  "'m spi_model \<Rightarrow> u8 \<Rightarrow> 'm spi_dut sim \<Rightarrow> (u32 \<times> 'm spi_dut sim) option" where
  "apb_read_chisel ev addr s =
     (let s1 = s\<lparr>dut := (dut s)\<lparr>paddr := ucast addr, pwrite := False, pstrb := 0xF,
                   psel := True, penable := False\<rparr>\<rparr>;
          s2 = tick_chisel ev s1;
          s3 = s2\<lparr>dut := (dut s2)\<lparr>penable := True\<rparr>\<rparr>
      in case access_wait_chisel ev s3 of
           None \<Rightarrow> None
         | Some s4 \<Rightarrow>
             (let data = prdata (dut s4)
              in Some (data,
                   tick_chisel ev (s4\<lparr>dut := (dut s4)\<lparr>psel := False, penable := False\<rparr>\<rparr>))))"


text \<open>
  \<^verbatim>\<open>
  static uint32_t spi_transfer(uint32_t tx_data, uint32_t char_len, uint32_t divider) {
      apb_write(ADDR_DIVIDE, divider);
      apb_write(ADDR_SS, 0x01);
      apb_write(ADDR_TX0, tx_data);
      uint32_t ctrl = (char_len & 0x7F) | CTRL_GO | CTRL_ASS | CTRL_TX_NEG;
      apb_write(ADDR_CTRL, ctrl);
      return apb_read(ADDR_TX0);
  }
  \<close>
\<close>

definition spi_transfer_chisel ::
  "'m spi_model \<Rightarrow> u32 \<Rightarrow> u32 \<Rightarrow> u32 \<Rightarrow> 'm spi_dut sim \<Rightarrow> (u32 \<times> 'm spi_dut sim) option" where
  "spi_transfer_chisel ev tx_data char_len divider s =
     do {
       s1 \<leftarrow> apb_write_chisel ev ADDR_DIVIDE divider s;
       s2 \<leftarrow> apb_write_chisel ev ADDR_SS 0x01 s1;
       s3 \<leftarrow> apb_write_chisel ev ADDR_TX0 tx_data s2;
       let ctrl = (char_len AND 0x7F) OR CTRL_GO OR CTRL_ASS OR CTRL_TX_NEG;
       s4 \<leftarrow> apb_write_chisel ev ADDR_CTRL ctrl s3;
       apb_read_chisel ev ADDR_TX0 s4
     }"

text \<open>
  \<^verbatim>\<open>main\<close> of \<^verbatim>\<open>sim_chisel_spi.cpp\<close>. Each braced block of \<^verbatim>\<open>main\<close> is a
  function of its own, named after the comment that heads it.
  \<^verbatim>\<open>
  { uint32_t rx = spi_transfer(0xFF, 8, 4);
    printf("  TX = 0xFF, RX = 0x%02X (initial offset expected)\n\n", rx & 0xFF); }
  { uint32_t rx = spi_transfer(0xA5, 8, 4);
    printf("  TX = 0x%02X, RX = 0x%02X\n", 0xA5, rx & 0xFF);
    check("8-bit loopback", 0xA5, rx, 0xFF); }
  { uint32_t rx = spi_transfer(0xBEEF, 16, 4);
    printf("  TX = 0x%04X, RX = 0x%04X\n", 0xBEEF, rx & 0xFFFF);
    check("16-bit loopback", 0xBEEF, rx, 0xFFFF); }
  { uint32_t rx = spi_transfer(0xDEADBEEF, 32, 4);
    printf("  TX = 0x%08X, RX = 0x%08X\n", (unsigned)0xDEADBEEF, rx);
    check("32-bit loopback", 0xDEADBEEF, rx, 0xFFFFFFFF); }
  { apb_write(ADDR_DIVIDE, 0x1234);
    uint32_t div = apb_read(ADDR_DIVIDE);
    check("DIVIDER register", 0x1234, div, 0xFFFF);
    apb_write(ADDR_SS, 0xAB);
    uint32_t ss = apb_read(ADDR_SS);
    check("SS register", 0xAB, ss, 0xFF); }
  \<close>
\<close>

definition warmup_chisel :: "'m spi_model \<Rightarrow> 'm spi_dut sim \<Rightarrow> 'm spi_dut sim option" where
  "warmup_chisel ev s =
     do {
       (rx, s) \<leftarrow> spi_transfer_chisel ev 0xFF 8 4 s;
       Some (s\<lparr>out := out s @ [TX_RX 0xFF (rx AND 0xFF)]\<rparr>)
     }"

definition test1_chisel :: "'m spi_model \<Rightarrow> 'm spi_dut sim \<Rightarrow> 'm spi_dut sim option" where
  "test1_chisel ev s =
     do {
       (rx, s) \<leftarrow> spi_transfer_chisel ev 0xA5 8 4 s;
       let s = s\<lparr>out := out s @ [TX_RX 0xA5 (rx AND 0xFF)]\<rparr>;
       Some (check ''8-bit loopback'' 0xA5 rx 0xFF s)
     }"

definition test2_chisel :: "'m spi_model \<Rightarrow> 'm spi_dut sim \<Rightarrow> 'm spi_dut sim option" where
  "test2_chisel ev s =
     do {
       (rx, s) \<leftarrow> spi_transfer_chisel ev 0xBEEF 16 4 s;
       let s = s\<lparr>out := out s @ [TX_RX 0xBEEF (rx AND 0xFFFF)]\<rparr>;
       Some (check ''16-bit loopback'' 0xBEEF rx 0xFFFF s)
     }"

definition test3_chisel :: "'m spi_model \<Rightarrow> 'm spi_dut sim \<Rightarrow> 'm spi_dut sim option" where
  "test3_chisel ev s =
     do {
       (rx, s) \<leftarrow> spi_transfer_chisel ev 0xDEADBEEF 32 4 s;
       let s = s\<lparr>out := out s @ [TX_RX 0xDEADBEEF rx]\<rparr>;
       Some (check ''32-bit loopback'' 0xDEADBEEF rx 0xFFFFFFFF s)
     }"

definition test4_chisel :: "'m spi_model \<Rightarrow> 'm spi_dut sim \<Rightarrow> 'm spi_dut sim option" where
  "test4_chisel ev s =
     do {
       s \<leftarrow> apb_write_chisel ev ADDR_DIVIDE 0x1234 s;
       (dv, s) \<leftarrow> apb_read_chisel ev ADDR_DIVIDE s;
       let s = check ''DIVIDER register'' 0x1234 dv 0xFFFF s;
       s \<leftarrow> apb_write_chisel ev ADDR_SS 0xAB s;
       (ss, s) \<leftarrow> apb_read_chisel ev ADDR_SS s;
       Some (check ''SS register'' 0xAB ss 0xFF s)
     }"

text \<open>
  The globals start at their static initialisers, \<^verbatim>\<open>dut\<close> and \<^verbatim>\<open>tfp\<close> are
  allocated (\<open>d0\<close> is the freshly constructed model), then come the reset with
  \<^verbatim>\<open>printf("[time %5lu] reset done\n\n", (unsigned long)sim_time);\<close>, the
  warm-up transfer, the four tests, twenty more edges
  (\<^verbatim>\<open>for (int i = 0; i < 20; i++) tick();\<close>) and \<^verbatim>\<open>return test_fail > 0 ? 1 : 0;\<close>.
  The result is the exit status with the final globals, or \<open>None\<close> when a bus
  access does not return.
\<close>

definition main_chisel :: "'m spi_model \<Rightarrow> 'm spi_dut \<Rightarrow> (int \<times> 'm spi_dut sim) option" where
  "main_chisel ev d0 =
     do {
       let s = \<lparr>dut = d0, tfp = Some [], sim_time = 0, test_pass = 0, test_fail = 0, out = []\<rparr>;
       let s = do_reset_chisel ev s;
       let s = s\<lparr>out := out s @ [RESET_done (sim_time s)]\<rparr>;
       s \<leftarrow> warmup_chisel ev s;
       s \<leftarrow> test1_chisel ev s;
       s \<leftarrow> test2_chisel ev s;
       s \<leftarrow> test3_chisel ev s;
       s \<leftarrow> test4_chisel ev s;
       let s = (tick_chisel ev ^^ 20) s;
       Some (if 0 <s test_fail s then 1 else 0, s)
     }"

section \<open>\<^verbatim>\<open>sim_bitrev_spi.cpp\<close>\<close>

text \<open>
  \<^verbatim>\<open>
  static void tick() {
      dut->clock = 1;
      dut->eval();
      if (tfp) tfp->dump(sim_time++);
      dut->clock = 0;
      dut->eval();
      if (tfp) tfp->dump(sim_time++);
  }
  \<close>
\<close>

definition tick_bitrev :: "'m apb_model \<Rightarrow> 'm apb_dut sim \<Rightarrow> 'm apb_dut sim" where
  "tick_bitrev ev s =
     (let s1 = s\<lparr>dut := (dut s)\<lparr>clock := True\<rparr>\<rparr>;
          s2 = s1\<lparr>dut := eval_apb ev (dut s1)\<rparr>;
          s3 = dump s2;
          s4 = s3\<lparr>dut := (dut s3)\<lparr>clock := False\<rparr>\<rparr>;
          s5 = s4\<lparr>dut := eval_apb ev (dut s4)\<rparr>
      in dump s5)"

text \<open>
  \<^verbatim>\<open>
  static void do_reset() {
      dut->reset    = 1;
      dut->psel     = 0;
      dut->penable  = 0;
      dut->pwrite   = 0;
      dut->pstrb    = 0;
      dut->paddr    = 0;
      dut->pwdata   = 0;
      for (int i = 0; i < 10; i++) tick();
      dut->reset = 0;
      tick();
  }
  \<close>
\<close>

definition do_reset_bitrev :: "'m apb_model \<Rightarrow> 'm apb_dut sim \<Rightarrow> 'm apb_dut sim" where
  "do_reset_bitrev ev s =
     (let s1 = s\<lparr>dut := (dut s)\<lparr>reset := True, psel := False, penable := False,
                   pwrite := False, pstrb := 0, paddr := 0, pwdata := 0\<rparr>\<rparr>;
          s2 = (tick_bitrev ev ^^ 10) s1;
          s3 = s2\<lparr>dut := (dut s2)\<lparr>reset := False\<rparr>\<rparr>
      in tick_bitrev ev s3)"

text \<open>The access phase \<^verbatim>\<open>do { tick(); } while (!dut->pready);\<close>, unbounded as above.\<close>

partial_function (option) access_wait_bitrev ::
  "'m apb_model \<Rightarrow> 'm apb_dut sim \<Rightarrow> 'm apb_dut sim option" where
  "access_wait_bitrev ev s =
     (if \<not> pready (dut (tick_bitrev ev s))
      then access_wait_bitrev ev (tick_bitrev ev s)
      else Some (tick_bitrev ev s))"

text \<open>\<^verbatim>\<open>apb_write\<close> and \<^verbatim>\<open>apb_read\<close> are, line for line, those of \<^verbatim>\<open>sim_chisel_spi.cpp\<close>.\<close>

definition apb_write_bitrev ::
  "'m apb_model \<Rightarrow> u8 \<Rightarrow> u32 \<Rightarrow> 'm apb_dut sim \<Rightarrow> 'm apb_dut sim option" where
  "apb_write_bitrev ev addr data s =
     (let s1 = s\<lparr>dut := (dut s)\<lparr>paddr := ucast addr, pwdata := data, pstrb := 0xF,
                   pwrite := True, psel := True, penable := False\<rparr>\<rparr>;
          s2 = tick_bitrev ev s1;
          s3 = s2\<lparr>dut := (dut s2)\<lparr>penable := True\<rparr>\<rparr>
      in case access_wait_bitrev ev s3 of
           None \<Rightarrow> None
         | Some s4 \<Rightarrow>
             Some (tick_bitrev ev
               (s4\<lparr>dut := (dut s4)\<lparr>psel := False, penable := False, pwrite := False\<rparr>\<rparr>)))"

definition apb_read_bitrev ::
  "'m apb_model \<Rightarrow> u8 \<Rightarrow> 'm apb_dut sim \<Rightarrow> (u32 \<times> 'm apb_dut sim) option" where
  "apb_read_bitrev ev addr s =
     (let s1 = s\<lparr>dut := (dut s)\<lparr>paddr := ucast addr, pwrite := False, pstrb := 0xF,
                   psel := True, penable := False\<rparr>\<rparr>;
          s2 = tick_bitrev ev s1;
          s3 = s2\<lparr>dut := (dut s2)\<lparr>penable := True\<rparr>\<rparr>
      in case access_wait_bitrev ev s3 of
           None \<Rightarrow> None
         | Some s4 \<Rightarrow>
             (let val = prdata (dut s4)
              in Some (val,
                   tick_bitrev ev (s4\<lparr>dut := (dut s4)\<lparr>psel := False, penable := False\<rparr>\<rparr>))))"


section \<open>\<^verbatim>\<open>sim_qspi_psram.cpp\<close>\<close>

subsection \<open>The storage collaborator\<close>

text \<open>
  This testbench has one more global, \<^verbatim>\<open>static uint8_t psram_mem[1 << 20];\<close>, the
  backing store behind the two DPI-C callbacks the model calls from inside
  \<^verbatim>\<open>eval\<close>.
  \<^verbatim>\<open>
  extern "C" void psram_read(int addr, char *data) {
    uint32_t a = (uint32_t)addr & 0xFFFFF;
    *data = (char)psram_mem[a];
  }
  extern "C" void psram_write(int addr, char data) {
    uint32_t a = (uint32_t)addr & 0xFFFFF;
    psram_mem[a] = (uint8_t)data;
    printf("write@0x%03X: %02X\n", a, psram_mem[a]);
  }
  \<close>
  The \<^verbatim>\<open>int\<close> address is given by its 32-bit pattern, which is what the cast to
  \<^verbatim>\<open>uint32_t\<close> keeps, and the \<^verbatim>\<open>char\<close> by its byte.
\<close>

record 'd qsim = "'d sim" +
  psram_mem :: "u8 list"

definition psram_read :: "u32 \<Rightarrow> ('d, 'z) qsim_scheme \<Rightarrow> u8" where
  "psram_read addr s = (let a = addr AND 0xFFFFF in psram_mem s ! unat a)"

definition psram_write :: "u32 \<Rightarrow> u8 \<Rightarrow> ('d, 'z) qsim_scheme \<Rightarrow> ('d, 'z) qsim_scheme" where
  "psram_write addr data s =
     (let a = addr AND 0xFFFFF;
          s1 = s\<lparr>psram_mem := (psram_mem s)[unat a := data]\<rparr>
      in s1\<lparr>out := out s1 @ [PSRAM_write_at a (psram_mem s1 ! unat a)]\<rparr>)"

subsection \<open>The edge driver and the reset sequence\<close>

text \<open>
  The model of this testbench reads the store through \<^verbatim>\<open>psram_read\<close> and changes it
  through \<^verbatim>\<open>psram_write\<close> only: \<open>ev\<close> is given the ports, the internal state and the
  read callback, and returns the outputs, the next internal state and the
  \<^verbatim>\<open>psram_write\<close> calls it made, in order.
\<close>

type_synonym 'm qspi_model = "'m apb_dut \<Rightarrow> (u32 \<Rightarrow> u8) \<Rightarrow> bool \<times> u32 \<times> 'm \<times> (u32 \<times> u8) list"

definition eval_qspi :: "'m qspi_model \<Rightarrow> 'm apb_dut qsim \<Rightarrow> 'm apb_dut qsim" where
  "eval_qspi ev s =
     (case ev (dut s) (\<lambda>a. psram_read a s) of (rdy, rd, m, ws) \<Rightarrow>
        fold (\<lambda>(a, d). psram_write a d) ws
          (s\<lparr>dut := (dut s)\<lparr>pready := rdy, prdata := rd, internal := m\<rparr>\<rparr>))"

definition MAX_CYCLES :: int where "MAX_CYCLES = 500000"

text \<open>
  \<^verbatim>\<open>
  static void tick() {
    dut->clock = 1;
    dut->eval();
    if (tfp) tfp->dump(sim_time++);
    dut->clock = 0;
    dut->eval();
    if (tfp) tfp->dump(sim_time++);
  }
  \<close>
\<close>

definition tick_qspi :: "'m qspi_model \<Rightarrow> 'm apb_dut qsim \<Rightarrow> 'm apb_dut qsim" where
  "tick_qspi ev s =
     (let s1 = s\<lparr>dut := (dut s)\<lparr>clock := True\<rparr>\<rparr>;
          s2 = eval_qspi ev s1;
          s3 = dump s2;
          s4 = s3\<lparr>dut := (dut s3)\<lparr>clock := False\<rparr>\<rparr>;
          s5 = eval_qspi ev s4
      in dump s5)"

text \<open>
  \<^verbatim>\<open>
  static void do_reset() {
    dut->reset = 0;
    dut->clock = 0;
    dut->psel = 0;
    dut->penable = 0;
    dut->pwrite = 0;
    dut->pstrb = 0;
    dut->paddr = 0;
    dut->pwdata = 0;
    dut->eval();
    dut->reset = 1;
    for (int i = 0; i < 10; i++) tick();
    dut->reset = 0;
    tick();
  }
  \<close>
\<close>

definition do_reset_qspi :: "'m qspi_model \<Rightarrow> 'm apb_dut qsim \<Rightarrow> 'm apb_dut qsim" where
  "do_reset_qspi ev s =
     (let s1 = s\<lparr>dut := (dut s)\<lparr>reset := False, clock := False, psel := False,
                   penable := False, pwrite := False, pstrb := 0, paddr := 0, pwdata := 0\<rparr>\<rparr>;
          s2 = eval_qspi ev s1;
          s3 = s2\<lparr>dut := (dut s2)\<lparr>reset := True\<rparr>\<rparr>;
          s4 = (tick_qspi ev ^^ 10) s3;
          s5 = s4\<lparr>dut := (dut s4)\<lparr>reset := False\<rparr>\<rparr>
      in tick_qspi ev s5)"

subsection \<open>The bus master with the iteration ceiling\<close>

text \<open>
  The access phase of \<^verbatim>\<open>apb_write\<close>:
  \<^verbatim>\<open>
  int cycles = 0;
  do {
    tick();
    if (++cycles > MAX_CYCLES) {
      printf("  TIMEOUT: apb_write(0x%08X) did not complete\n", addr);
      break;
    }
  } while (!dut->pready);
  \<close>
  The argument \<open>cycles\<close> is the counter on entry to the loop body.
\<close>

function apb_write_wait_qspi ::
  "'m qspi_model \<Rightarrow> u32 \<Rightarrow> int \<Rightarrow> 'm apb_dut qsim \<Rightarrow> 'm apb_dut qsim" where
  "apb_write_wait_qspi ev addr cycles s =
     (let s1 = tick_qspi ev s;
          cycles1 = cycles + 1
      in if cycles1 > MAX_CYCLES then s1\<lparr>out := out s1 @ [TIMEOUT_apb_write addr]\<rparr>
         else if \<not> pready (dut s1) then apb_write_wait_qspi ev addr cycles1 s1
         else s1)"
  by pat_completeness auto
termination
  by (relation "measure (\<lambda>(ev, addr, cycles, s). nat (MAX_CYCLES + 1 - cycles))") auto

text \<open>
  \<^verbatim>\<open>
  static void apb_write(uint32_t addr, uint32_t data, uint8_t strb = 0xF) {
    dut->paddr = addr;
    dut->pwdata = data;
    dut->pstrb = strb;
    dut->pwrite = 1;
    dut->psel = 1;
    dut->penable = 0;
    tick();
    dut->penable = 1;
    int cycles = 0;
    do { ... } while (!dut->pready);
    // pready sampled high; hold penable one more cycle for done->idle
    tick();
    dut->psel = 0;
    dut->penable = 0;
    dut->pwrite = 0;
    tick();
  }
  \<close>
\<close>

definition apb_write_qspi ::
  "'m qspi_model \<Rightarrow> u32 \<Rightarrow> u32 \<Rightarrow> u8 \<Rightarrow> 'm apb_dut qsim \<Rightarrow> 'm apb_dut qsim" where
  "apb_write_qspi ev addr data strb s =
     (let s1 = s\<lparr>dut := (dut s)\<lparr>paddr := addr, pwdata := data, pstrb := strb,
                   pwrite := True, psel := True, penable := False\<rparr>\<rparr>;
          s2 = tick_qspi ev s1;
          s3 = s2\<lparr>dut := (dut s2)\<lparr>penable := True\<rparr>\<rparr>;
          s4 = apb_write_wait_qspi ev addr 0 s3;
          s5 = tick_qspi ev s4;
          s6 = s5\<lparr>dut := (dut s5)\<lparr>psel := False, penable := False, pwrite := False\<rparr>\<rparr>
      in tick_qspi ev s6)"

text \<open>
  The access phase of \<^verbatim>\<open>apb_read\<close>:
  \<^verbatim>\<open>
  int cycles = 0;
  do {
    tick();
    if (++cycles > MAX_CYCLES) {
      printf("  TIMEOUT: apb_read(0x%08X) did not complete\n", addr);
      return 0xDEADBEEF;
    }
  } while (!dut->pready);
  \<close>
  \<open>Inl\<close> is the early return out of \<^verbatim>\<open>apb_read\<close>, with the returned word; \<open>Inr\<close> is
  the normal exit of the loop.
\<close>

function apb_read_wait_qspi ::
  "'m qspi_model \<Rightarrow> u32 \<Rightarrow> int \<Rightarrow> 'm apb_dut qsim \<Rightarrow> (u32 \<times> 'm apb_dut qsim) + 'm apb_dut qsim" where
  "apb_read_wait_qspi ev addr cycles s =
     (let s1 = tick_qspi ev s;
          cycles1 = cycles + 1
      in if cycles1 > MAX_CYCLES then Inl (0xDEADBEEF, s1\<lparr>out := out s1 @ [TIMEOUT_apb_read addr]\<rparr>)
         else if \<not> pready (dut s1) then apb_read_wait_qspi ev addr cycles1 s1
         else Inr s1)"
  by pat_completeness auto
termination
  by (relation "measure (\<lambda>(ev, addr, cycles, s). nat (MAX_CYCLES + 1 - cycles))") auto

text \<open>
  \<^verbatim>\<open>
  static uint32_t apb_read(uint32_t addr) {
    dut->paddr = addr;
    dut->pwrite = 0;
    dut->pstrb = 0xF;
    dut->psel = 1;
    dut->penable = 0;
    tick();
    dut->penable = 1;
    int cycles = 0;
    do { ... } while (!dut->pready);
    uint32_t val = dut->prdata;
    // pready sampled high; hold penable one more cycle for done->idle
    tick();
    dut->psel = 0;
    dut->penable = 0;
    tick();
    return val;
  }
  \<close>
\<close>

definition apb_read_qspi ::
  "'m qspi_model \<Rightarrow> u32 \<Rightarrow> 'm apb_dut qsim \<Rightarrow> u32 \<times> 'm apb_dut qsim" where
  "apb_read_qspi ev addr s =
     (let s1 = s\<lparr>dut := (dut s)\<lparr>paddr := addr, pwrite := False, pstrb := 0xF,
                   psel := True, penable := False\<rparr>\<rparr>;
          s2 = tick_qspi ev s1;
          s3 = s2\<lparr>dut := (dut s2)\<lparr>penable := True\<rparr>\<rparr>
      in case apb_read_wait_qspi ev addr 0 s3 of
           Inl timed_out \<Rightarrow> timed_out
         | Inr s4 \<Rightarrow>
             (let val = prdata (dut s4);
                  s5 = tick_qspi ev s4;
                  s6 = s5\<lparr>dut := (dut s5)\<lparr>psel := False, penable := False\<rparr>\<rparr>
              in (val, tick_qspi ev s6)))"


subsection \<open>The test run\<close>

text \<open>
  The tables of test 4. The third one is what
  \<^verbatim>\<open>snprintf(name, sizeof(name), "multi-word[%d] @0x%03X", i, addrs[i])\<close> writes in
  the four iterations.
\<close>

definition test4_addrs :: "u32 list" where
  "test4_addrs = [0x400, 0x404, 0x408, 0x40C]"

definition test4_vals :: "u32 list" where
  "test4_vals = [0xDEADBEEF, 0xCAFEBABE, 0x12345678, 0xA5A5A5A5]"

definition test4_names :: "string list" where
  "test4_names = [''multi-word[0] @0x400'', ''multi-word[1] @0x404'',
                  ''multi-word[2] @0x408'', ''multi-word[3] @0x40C'']"

text \<open>
  \<^verbatim>\<open>main\<close> of \<^verbatim>\<open>sim_qspi_psram.cpp\<close>. Each braced block of \<^verbatim>\<open>main\<close> is a
  function of its own, named after the comment that heads it; \<^verbatim>\<open>check\<close> is
  called with its default mask. The name of the first check holds a right arrow,
  three bytes in UTF-8 (written \<^verbatim>\<open>->\<close> in the listing below).
  \<^verbatim>\<open>
  { uint32_t base = 0x100;
    apb_write(base, 0x000000AA, 0x1);
    apb_write(base, 0x0000BB00, 0x2);
    apb_write(base, 0x00CC0000, 0x4);
    apb_write(base, 0xDD000000, 0x8);
    printf("@0x%03X: %02X %02X %02X %02X\n", base, psram_mem[base],
           psram_mem[base+1], psram_mem[base+2], psram_mem[base+3]);
    uint32_t rd = apb_read(base);
    check("byte writes -> word read", 0xDDCCBBAA, rd); }
  \<close>
\<close>

definition test1_qspi :: "'m qspi_model \<Rightarrow> 'm apb_dut qsim \<Rightarrow> 'm apb_dut qsim" where
  "test1_qspi ev s =
     (let base = 0x100;
          s = apb_write_qspi ev base 0x000000AA 0x1 s;
          s = apb_write_qspi ev base 0x0000BB00 0x2 s;
          s = apb_write_qspi ev base 0x00CC0000 0x4 s;
          s = apb_write_qspi ev base 0xDD000000 0x8 s;
          s = s\<lparr>out := out s @ [PSRAM_bytes_at base (psram_mem s ! unat base)
                 (psram_mem s ! unat (base + 1)) (psram_mem s ! unat (base + 2))
                 (psram_mem s ! unat (base + 3))]\<rparr>;
          (rd, s) = apb_read_qspi ev base s
      in check_default
           (''byte writes '' @ [CHR 0xE2, CHR 0x86, CHR 0x92] @ '' word read'') 0xDDCCBBAA rd s)"

text \<open>
  \<^verbatim>\<open>
  { uint32_t base = 0x200;
    apb_write(base, 0x04030201, 0xF);
    uint32_t rd = apb_read(base);
    check("word write/read", 0x04030201, rd); }
  { uint32_t base = 0x300;
    apb_write(base, 0x00002211, 0x3);
    apb_write(base, 0x44330000, 0xC);
    uint32_t rd = apb_read(base);
    check("half-word writes -> word read", 0x44332211, rd); }
  \<close>
\<close>

definition test2_qspi :: "'m qspi_model \<Rightarrow> 'm apb_dut qsim \<Rightarrow> 'm apb_dut qsim" where
  "test2_qspi ev s =
     (let base = 0x200;
          s = apb_write_qspi ev base 0x04030201 0xF s;
          (rd, s) = apb_read_qspi ev base s
      in check_default ''word write/read'' 0x04030201 rd s)"

definition test3_qspi :: "'m qspi_model \<Rightarrow> 'm apb_dut qsim \<Rightarrow> 'm apb_dut qsim" where
  "test3_qspi ev s =
     (let base = 0x300;
          s = apb_write_qspi ev base 0x00002211 0x3 s;
          s = apb_write_qspi ev base 0x44330000 0xC s;
          (rd, s) = apb_read_qspi ev base s
      in check_default ''half-word writes -> word read'' 0x44332211 rd s)"

text \<open>
  \<^verbatim>\<open>
  { uint32_t addrs[] = {0x400, 0x404, 0x408, 0x40C};
    uint32_t vals[] = {0xDEADBEEF, 0xCAFEBABE, 0x12345678, 0xA5A5A5A5};
    for (int i = 0; i < 4; i++) {
      apb_write(addrs[i], vals[i], 0xF);
    }
    for (int i = 0; i < 4; i++) {
      uint32_t rd = apb_read(addrs[i]);
      char name[64];
      snprintf(name, sizeof(name), "multi-word[%d] @0x%03X", i, addrs[i]);
      check(name, vals[i], rd);
    } }
  \<close>
\<close>

definition test4_qspi :: "'m qspi_model \<Rightarrow> 'm apb_dut qsim \<Rightarrow> 'm apb_dut qsim" where
  "test4_qspi ev s =
     (let s = fold (\<lambda>i s. apb_write_qspi ev (test4_addrs ! i) (test4_vals ! i) 0xF s) [0..<4] s
      in fold (\<lambda>i s. let (rd, s) = apb_read_qspi ev (test4_addrs ! i) s
                       in check_default (test4_names ! i) (test4_vals ! i) rd s) [0..<4] s)"

text \<open>
  \<^verbatim>\<open>
  { uint32_t base = 0x200;
    apb_write(base, 0xFEDCBA98, 0xF);
    uint32_t rd = apb_read(base);
    check("overwrite word", 0xFEDCBA98, rd); }
  { uint32_t base = 0x500;
    apb_write(base, 0x00000000, 0xF);
    uint32_t rd0 = apb_read(base);
    check("write zero", 0x00000000, rd0);
    apb_write(base, 0xFFFFFFFF, 0xF);
    uint32_t rd1 = apb_read(base);
    check("write all-ones", 0xFFFFFFFF, rd1); }
  \<close>
\<close>

definition test5_qspi :: "'m qspi_model \<Rightarrow> 'm apb_dut qsim \<Rightarrow> 'm apb_dut qsim" where
  "test5_qspi ev s =
     (let base = 0x200;
          s = apb_write_qspi ev base 0xFEDCBA98 0xF s;
          (rd, s) = apb_read_qspi ev base s
      in check_default ''overwrite word'' 0xFEDCBA98 rd s)"

definition test6_qspi :: "'m qspi_model \<Rightarrow> 'm apb_dut qsim \<Rightarrow> 'm apb_dut qsim" where
  "test6_qspi ev s =
     (let base = 0x500;
          s = apb_write_qspi ev base 0x00000000 0xF s;
          (rd0, s) = apb_read_qspi ev base s;
          s = check_default ''write zero'' 0x00000000 rd0 s;
          s = apb_write_qspi ev base 0xFFFFFFFF 0xF s;
          (rd1, s) = apb_read_qspi ev base s
      in check_default ''write all-ones'' 0xFFFFFFFF rd1 s)"

text \<open>
  The globals start at their static initialisers, the model \<open>d0\<close> and the trace
  sink are allocated, \<^verbatim>\<open>memset(psram_mem, 0, sizeof(psram_mem))\<close> clears the store,
  then come the reset with
  \<^verbatim>\<open>printf("[time %5lu] reset done\n\n", (unsigned long)sim_time);\<close>,
  tests 1 to 6, a cool-down of twenty edges and
  \<^verbatim>\<open>return test_fail > 0 ? 1 : 0;\<close>. The result is the exit status with the final
  globals.
\<close>

definition main_qspi :: "'m qspi_model \<Rightarrow> 'm apb_dut \<Rightarrow> int \<times> 'm apb_dut qsim" where
  "main_qspi ev d0 =
     (let s = \<lparr>dut = d0, tfp = Some [], sim_time = 0, test_pass = 0, test_fail = 0, out = [],
                psram_mem = replicate (2 ^ 20) 0\<rparr>;
          s = do_reset_qspi ev s;
          s = s\<lparr>out := out s @ [RESET_done (sim_time s)]\<rparr>;
          s = test1_qspi ev s;
          s = test2_qspi ev s;
          s = test3_qspi ev s;
          s = test4_qspi ev s;
          s = test5_qspi ev s;
          s = test6_qspi ev s;
          s = (tick_qspi ev ^^ 20) s
      in (if 0 <s test_fail s then 1 else 0, s))"

section \<open>\<^verbatim>\<open>sim_spi_top.cpp\<close>\<close>

text \<open>
  The signal surface of \<^verbatim>\<open>Vspi_top\<close>, the Wishbone model, with the same conventions as
  for the APB models.
\<close>

record 'm wb_dut =
  wb_clk_i :: bool
  wb_rst_i :: bool
  wb_cyc_i :: bool
  wb_stb_i :: bool
  wb_we_i :: bool
  wb_sel_i :: u8
  wb_adr_i :: u8
  wb_dat_i :: u32
  miso_pad_i :: bool
  mosi_pad_o :: bool
  wb_ack_o :: bool
  wb_dat_o :: u32
  wb_internal :: 'm

type_synonym 'm wb_model = "'m wb_dut \<Rightarrow> bool \<times> u32 \<times> bool \<times> 'm"

definition eval_wb :: "'m wb_model \<Rightarrow> 'm wb_dut \<Rightarrow> 'm wb_dut" where
  "eval_wb ev d =
     (case ev d of (ack, dat, mosi, m) \<Rightarrow>
        d\<lparr>wb_ack_o := ack, wb_dat_o := dat, mosi_pad_o := mosi, wb_internal := m\<rparr>)"

text \<open>
  \<^verbatim>\<open>
  // one full system clock period (falling edge -> rising edge), MOSI looped to MISO
  static void tick() {
      // falling edge
      dut->wb_clk_i = 0;
      dut->miso_pad_i = dut->mosi_pad_o;
      dut->eval();
      if (tfp) tfp->dump(sim_time++);
      // rising edge
      dut->wb_clk_i = 1;
      dut->miso_pad_i = dut->mosi_pad_o;
      dut->eval();
      if (tfp) tfp->dump(sim_time++);
  }
  \<close>
  (The comments of this file are in Chinese; they are given in translation.)
\<close>

definition tick_spi_top :: "'m wb_model \<Rightarrow> 'm wb_dut sim \<Rightarrow> 'm wb_dut sim" where
  "tick_spi_top ev s =
     (let s1 = s\<lparr>dut := (dut s)\<lparr>wb_clk_i := False\<rparr>\<rparr>;
          s2 = s1\<lparr>dut := (dut s1)\<lparr>miso_pad_i := mosi_pad_o (dut s1)\<rparr>\<rparr>;
          s3 = s2\<lparr>dut := eval_wb ev (dut s2)\<rparr>;
          s4 = dump s3;
          s5 = s4\<lparr>dut := (dut s4)\<lparr>wb_clk_i := True\<rparr>\<rparr>;
          s6 = s5\<lparr>dut := (dut s5)\<lparr>miso_pad_i := mosi_pad_o (dut s5)\<rparr>\<rparr>;
          s7 = s6\<lparr>dut := eval_wb ev (dut s6)\<rparr>
      in dump s7)"

text \<open>
  \<^verbatim>\<open>
  // active-high reset, held for 10 clock periods
  static void reset() {
      dut->wb_rst_i   = 1;
      dut->wb_cyc_i   = 0;
      dut->wb_stb_i   = 0;
      dut->wb_we_i    = 0;
      dut->wb_sel_i   = 0;
      dut->wb_adr_i   = 0;
      dut->wb_dat_i   = 0;
      dut->miso_pad_i = 0;
      for (int i = 0; i < 10; i++) tick();
      dut->wb_rst_i = 0;
      tick();
  }
  \<close>
\<close>

definition reset_spi_top :: "'m wb_model \<Rightarrow> 'm wb_dut sim \<Rightarrow> 'm wb_dut sim" where
  "reset_spi_top ev s =
     (let s1 = s\<lparr>dut := (dut s)\<lparr>wb_rst_i := True, wb_cyc_i := False, wb_stb_i := False,
                   wb_we_i := False, wb_sel_i := 0, wb_adr_i := 0, wb_dat_i := 0,
                   miso_pad_i := False\<rparr>\<rparr>;
          s2 = (tick_spi_top ev ^^ 10) s1;
          s3 = s2\<lparr>dut := (dut s2)\<lparr>wb_rst_i := False\<rparr>\<rparr>
      in tick_spi_top ev s3)"

text \<open>The acknowledge wait \<^verbatim>\<open>do { tick(); } while (!dut->wb_ack_o);\<close>, unbounded.\<close>

partial_function (option) ack_wait_spi_top ::
  "'m wb_model \<Rightarrow> 'm wb_dut sim \<Rightarrow> 'm wb_dut sim option" where
  "ack_wait_spi_top ev s =
     (if \<not> wb_ack_o (dut (tick_spi_top ev s))
      then ack_wait_spi_top ev (tick_spi_top ev s)
      else Some (tick_spi_top ev s))"

text \<open>
  \<^verbatim>\<open>
  static void wb_write(uint8_t addr, uint32_t data) {
      dut->wb_adr_i = addr;
      dut->wb_dat_i = data;
      dut->wb_sel_i = 0xF;
      dut->wb_we_i  = 1;
      dut->wb_stb_i = 1;
      dut->wb_cyc_i = 1;
      do { tick(); } while (!dut->wb_ack_o);
      dut->wb_stb_i = 0;
      dut->wb_cyc_i = 0;
      dut->wb_we_i  = 0;
      tick();
  }
  \<close>
\<close>

definition wb_write ::
  "'m wb_model \<Rightarrow> u8 \<Rightarrow> u32 \<Rightarrow> 'm wb_dut sim \<Rightarrow> 'm wb_dut sim option" where
  "wb_write ev addr data s =
     (let s1 = s\<lparr>dut := (dut s)\<lparr>wb_adr_i := addr, wb_dat_i := data, wb_sel_i := 0xF,
                   wb_we_i := True, wb_stb_i := True, wb_cyc_i := True\<rparr>\<rparr>
      in case ack_wait_spi_top ev s1 of
           None \<Rightarrow> None
         | Some s2 \<Rightarrow>
             Some (tick_spi_top ev
               (s2\<lparr>dut := (dut s2)\<lparr>wb_stb_i := False, wb_cyc_i := False, wb_we_i := False\<rparr>\<rparr>)))"

text \<open>
  \<^verbatim>\<open>
  static uint32_t wb_read(uint8_t addr) {
      dut->wb_adr_i = addr;
      dut->wb_sel_i = 0xF;
      dut->wb_we_i  = 0;
      dut->wb_stb_i = 1;
      dut->wb_cyc_i = 1;
      do { tick(); } while (!dut->wb_ack_o);
      uint32_t data = dut->wb_dat_o;
      dut->wb_stb_i = 0;
      dut->wb_cyc_i = 0;
      tick();
      return data;
  }
  \<close>
\<close>

definition wb_read ::
  "'m wb_model \<Rightarrow> u8 \<Rightarrow> 'm wb_dut sim \<Rightarrow> (u32 \<times> 'm wb_dut sim) option" where
  "wb_read ev addr s =
     (let s1 = s\<lparr>dut := (dut s)\<lparr>wb_adr_i := addr, wb_sel_i := 0xF, wb_we_i := False,
                   wb_stb_i := True, wb_cyc_i := True\<rparr>\<rparr>
      in case ack_wait_spi_top ev s1 of
           None \<Rightarrow> None
         | Some s2 \<Rightarrow>
             (let data = wb_dat_o (dut s2)
              in Some (data,
                   tick_spi_top ev (s2\<lparr>dut := (dut s2)\<lparr>wb_stb_i := False, wb_cyc_i := False\<rparr>\<rparr>))))"

text \<open>
  \<^verbatim>\<open>
  // poll CTRL until the GO bit clears by itself (the transfer is over)
  static bool wait_xfer_done(int timeout = 100000) {
      while (timeout-- > 0) {
          uint32_t ctrl = wb_read(ADDR_CTRL);
          if (!(ctrl & CTRL_GO)) return true;
      }
      printf("  ERROR: transfer timed out!\n");
      return false;
  }
  \<close>
  The result is \<open>None\<close> when one of the reads does not return. The counter
  \<^verbatim>\<open>timeout\<close> is a C \<^verbatim>\<open>int\<close>; a value that is read again has been decremented from
  a positive one, so it never wraps and is an integer here (the decrement the source
  makes after the last test, the one that fails, is not read by anyone).
\<close>

function wait_xfer_done ::
  "'m wb_model \<Rightarrow> int \<Rightarrow> 'm wb_dut sim \<Rightarrow> (bool \<times> 'm wb_dut sim) option" where
  "wait_xfer_done ev timeout s =
     (if timeout > 0
      then (case wb_read ev ADDR_CTRL s of
              None \<Rightarrow> None
            | Some (ctrl, s1) \<Rightarrow>
                if ctrl AND CTRL_GO = 0 then Some (True, s1)
                else wait_xfer_done ev (timeout - 1) s1)
      else Some (False, s\<lparr>out := out s @ [ERROR_xfer_timeout]\<rparr>))"
  by pat_completeness auto
termination
  by (relation "measure (\<lambda>(ev, timeout, s). nat timeout)") auto

text \<open>The call with the default argument \<^verbatim>\<open>timeout = 100000\<close>.\<close>

definition wait_xfer_done_default ::
  "'m wb_model \<Rightarrow> 'm wb_dut sim \<Rightarrow> (bool \<times> 'm wb_dut sim) option" where
  "wait_xfer_done_default ev s = wait_xfer_done ev 100000 s"


section \<open>Example models\<close>

text \<open>
  Concrete models and start states, on which the theorems below are instantiated.
  The models that answer do so after one wait state: the counter in their internal
  state counts the rising edges seen with the request asserted.
\<close>

definition one_wait_spi :: "nat spi_model" where
  "one_wait_spi d =
     (let n = (if psel d \<and> penable d then (if clock d then Suc (internal d) else internal d)
               else 0)
      in (psel d \<and> penable d \<and> 2 \<le> n, pwdata d, False, n))"

definition spi_dut0 :: "nat spi_dut" where
  "spi_dut0 = \<lparr>clock = False, reset = False, psel = False, penable = False, pwrite = False,
     pstrb = 0, paddr = 0, pwdata = 0, pready = False, prdata = 0, internal = 0,
     misoPadI = False, mosiPadO = False\<rparr>"

definition spi_sim0 :: "nat spi_dut sim" where
  "spi_sim0 = \<lparr>dut = spi_dut0, tfp = Some [], sim_time = 0, test_pass = 0, test_fail = 0,
     out = []\<rparr>"

text \<open>A model that never raises \<^verbatim>\<open>pready\<close>, for the bit-reversal testbench.\<close>

definition never_ready :: "unit apb_model" where
  "never_ready d = (False, 0, ())"

definition apb_dut0 :: "'m \<Rightarrow> 'm apb_dut" where
  "apb_dut0 m = \<lparr>clock = False, reset = False, psel = False, penable = False, pwrite = False,
     pstrb = 0, paddr = 0, pwdata = 0, pready = False, prdata = 0, internal = m\<rparr>"

definition bitrev_sim0 :: "unit apb_dut sim" where
  "bitrev_sim0 = \<lparr>dut = apb_dut0 (), tfp = Some [], sim_time = 0, test_pass = 0,
     test_fail = 0, out = []\<rparr>"

text \<open>
  Two models for the QSPI testbench: one that never raises \<^verbatim>\<open>pready\<close>, and a bridge
  that completes every access after one wait state, storing the strobed bytes of a
  write through \<^verbatim>\<open>psram_write\<close> and assembling the read word, little-endian, from
  four \<^verbatim>\<open>psram_read\<close> calls.
\<close>

definition never_ready_qspi :: "nat qspi_model" where
  "never_ready_qspi d rd = (False, 0, internal d, [])"

definition psram_bridge :: "nat qspi_model" where
  "psram_bridge d rd =
     (let n = (if psel d \<and> penable d then (if clock d then Suc (internal d) else internal d)
               else 0);
          ws = (if psel d \<and> penable d \<and> clock d \<and> n = 2 \<and> pwrite d
                then map (\<lambda>i. (paddr d + of_nat i, ucast (drop_bit (8 * i) (pwdata d))))
                       (filter (\<lambda>i. bit (pstrb d) i) [0..<4])
                else []);
          word = ucast (rd (paddr d)) OR push_bit 8 (ucast (rd (paddr d + 1)))
                 OR push_bit 16 (ucast (rd (paddr d + 2)))
                 OR push_bit 24 (ucast (rd (paddr d + 3)))
      in (psel d \<and> penable d \<and> 2 \<le> n, word, n, ws))"

definition qspi_sim0 :: "nat apb_dut qsim" where
  "qspi_sim0 = \<lparr>dut = apb_dut0 0, tfp = Some [], sim_time = 0, test_pass = 0, test_fail = 0,
     out = [], psram_mem = replicate (2 ^ 20) 0\<rparr>"

text \<open>
  Two Wishbone models: one that never acknowledges, and one that acknowledges every
  cycle at once and shows the GO bit on the data bus until its third acknowledged
  cycle.
\<close>

definition never_ack :: "unit wb_model" where
  "never_ack d = (False, 0, False, ())"

definition busy_wb :: "nat wb_model" where
  "busy_wb d =
     (let n = (if wb_clk_i d \<and> wb_cyc_i d \<and> wb_stb_i d then Suc (wb_internal d)
               else wb_internal d)
      in (wb_cyc_i d \<and> wb_stb_i d, if n < 3 then CTRL_GO else 0, False, n))"

definition wb_dut0 :: "'m \<Rightarrow> 'm wb_dut" where
  "wb_dut0 m = \<lparr>wb_clk_i = False, wb_rst_i = False, wb_cyc_i = False, wb_stb_i = False,
     wb_we_i = False, wb_sel_i = 0, wb_adr_i = 0, wb_dat_i = 0, miso_pad_i = False,
     mosi_pad_o = False, wb_ack_o = False, wb_dat_o = 0, wb_internal = m\<rparr>"

definition wb_sim0 :: "'m \<Rightarrow> 'm wb_dut sim" where
  "wb_sim0 m = \<lparr>dut = wb_dut0 m, tfp = Some [], sim_time = 0, test_pass = 0, test_fail = 0,
     out = []\<rparr>"


section \<open>Observations used in the statements\<close>

text \<open>
  The request side of the two buses, as the testbench drives it: the reset line, the
  request lines and the request fields. The clock and the looped-back pad, which
  \<^verbatim>\<open>tick\<close> itself drives, are not part of it.
\<close>

definition apb_request ::
  "('m, 'z) apb_dut_scheme \<Rightarrow> bool \<times> bool \<times> bool \<times> bool \<times> u8 \<times> u32 \<times> u32" where
  "apb_request d = (reset d, psel d, penable d, pwrite d, pstrb d, paddr d, pwdata d)"

definition wb_request ::
  "'m wb_dut \<Rightarrow> bool \<times> bool \<times> bool \<times> bool \<times> u8 \<times> u8 \<times> u32" where
  "wb_request d =
     (wb_rst_i d, wb_cyc_i d, wb_stb_i d, wb_we_i d, wb_sel_i d, wb_adr_i d, wb_dat_i d)"

text \<open>
  The completion status of a read of \<^verbatim>\<open>sim_qspi_psram.cpp\<close>, which \<^verbatim>\<open>apb_read\<close>
  itself does not return: whether the call leaves through the timeout branch of its
  wait loop.
\<close>

definition apb_read_timed_out :: "'m qspi_model \<Rightarrow> u32 \<Rightarrow> 'm apb_dut qsim \<Rightarrow> bool" where
  "apb_read_timed_out ev addr s =
     (let s1 = s\<lparr>dut := (dut s)\<lparr>paddr := addr, pwrite := False, pstrb := 0xF,
                   psel := True, penable := False\<rparr>\<rparr>;
          s2 = tick_qspi ev s1;
          s3 = s2\<lparr>dut := (dut s2)\<lparr>penable := True\<rparr>\<rparr>
      in case apb_read_wait_qspi ev addr 0 s3 of Inl timed_out \<Rightarrow> True | Inr s4 \<Rightarrow> False)"

section \<open>Theorems\<close>

subsection \<open>The verification oracle\<close>

lemma c_int_succ:
  assumes "sint (x :: c_int) < 2 ^ 31 - 1"
  shows "sint (x + 1) = sint x + 1"
proof -
  have "- (2 ^ 31) \<le> sint x" using sint_ge [of x] by simp
  with assms have "signed_take_bit 31 (sint x + 1) = sint x + 1"
    by (simp add: signed_take_bit_int_eq_self_iff)
  then show ?thesis by (simp add: sint_word_add)
qed

lemma c_int_small:
  assumes "unat (x :: c_int) < 2 ^ 31"
  shows "sint x = uint x"
proof -
  have "int (unat x) < int (2 ^ 31)" using assms by (rule iffD2 [OF of_nat_less_iff])
  then have "uint x < 2 ^ 31" unfolding uint_nat [symmetric] by simp
  moreover have "- (2 ^ 31) \<le> uint x"
  proof -
    have "- (2 ^ 31) \<le> (0 :: int)" by simp
    also have "0 \<le> uint x" by simp
    finally show ?thesis .
  qed
  ultimately have "signed_take_bit 31 (uint x) = uint x"
    by (simp add: signed_take_bit_int_eq_self_iff)
  then show ?thesis by (simp add: sint_uint)
qed

lemma c_int_positive:
  assumes "unat (x :: c_int) < 2 ^ 31"
  shows "(0 <s x) = (x \<noteq> 0)"
proof -
  have "(0 < uint x) = (x \<noteq> 0)"
    by (metis uint_0_iff uint_ge_0 order_less_le)
  then show ?thesis using c_int_small [OF assms] by (simp add: word_sless_alt)
qed

lemma c_int_succ_le: "unat ((x :: c_int) + 1) \<le> unat x + 1"
  by (metis Suc_eq_plus1 add.commute dual_order.refl unatSuc unsigned_0 zero_le)

text \<open>
  Claim C5. For every call \<open>check name expected actual mask\<close>: the mask is applied to
  both values and the masked values are compared; when they are equal the pass
  counter is incremented and the fail counter keeps its value, when they differ the
  fail counter is incremented and the pass counter keeps its value, so exactly one
  of the two changes; one record carrying the name and the two masked values is
  appended to the output; the model, the trace sink, the virtual clock and every
  further global are unchanged. The function is total: it returns a state for
  every input, there is no error result. The increment is that of a 32-bit
  \<^verbatim>\<open>int\<close>: it adds one to the value of the counter as long as that value is below
  \<^verbatim>\<open>INT_MAX\<close>, and wraps round at \<^verbatim>\<open>INT_MAX\<close>.
\<close>

theorem check_counts_and_records:
  fixes s :: "('d, 'z) sim_scheme"
  shows
  "test_pass (check name expected actual msk s) =
     test_pass s + (if actual AND msk = expected AND msk then 1 else 0)
   \<and> test_fail (check name expected actual msk s) =
     test_fail s + (if actual AND msk = expected AND msk then 0 else 1)
   \<and> (test_pass (check name expected actual msk s) \<noteq> test_pass s
        \<longleftrightarrow> actual AND msk = expected AND msk)
   \<and> (test_fail (check name expected actual msk s) \<noteq> test_fail s
        \<longleftrightarrow> actual AND msk \<noteq> expected AND msk)
   \<and> (sint (test_pass s) < 2 ^ 31 - 1 \<longrightarrow>
        sint (test_pass (check name expected actual msk s)) =
          sint (test_pass s) + (if actual AND msk = expected AND msk then 1 else 0))
   \<and> (sint (test_fail s) < 2 ^ 31 - 1 \<longrightarrow>
        sint (test_fail (check name expected actual msk s)) =
          sint (test_fail s) + (if actual AND msk = expected AND msk then 0 else 1))
   \<and> out (check name expected actual msk s) =
     out s @ [(if actual AND msk = expected AND msk then PASS else FAIL)
                name (expected AND msk) (actual AND msk)]
   \<and> dut (check name expected actual msk s) = dut s
   \<and> tfp (check name expected actual msk s) = tfp s
   \<and> sim_time (check name expected actual msk s) = sim_time s
   \<and> sim.more (check name expected actual msk s) = sim.more s
   \<and> check name expected actual msk s =
     s\<lparr>test_pass := test_pass (check name expected actual msk s),
       test_fail := test_fail (check name expected actual msk s),
       out := out (check name expected actual msk s)\<rparr>"
proof -
  have p: "test_pass (check name expected actual msk s) =
     test_pass s + (if actual AND msk = expected AND msk then 1 else 0)"
    and f: "test_fail (check name expected actual msk s) =
     test_fail s + (if actual AND msk = expected AND msk then 0 else 1)"
    by (simp_all add: check_def Let_def)
  have sp: "sint (test_pass (check name expected actual msk s)) =
          sint (test_pass s) + (if actual AND msk = expected AND msk then 1 else 0)"
    if "sint (test_pass s) < 2 ^ 31 - 1"
    unfolding p using c_int_succ [OF that] by simp
  have sf: "sint (test_fail (check name expected actual msk s)) =
          sint (test_fail s) + (if actual AND msk = expected AND msk then 0 else 1)"
    if "sint (test_fail s) < 2 ^ 31 - 1"
    unfolding f using c_int_succ [OF that] by simp
  have rest: "out (check name expected actual msk s) =
     out s @ [(if actual AND msk = expected AND msk then PASS else FAIL)
                name (expected AND msk) (actual AND msk)]
   \<and> dut (check name expected actual msk s) = dut s
   \<and> tfp (check name expected actual msk s) = tfp s
   \<and> sim_time (check name expected actual msk s) = sim_time s
   \<and> sim.more (check name expected actual msk s) = sim.more s
   \<and> check name expected actual msk s =
     s\<lparr>test_pass := test_pass (check name expected actual msk s),
       test_fail := test_fail (check name expected actual msk s),
       out := out (check name expected actual msk s)\<rparr>"
    by (simp add: check_def Let_def)
  have cp: "test_pass (check name expected actual msk s) \<noteq> test_pass s
        \<longleftrightarrow> actual AND msk = expected AND msk"
    unfolding p by simp
  have cf: "test_fail (check name expected actual msk s) \<noteq> test_fail s
        \<longleftrightarrow> actual AND msk \<noteq> expected AND msk"
    unfolding f by simp
  from p f cp cf sp sf rest show ?thesis by blast
qed

text \<open>
  The theorem on the start state of the Chisel testbench, whose counters are zero: a
  check that passes brings the pass counter to 1 and leaves the fail counter at 0,
  a check that fails does the opposite.
\<close>

theorem check_counts_and_records_witness:
  "sint (test_pass spi_sim0) < 2 ^ 31 - 1 \<and> sint (test_fail spi_sim0) < 2 ^ 31 - 1
   \<and> sint (test_pass (check ''8-bit loopback'' 0xA5 0x12A5 0xFF spi_sim0)) = 1
   \<and> sint (test_fail (check ''8-bit loopback'' 0xA5 0x12A5 0xFF spi_sim0)) = 0
   \<and> sint (test_pass (check ''8-bit loopback'' 0xA5 0xA4 0xFF spi_sim0)) = 0
   \<and> sint (test_fail (check ''8-bit loopback'' 0xA5 0xA4 0xFF spi_sim0)) = 1"
proof -
  have b: "sint (test_pass spi_sim0) < 2 ^ 31 - 1" "sint (test_fail spi_sim0) < 2 ^ 31 - 1"
    by (simp_all add: spi_sim0_def)
  have z: "sint (test_pass spi_sim0) = 0" "sint (test_fail spi_sim0) = 0"
    by (simp_all add: spi_sim0_def)
  have e: "(0x12A5 :: u32) AND 0xFF = 0xA5 AND 0xFF" "(0xA4 :: u32) AND 0xFF \<noteq> 0xA5 AND 0xFF"
    by simp_all
  note c1 = check_counts_and_records [where s = spi_sim0 and name = "''8-bit loopback''"
      and expected = "0xA5" and actual = "0x12A5" and msk = "0xFF"]
  note c2 = check_counts_and_records [where s = spi_sim0 and name = "''8-bit loopback''"
      and expected = "0xA5" and actual = "0xA4" and msk = "0xFF"]
  have p1: "sint (test_pass (check ''8-bit loopback'' 0xA5 0x12A5 0xFF spi_sim0)) =
      sint (test_pass spi_sim0) + (if (0x12A5 :: u32) AND 0xFF = 0xA5 AND 0xFF then 1 else 0)"
    and f1: "sint (test_fail (check ''8-bit loopback'' 0xA5 0x12A5 0xFF spi_sim0)) =
      sint (test_fail spi_sim0) + (if (0x12A5 :: u32) AND 0xFF = 0xA5 AND 0xFF then 0 else 1)"
    using c1 b by blast+
  have p2: "sint (test_pass (check ''8-bit loopback'' 0xA5 0xA4 0xFF spi_sim0)) =
      sint (test_pass spi_sim0) + (if (0xA4 :: u32) AND 0xFF = 0xA5 AND 0xFF then 1 else 0)"
    and f2: "sint (test_fail (check ''8-bit loopback'' 0xA5 0xA4 0xFF spi_sim0)) =
      sint (test_fail spi_sim0) + (if (0xA4 :: u32) AND 0xFF = 0xA5 AND 0xFF then 0 else 1)"
    using c2 b by blast+
  have "sint (test_pass (check ''8-bit loopback'' 0xA5 0x12A5 0xFF spi_sim0)) = 1"
    "sint (test_fail (check ''8-bit loopback'' 0xA5 0x12A5 0xFF spi_sim0)) = 0"
    unfolding p1 f1 z using e(1) by simp_all
  moreover have "sint (test_pass (check ''8-bit loopback'' 0xA5 0xA4 0xFF spi_sim0)) = 0"
    "sint (test_fail (check ''8-bit loopback'' 0xA5 0xA4 0xFF spi_sim0)) = 1"
    unfolding p2 f2 z using e(2) by simp_all
  ultimately show ?thesis using b by simp
qed

text \<open>
  At \<^verbatim>\<open>INT_MAX\<close> the increment of the compiled program wraps round to
  \<^verbatim>\<open>INT_MIN\<close>, and so does the model.
\<close>

lemma check_wraps_at_INT_MAX:
  "sint (test_pass (check name v v msk (s\<lparr>test_pass := 0x7FFFFFFF\<rparr>))) = - (2 ^ 31)"
  by (simp add: check_def Let_def)

subsection \<open>The edge drivers\<close>

lemma eval_spi_inputs:
  "clock (eval_spi ev d) = clock d" "misoPadI (eval_spi ev d) = misoPadI d"
  "apb_request (eval_spi ev d) = apb_request d"
  by (simp_all add: eval_spi_def apb_request_def split: prod.splits)

lemma eval_apb_inputs:
  "clock (eval_apb ev d) = clock d" "apb_request (eval_apb ev d) = apb_request d"
  by (simp_all add: eval_apb_def apb_request_def split: prod.splits)

lemma eval_wb_inputs:
  "wb_clk_i (eval_wb ev d) = wb_clk_i d" "miso_pad_i (eval_wb ev d) = miso_pad_i d"
  "wb_request (eval_wb ev d) = wb_request d"
  by (simp_all add: eval_wb_def wb_request_def split: prod.splits)

lemma apb_request_clock:
  "apb_request (d\<lparr>clock := c\<rparr>) = apb_request d"
  "apb_request (e\<lparr>misoPadI := c\<rparr>) = apb_request e"
  by (simp_all add: apb_request_def)

lemma wb_request_clock:
  "wb_request (d\<lparr>wb_clk_i := c\<rparr>) = wb_request d"
  "wb_request (d\<lparr>miso_pad_i := c\<rparr>) = wb_request d"
  by (simp_all add: wb_request_def)

lemma dump_frame:
  "dut (dump s) = dut s" "test_pass (dump s) = test_pass s" "test_fail (dump s) = test_fail s"
  "out (dump s) = out s"
  by (simp_all add: dump_def split: option.splits)

lemma tick_chisel_frame:
  "test_pass (tick_chisel ev s) = test_pass s" "test_fail (tick_chisel ev s) = test_fail s"
  "out (tick_chisel ev s) = out s"
  "apb_request (dut (tick_chisel ev s)) = apb_request (dut s)"
  by (simp_all add: tick_chisel_def Let_def dump_frame eval_spi_inputs apb_request_clock)

lemma tick_bitrev_frame:
  "test_pass (tick_bitrev ev s) = test_pass s" "test_fail (tick_bitrev ev s) = test_fail s"
  "out (tick_bitrev ev s) = out s"
  "apb_request (dut (tick_bitrev ev s)) = apb_request (dut s)"
  by (simp_all add: tick_bitrev_def Let_def dump_frame eval_apb_inputs apb_request_clock)

lemma tick_spi_top_frame:
  "test_pass (tick_spi_top ev s) = test_pass s" "test_fail (tick_spi_top ev s) = test_fail s"
  "out (tick_spi_top ev s) = out s"
  "wb_request (dut (tick_spi_top ev s)) = wb_request (dut s)"
  by (simp_all add: tick_spi_top_def Let_def dump_frame eval_wb_inputs wb_request_clock)

lemma ticks_chisel_frame:
  "test_pass ((tick_chisel ev ^^ k) s) = test_pass s"
  "test_fail ((tick_chisel ev ^^ k) s) = test_fail s"
  "out ((tick_chisel ev ^^ k) s) = out s"
  "apb_request (dut ((tick_chisel ev ^^ k) s)) = apb_request (dut s)"
  by (induction k) (simp_all add: tick_chisel_frame)

lemma ticks_bitrev_frame:
  "test_pass ((tick_bitrev ev ^^ k) s) = test_pass s"
  "test_fail ((tick_bitrev ev ^^ k) s) = test_fail s"
  "out ((tick_bitrev ev ^^ k) s) = out s"
  "apb_request (dut ((tick_bitrev ev ^^ k) s)) = apb_request (dut s)"
  by (induction k) (simp_all add: tick_bitrev_frame)

lemma ticks_spi_top_frame:
  "test_pass ((tick_spi_top ev ^^ k) s) = test_pass s"
  "test_fail ((tick_spi_top ev ^^ k) s) = test_fail s"
  "out ((tick_spi_top ev ^^ k) s) = out s"
  "wb_request (dut ((tick_spi_top ev ^^ k) s)) = wb_request (dut s)"
  by (induction k) (simp_all add: tick_spi_top_frame)

text \<open>
  Claim C4, as the code has it. With a trace sink attached, one call of \<^verbatim>\<open>tick\<close> in
  \<^verbatim>\<open>sim_chisel_spi.cpp\<close> drives the clock high, copies the MOSI pad to the MISO pad,
  evaluates the model and notifies the sink with the current virtual time, then
  drives the clock low, copies the pad again, evaluates again and notifies the sink
  with the next virtual time. \<^verbatim>\<open>tick\<close> in \<^verbatim>\<open>sim_spi_top.cpp\<close> performs the same
  steps with the two clock levels exchanged: low first, high second. In both, the
  virtual clock counter has gone up by exactly two on return.
\<close>

theorem tick_edge_order:
  fixes s :: "'m spi_dut sim" and w :: "'n wb_dut sim"
  assumes "tfp s = Some tr" and "tfp w = Some tr'"
  shows
  "(let d1 = eval_spi ev ((dut s)\<lparr>clock := True, misoPadI := mosiPadO (dut s)\<rparr>);
        d2 = eval_spi ev (d1\<lparr>clock := False, misoPadI := mosiPadO d1\<rparr>)
    in tick_chisel ev s =
         s\<lparr>dut := d2, tfp := Some (tr @ [(sim_time s, d1), (sim_time s + 1, d2)]),
           sim_time := sim_time s + 2\<rparr>
       \<and> clock d1 \<and> misoPadI d1 = mosiPadO (dut s)
       \<and> \<not> clock d2 \<and> misoPadI d2 = mosiPadO d1)
   \<and> (let d1 = eval_wb ev' ((dut w)\<lparr>wb_clk_i := False, miso_pad_i := mosi_pad_o (dut w)\<rparr>);
          d2 = eval_wb ev' (d1\<lparr>wb_clk_i := True, miso_pad_i := mosi_pad_o d1\<rparr>)
      in tick_spi_top ev' w =
           w\<lparr>dut := d2, tfp := Some (tr' @ [(sim_time w, d1), (sim_time w + 1, d2)]),
             sim_time := sim_time w + 2\<rparr>
         \<and> \<not> wb_clk_i d1 \<and> miso_pad_i d1 = mosi_pad_o (dut w)
         \<and> wb_clk_i d2 \<and> miso_pad_i d2 = mosi_pad_o d1)"
proof -
  have "tick_chisel ev s =
     (let d1 = eval_spi ev ((dut s)\<lparr>clock := True, misoPadI := mosiPadO (dut s)\<rparr>);
          d2 = eval_spi ev (d1\<lparr>clock := False, misoPadI := mosiPadO d1\<rparr>)
      in s\<lparr>dut := d2, tfp := Some (tr @ [(sim_time s, d1), (sim_time s + 1, d2)]),
            sim_time := sim_time s + 2\<rparr>)"
    using assms(1) by (simp add: tick_chisel_def dump_def Let_def)
  moreover have "tick_spi_top ev' w =
     (let d1 = eval_wb ev' ((dut w)\<lparr>wb_clk_i := False, miso_pad_i := mosi_pad_o (dut w)\<rparr>);
          d2 = eval_wb ev' (d1\<lparr>wb_clk_i := True, miso_pad_i := mosi_pad_o d1\<rparr>)
      in w\<lparr>dut := d2, tfp := Some (tr' @ [(sim_time w, d1), (sim_time w + 1, d2)]),
            sim_time := sim_time w + 2\<rparr>)"
    using assms(2) by (simp add: tick_spi_top_def dump_def Let_def)
  ultimately show ?thesis
    by (simp add: Let_def eval_spi_inputs eval_wb_inputs)
qed

text \<open>
  The theorem at the two start states, each with an empty trace: after one call the
  counter reads 2, and the sink of the Chisel testbench has seen the clock high,
  then low.
\<close>

theorem tick_edge_order_witness:
  "tfp spi_sim0 = Some [] \<and> tfp (wb_sim0 ()) = Some []
   \<and> sim_time (tick_chisel one_wait_spi spi_sim0) = 2
   \<and> map (clock \<circ> snd) (the (tfp (tick_chisel one_wait_spi spi_sim0))) = [True, False]
   \<and> sim_time (tick_spi_top never_ack (wb_sim0 ())) = 2"
proof -
  have a: "tfp spi_sim0 = Some []" by (simp add: spi_sim0_def)
  have b: "tfp (wb_sim0 ()) = Some []" by (simp add: wb_sim0_def)
  show ?thesis
    using tick_edge_order [OF a b, of one_wait_spi never_ack] a b
    by (simp add: Let_def spi_sim0_def wb_sim0_def eval_spi_inputs)
qed

text \<open>
  Claim C4 as stated fails on \<^verbatim>\<open>tick\<close> of \<^verbatim>\<open>sim_spi_top.cpp\<close>: of the two
  notifications of one call, the first (virtual time 0) carries the clock low and the
  second (virtual time 1) carries it high.
\<close>

theorem tick_spi_top_low_first:
  "map fst (the (tfp (tick_spi_top never_ack (wb_sim0 ())))) = [0, 1]
   \<and> map (wb_clk_i \<circ> snd) (the (tfp (tick_spi_top never_ack (wb_sim0 ())))) = [False, True]"
  by (simp add: tick_spi_top_def dump_def Let_def wb_sim0_def wb_dut0_def eval_wb_def never_ack_def)

subsection \<open>The storage collaborator\<close>

lemma psram_take_bit_alias: "take_bit 20 ((a :: u32) + 2 ^ 20) = take_bit 20 a"
proof -
  have "unat (take_bit 20 (a + 2 ^ 20)) = unat (take_bit 20 a)"
    by (simp add: unsigned_take_bit_eq unat_word_ariths take_bit_eq_mod mod_mod_cancel)
  then show ?thesis by (rule word_unat_eq_iff [THEN iffD2])
qed

lemma psram_index_alias: "((a :: u32) + 2 ^ 20) AND 0xFFFFF = a AND 0xFFFFF"
proof -
  have m: "(0xFFFFF :: u32) = mask 20" by (simp add: mask_eq_exp_minus_1)
  show ?thesis unfolding m take_bit_eq_mask [symmetric] by (rule psram_take_bit_alias)
qed

lemma psram_index_bound: "unat ((a :: u32) AND 0xFFFFF) < 2 ^ 20"
proof -
  have "unat (a AND 0xFFFFF) \<le> unat (0xFFFFF :: u32)"
    by (rule word_and_le1 [THEN word_le_nat_alt [THEN iffD1]])
  then show ?thesis by simp
qed

text \<open>
  Claim C9. The store holds \<open>2 ^ 20\<close> bytes and is addressed modulo that capacity:
  the index both callbacks compute is below \<open>2 ^ 20\<close> for every address; a byte
  written at \<open>a\<close> is the byte read at \<open>a\<close>; and the addresses \<open>a\<close> and
  \<open>a + 2 ^ 20\<close> name the same cell, for reading, for writing, and for a write at
  one followed by a read at the other.
\<close>

theorem psram_modulo_capacity:
  fixes s :: "('d, 'z) qsim_scheme"
  assumes "length (psram_mem s) = 2 ^ 20"
  shows
  "unat (a AND 0xFFFFF) < length (psram_mem s)
   \<and> psram_read a (psram_write a d s) = d
   \<and> psram_read (a + 2 ^ 20) s = psram_read a s
   \<and> psram_write (a + 2 ^ 20) d s = psram_write a d s
   \<and> psram_read (a + 2 ^ 20) (psram_write a d s) = d
   \<and> psram_read a (psram_write (a + 2 ^ 20) d s) = d
   \<and> length (psram_mem (psram_write a d s)) = 2 ^ 20"
proof -
  have b: "unat (a AND 0xFFFFF) < length (psram_mem s)"
    using psram_index_bound [of a] assms by simp
  have rw: "psram_read a (psram_write a d s) = d"
    using b by (simp add: psram_read_def psram_write_def Let_def)
  have r: "psram_read (a + 2 ^ 20) s = psram_read a s" for s :: "('d, 'z) qsim_scheme"
    unfolding psram_read_def Let_def psram_index_alias ..
  have w: "psram_write (a + 2 ^ 20) d s = psram_write a d s"
    unfolding psram_write_def Let_def psram_index_alias ..
  have r': "psram_read (a + 2 ^ 20) (psram_write a d s) = psram_read a (psram_write a d s)"
    by (rule r)
  have l: "length (psram_mem (psram_write a d s)) = 2 ^ 20"
    using assms by (simp add: psram_write_def Let_def)
  from b rw r [of s] w r' l show ?thesis by (simp only: simp_thms)
qed

text \<open>
  The theorem on the store as \<^verbatim>\<open>main\<close> leaves it after \<^verbatim>\<open>memset\<close>, at the address
  \<open>0x100400\<close>, which is \<open>0x400 + 2 ^ 20\<close>: the byte written there is read back at
  \<open>0x400\<close>.
\<close>

theorem psram_modulo_capacity_witness:
  "length (psram_mem qspi_sim0) = 2 ^ 20
   \<and> psram_read 0x400 (psram_write 0x100400 0x5A qspi_sim0) = 0x5A"
proof -
  have l: "length (psram_mem qspi_sim0) = 2 ^ 20" by (simp add: qspi_sim0_def)
  have e: "(0x400 :: u32) + 2 ^ 20 = 0x100400" by simp
  from psram_modulo_capacity [OF l, of "0x400" "0x5A"] l show ?thesis
    unfolding e by blast
qed

subsection \<open>The reset sequence\<close>

text \<open>
  Claim C7. \<^verbatim>\<open>do_reset\<close> of \<^verbatim>\<open>sim_bitrev_spi.cpp\<close> and \<^verbatim>\<open>reset\<close> of
  \<^verbatim>\<open>sim_spi_top.cpp\<close> drive the reset line active and clear the address, the data,
  the byte enables, the direction and the select and enable (cycle and strobe)
  lines; they then advance the edge driver ten times, and before and after each of
  these ten edges the reset line is active and every request field is zero; they
  then release the reset line and advance the edge driver once more. On return the
  reset line is inactive and every request line and field is still zero, so no
  transaction is outstanding.
\<close>

theorem reset_sequence:
  fixes s :: "'m apb_dut sim" and w :: "'n wb_dut sim"
  shows
  "(let cleared = s\<lparr>dut := (dut s)\<lparr>reset := True, psel := False, penable := False,
                        pwrite := False, pstrb := 0, paddr := 0, pwdata := 0\<rparr>\<rparr>;
        held = (tick_bitrev ev ^^ 10) cleared
    in do_reset_bitrev ev s = tick_bitrev ev (held\<lparr>dut := (dut held)\<lparr>reset := False\<rparr>\<rparr>)
       \<and> (\<forall>k\<le>10. apb_request (dut ((tick_bitrev ev ^^ k) cleared)) =
                     (True, False, False, False, 0, 0, 0))
       \<and> apb_request (dut (do_reset_bitrev ev s)) = (False, False, False, False, 0, 0, 0))
   \<and> (let cleared = w\<lparr>dut := (dut w)\<lparr>wb_rst_i := True, wb_cyc_i := False, wb_stb_i := False,
                          wb_we_i := False, wb_sel_i := 0, wb_adr_i := 0, wb_dat_i := 0,
                          miso_pad_i := False\<rparr>\<rparr>;
          held = (tick_spi_top ev' ^^ 10) cleared
      in reset_spi_top ev' w = tick_spi_top ev' (held\<lparr>dut := (dut held)\<lparr>wb_rst_i := False\<rparr>\<rparr>)
         \<and> (\<forall>k\<le>10. wb_request (dut ((tick_spi_top ev' ^^ k) cleared)) =
                       (True, False, False, False, 0, 0, 0))
         \<and> wb_request (dut (reset_spi_top ev' w)) = (False, False, False, False, 0, 0, 0))"
proof -
  define c where "c = s\<lparr>dut := (dut s)\<lparr>reset := True, psel := False, penable := False,
                        pwrite := False, pstrb := 0, paddr := 0, pwdata := 0\<rparr>\<rparr>"
  define c' where "c' = w\<lparr>dut := (dut w)\<lparr>wb_rst_i := True, wb_cyc_i := False, wb_stb_i := False,
                          wb_we_i := False, wb_sel_i := 0, wb_adr_i := 0, wb_dat_i := 0,
                          miso_pad_i := False\<rparr>\<rparr>"
  have c: "apb_request (dut c) = (True, False, False, False, 0, 0, 0)"
    by (simp add: c_def apb_request_def)
  have c': "wb_request (dut c') = (True, False, False, False, 0, 0, 0)"
    by (simp add: c'_def wb_request_def)
  have held: "apb_request (dut ((tick_bitrev ev ^^ k) c)) = (True, False, False, False, 0, 0, 0)" for k
    by (simp add: ticks_bitrev_frame c)
  have held': "wb_request (dut ((tick_spi_top ev' ^^ k) c')) = (True, False, False, False, 0, 0, 0)" for k
    by (simp add: ticks_spi_top_frame c')
  have r: "do_reset_bitrev ev s =
     tick_bitrev ev (((tick_bitrev ev ^^ 10) c)\<lparr>dut := (dut ((tick_bitrev ev ^^ 10) c))\<lparr>reset := False\<rparr>\<rparr>)"
    unfolding do_reset_bitrev_def Let_def c_def ..
  have r': "reset_spi_top ev' w =
     tick_spi_top ev' (((tick_spi_top ev' ^^ 10) c')\<lparr>dut := (dut ((tick_spi_top ev' ^^ 10) c'))\<lparr>wb_rst_i := False\<rparr>\<rparr>)"
    unfolding reset_spi_top_def Let_def c'_def ..
  have e: "apb_request (dut (do_reset_bitrev ev s)) = (False, False, False, False, 0, 0, 0)"
    using held [of 10] unfolding r by (simp add: tick_bitrev_frame) (simp add: apb_request_def)
  have e': "wb_request (dut (reset_spi_top ev' w)) = (False, False, False, False, 0, 0, 0)"
    using held' [of 10] unfolding r' by (simp add: tick_spi_top_frame) (simp add: wb_request_def)
  show ?thesis
    unfolding Let_def c_def [symmetric] c'_def [symmetric]
    using r r' held held' e e' by simp
qed

text \<open>
  The theorem on the two start states, with models that never answer: the request
  side after the tenth edge under reset, and on return.
\<close>

theorem reset_sequence_witness:
  "apb_request (dut ((tick_bitrev never_ready ^^ 10)
      (bitrev_sim0\<lparr>dut := (dut bitrev_sim0)\<lparr>reset := True, psel := False, penable := False,
                        pwrite := False, pstrb := 0, paddr := 0, pwdata := 0\<rparr>\<rparr>))) =
     (True, False, False, False, 0, 0, 0)
   \<and> wb_request (dut ((tick_spi_top never_ack ^^ 10)
      ((wb_sim0 ())\<lparr>dut := (dut (wb_sim0 ()))\<lparr>wb_rst_i := True, wb_cyc_i := False, wb_stb_i := False,
                          wb_we_i := False, wb_sel_i := 0, wb_adr_i := 0, wb_dat_i := 0,
                          miso_pad_i := False\<rparr>\<rparr>))) =
     (True, False, False, False, 0, 0, 0)
   \<and> apb_request (dut (do_reset_bitrev never_ready bitrev_sim0)) =
     (False, False, False, False, 0, 0, 0)
   \<and> wb_request (dut (reset_spi_top never_ack (wb_sim0 ()))) =
     (False, False, False, False, 0, 0, 0)"
  using reset_sequence [where ev = never_ready and s = bitrev_sim0 and ev' = never_ack
      and w = "wb_sim0 ()"]
  unfolding Let_def by blast

subsection \<open>The unbounded wait loops\<close>

text \<open>
  Each of the three \<^verbatim>\<open>do { tick(); } while (!ready);\<close> loops returns exactly when the
  model raises its ready or acknowledge line after some edge, and then returns the
  state after the first such edge.
\<close>

lemma access_wait_chisel_ready:
  "\<forall>k<n. \<not> pready (dut ((tick_chisel ev ^^ Suc k) a)) \<Longrightarrow>
   pready (dut ((tick_chisel ev ^^ Suc n) a)) \<Longrightarrow>
   access_wait_chisel ev a = Some ((tick_chisel ev ^^ Suc n) a)"
proof (induction n arbitrary: a)
  case 0
  then show ?case by (subst access_wait_chisel.simps) simp
next
  case (Suc n)
  from Suc.prems(1) have nr: "\<not> pready (dut (tick_chisel ev a))" by force
  have "\<forall>k<n. \<not> pready (dut ((tick_chisel ev ^^ Suc k) (tick_chisel ev a)))"
    using Suc.prems(1) by (auto simp: funpow_swap1)
  moreover have "pready (dut ((tick_chisel ev ^^ Suc n) (tick_chisel ev a)))"
    using Suc.prems(2) by (simp add: funpow_swap1)
  ultimately have "access_wait_chisel ev (tick_chisel ev a) = Some ((tick_chisel ev ^^ Suc n) (tick_chisel ev a))"
    by (rule Suc.IH)
  with nr show ?case by (subst access_wait_chisel.simps) (simp add: funpow_swap1)
qed

lemma access_wait_chisel_returns:
  assumes "access_wait_chisel ev a = Some r"
  shows "\<exists>n. (\<forall>k<n. \<not> pready (dut ((tick_chisel ev ^^ Suc k) a))) \<and>
       pready (dut ((tick_chisel ev ^^ Suc n) a)) \<and> r = (tick_chisel ev ^^ Suc n) a"
proof -
  let ?P = "\<lambda>ev a r. \<exists>n. (\<forall>k<n. \<not> pready (dut ((tick_chisel ev ^^ Suc k) a))) \<and>
       pready (dut ((tick_chisel ev ^^ Suc n) a)) \<and> r = (tick_chisel ev ^^ Suc n) a"
  have "?P ev a r"
  proof (rule access_wait_chisel.raw_induct [where P = ?P and ev = ev and s = a and y = r])
    show "access_wait_chisel ev a = Some r" by fact
  next
    fix wait and ev :: "'a spi_model" and a r
    assume IH: "\<And>ev a r. wait ev a = Some r \<Longrightarrow> ?P ev a r"
      and step: "(if \<not> pready (dut (tick_chisel ev a)) then wait ev (tick_chisel ev a)
                  else Some (tick_chisel ev a)) = Some r"
    show "?P ev a r"
    proof (cases "pready (dut (tick_chisel ev a))")
      case True
      with step have "r = tick_chisel ev a" by simp
      with True show ?thesis by (intro exI [where x = "0::nat"]) simp
    next
      case False
      with step have "wait ev (tick_chisel ev a) = Some r" by simp
      from IH [OF this] obtain n where
        n: "\<forall>k<n. \<not> pready (dut ((tick_chisel ev ^^ Suc k) (tick_chisel ev a)))"
           "pready (dut ((tick_chisel ev ^^ Suc n) (tick_chisel ev a)))"
           "r = (tick_chisel ev ^^ Suc n) (tick_chisel ev a)" by blast
      have "\<forall>k<Suc n. \<not> pready (dut ((tick_chisel ev ^^ Suc k) a))"
      proof (intro allI impI)
        fix k assume "k < Suc n"
        show "\<not> pready (dut ((tick_chisel ev ^^ Suc k) a))"
        proof (cases k)
          case 0 with False show ?thesis by simp
        next
          case (Suc j)
          with \<open>k < Suc n\<close> have "j < n" by simp
          with n(1) Suc show ?thesis by (simp add: funpow_swap1)
        qed
      qed
      with n(2,3) show ?thesis by (intro exI [where x = "Suc n"]) (simp add: funpow_swap1)
    qed
  qed
  then show ?thesis .
qed

lemma access_wait_chisel_iff:
  "access_wait_chisel ev a = Some r \<longleftrightarrow>
     (\<exists>n. (\<forall>k<n. \<not> pready (dut ((tick_chisel ev ^^ Suc k) a))) \<and>
          pready (dut ((tick_chisel ev ^^ Suc n) a)) \<and> r = (tick_chisel ev ^^ Suc n) a)"
  using access_wait_chisel_ready access_wait_chisel_returns by blast

lemma access_wait_bitrev_ready:
  "\<forall>k<n. \<not> pready (dut ((tick_bitrev ev ^^ Suc k) a)) \<Longrightarrow>
   pready (dut ((tick_bitrev ev ^^ Suc n) a)) \<Longrightarrow>
   access_wait_bitrev ev a = Some ((tick_bitrev ev ^^ Suc n) a)"
proof (induction n arbitrary: a)
  case 0
  then show ?case by (subst access_wait_bitrev.simps) simp
next
  case (Suc n)
  from Suc.prems(1) have nr: "\<not> pready (dut (tick_bitrev ev a))" by force
  have "\<forall>k<n. \<not> pready (dut ((tick_bitrev ev ^^ Suc k) (tick_bitrev ev a)))"
    using Suc.prems(1) by (auto simp: funpow_swap1)
  moreover have "pready (dut ((tick_bitrev ev ^^ Suc n) (tick_bitrev ev a)))"
    using Suc.prems(2) by (simp add: funpow_swap1)
  ultimately have "access_wait_bitrev ev (tick_bitrev ev a) = Some ((tick_bitrev ev ^^ Suc n) (tick_bitrev ev a))"
    by (rule Suc.IH)
  with nr show ?case by (subst access_wait_bitrev.simps) (simp add: funpow_swap1)
qed

lemma access_wait_bitrev_returns:
  assumes "access_wait_bitrev ev a = Some r"
  shows "\<exists>n. (\<forall>k<n. \<not> pready (dut ((tick_bitrev ev ^^ Suc k) a))) \<and>
       pready (dut ((tick_bitrev ev ^^ Suc n) a)) \<and> r = (tick_bitrev ev ^^ Suc n) a"
proof -
  let ?P = "\<lambda>ev a r. \<exists>n. (\<forall>k<n. \<not> pready (dut ((tick_bitrev ev ^^ Suc k) a))) \<and>
       pready (dut ((tick_bitrev ev ^^ Suc n) a)) \<and> r = (tick_bitrev ev ^^ Suc n) a"
  have "?P ev a r"
  proof (rule access_wait_bitrev.raw_induct [where P = ?P and ev = ev and s = a and y = r])
    show "access_wait_bitrev ev a = Some r" by fact
  next
    fix wait and ev :: "'a apb_model" and a r
    assume IH: "\<And>ev a r. wait ev a = Some r \<Longrightarrow> ?P ev a r"
      and step: "(if \<not> pready (dut (tick_bitrev ev a)) then wait ev (tick_bitrev ev a)
                  else Some (tick_bitrev ev a)) = Some r"
    show "?P ev a r"
    proof (cases "pready (dut (tick_bitrev ev a))")
      case True
      with step have "r = tick_bitrev ev a" by simp
      with True show ?thesis by (intro exI [where x = "0::nat"]) simp
    next
      case False
      with step have "wait ev (tick_bitrev ev a) = Some r" by simp
      from IH [OF this] obtain n where
        n: "\<forall>k<n. \<not> pready (dut ((tick_bitrev ev ^^ Suc k) (tick_bitrev ev a)))"
           "pready (dut ((tick_bitrev ev ^^ Suc n) (tick_bitrev ev a)))"
           "r = (tick_bitrev ev ^^ Suc n) (tick_bitrev ev a)" by blast
      have "\<forall>k<Suc n. \<not> pready (dut ((tick_bitrev ev ^^ Suc k) a))"
      proof (intro allI impI)
        fix k assume "k < Suc n"
        show "\<not> pready (dut ((tick_bitrev ev ^^ Suc k) a))"
        proof (cases k)
          case 0 with False show ?thesis by simp
        next
          case (Suc j)
          with \<open>k < Suc n\<close> have "j < n" by simp
          with n(1) Suc show ?thesis by (simp add: funpow_swap1)
        qed
      qed
      with n(2,3) show ?thesis by (intro exI [where x = "Suc n"]) (simp add: funpow_swap1)
    qed
  qed
  then show ?thesis .
qed

lemma access_wait_bitrev_iff:
  "access_wait_bitrev ev a = Some r \<longleftrightarrow>
     (\<exists>n. (\<forall>k<n. \<not> pready (dut ((tick_bitrev ev ^^ Suc k) a))) \<and>
          pready (dut ((tick_bitrev ev ^^ Suc n) a)) \<and> r = (tick_bitrev ev ^^ Suc n) a)"
  using access_wait_bitrev_ready access_wait_bitrev_returns by blast

lemma ack_wait_spi_top_ready:
  "\<forall>k<n. \<not> wb_ack_o (dut ((tick_spi_top ev ^^ Suc k) a)) \<Longrightarrow>
   wb_ack_o (dut ((tick_spi_top ev ^^ Suc n) a)) \<Longrightarrow>
   ack_wait_spi_top ev a = Some ((tick_spi_top ev ^^ Suc n) a)"
proof (induction n arbitrary: a)
  case 0
  then show ?case by (subst ack_wait_spi_top.simps) simp
next
  case (Suc n)
  from Suc.prems(1) have nr: "\<not> wb_ack_o (dut (tick_spi_top ev a))" by force
  have "\<forall>k<n. \<not> wb_ack_o (dut ((tick_spi_top ev ^^ Suc k) (tick_spi_top ev a)))"
    using Suc.prems(1) by (auto simp: funpow_swap1)
  moreover have "wb_ack_o (dut ((tick_spi_top ev ^^ Suc n) (tick_spi_top ev a)))"
    using Suc.prems(2) by (simp add: funpow_swap1)
  ultimately have "ack_wait_spi_top ev (tick_spi_top ev a) = Some ((tick_spi_top ev ^^ Suc n) (tick_spi_top ev a))"
    by (rule Suc.IH)
  with nr show ?case by (subst ack_wait_spi_top.simps) (simp add: funpow_swap1)
qed

lemma ack_wait_spi_top_returns:
  assumes "ack_wait_spi_top ev a = Some r"
  shows "\<exists>n. (\<forall>k<n. \<not> wb_ack_o (dut ((tick_spi_top ev ^^ Suc k) a))) \<and>
       wb_ack_o (dut ((tick_spi_top ev ^^ Suc n) a)) \<and> r = (tick_spi_top ev ^^ Suc n) a"
proof -
  let ?P = "\<lambda>ev a r. \<exists>n. (\<forall>k<n. \<not> wb_ack_o (dut ((tick_spi_top ev ^^ Suc k) a))) \<and>
       wb_ack_o (dut ((tick_spi_top ev ^^ Suc n) a)) \<and> r = (tick_spi_top ev ^^ Suc n) a"
  have "?P ev a r"
  proof (rule ack_wait_spi_top.raw_induct [where P = ?P and ev = ev and s = a and y = r])
    show "ack_wait_spi_top ev a = Some r" by fact
  next
    fix wait and ev :: "'a wb_model" and a r
    assume IH: "\<And>ev a r. wait ev a = Some r \<Longrightarrow> ?P ev a r"
      and step: "(if \<not> wb_ack_o (dut (tick_spi_top ev a)) then wait ev (tick_spi_top ev a)
                  else Some (tick_spi_top ev a)) = Some r"
    show "?P ev a r"
    proof (cases "wb_ack_o (dut (tick_spi_top ev a))")
      case True
      with step have "r = tick_spi_top ev a" by simp
      with True show ?thesis by (intro exI [where x = "0::nat"]) simp
    next
      case False
      with step have "wait ev (tick_spi_top ev a) = Some r" by simp
      from IH [OF this] obtain n where
        n: "\<forall>k<n. \<not> wb_ack_o (dut ((tick_spi_top ev ^^ Suc k) (tick_spi_top ev a)))"
           "wb_ack_o (dut ((tick_spi_top ev ^^ Suc n) (tick_spi_top ev a)))"
           "r = (tick_spi_top ev ^^ Suc n) (tick_spi_top ev a)" by blast
      have "\<forall>k<Suc n. \<not> wb_ack_o (dut ((tick_spi_top ev ^^ Suc k) a))"
      proof (intro allI impI)
        fix k assume "k < Suc n"
        show "\<not> wb_ack_o (dut ((tick_spi_top ev ^^ Suc k) a))"
        proof (cases k)
          case 0 with False show ?thesis by simp
        next
          case (Suc j)
          with \<open>k < Suc n\<close> have "j < n" by simp
          with n(1) Suc show ?thesis by (simp add: funpow_swap1)
        qed
      qed
      with n(2,3) show ?thesis by (intro exI [where x = "Suc n"]) (simp add: funpow_swap1)
    qed
  qed
  then show ?thesis .
qed

lemma ack_wait_spi_top_iff:
  "ack_wait_spi_top ev a = Some r \<longleftrightarrow>
     (\<exists>n. (\<forall>k<n. \<not> wb_ack_o (dut ((tick_spi_top ev ^^ Suc k) a))) \<and>
          wb_ack_o (dut ((tick_spi_top ev ^^ Suc n) a)) \<and> r = (tick_spi_top ev ^^ Suc n) a)"
  using ack_wait_spi_top_ready ack_wait_spi_top_returns by blast

subsection \<open>The handshake bus master of \<^verbatim>\<open>sim_chisel_spi.cpp\<close>\<close>


lemma apb_request_sel:
  "apb_request d = (r, sel, en, wr, st, ad, da) \<Longrightarrow>
     reset d = r \<and> psel d = sel \<and> penable d = en \<and> pwrite d = wr \<and> pstrb d = st
     \<and> paddr d = ad \<and> pwdata d = da"
  by (simp add: apb_request_def)

lemma tick_chisel_dut:
  "dut (tick_chisel ev s) =
     (let d1 = eval_spi ev ((dut s)\<lparr>clock := True, misoPadI := mosiPadO (dut s)\<rparr>)
      in eval_spi ev (d1\<lparr>clock := False, misoPadI := mosiPadO d1\<rparr>))"
  by (simp add: tick_chisel_def Let_def dump_frame)

lemma one_wait_spi_eval:
  "internal (eval_spi one_wait_spi d) =
     (if psel d \<and> penable d then (if clock d then Suc (internal d) else internal d) else 0)"
  "pready (eval_spi one_wait_spi d) = (psel d \<and> penable d \<and> 2 \<le> internal (eval_spi one_wait_spi d))"
  "prdata (eval_spi one_wait_spi d) = pwdata d"
  "psel (eval_spi one_wait_spi d) = psel d"
  "penable (eval_spi one_wait_spi d) = penable d"
  "pwdata (eval_spi one_wait_spi d) = pwdata d"
  by (simp_all add: eval_spi_def one_wait_spi_def Let_def)

lemma one_wait_spi_tick:
  "internal (dut (tick_chisel one_wait_spi s)) =
     (if psel (dut s) \<and> penable (dut s) then Suc (internal (dut s)) else 0)"
  "pready (dut (tick_chisel one_wait_spi s)) =
     (psel (dut s) \<and> penable (dut s) \<and> 1 \<le> internal (dut s))"
  "prdata (dut (tick_chisel one_wait_spi s)) = pwdata (dut s)"
  by (auto simp add: tick_chisel_dut Let_def one_wait_spi_eval)


lemma tick_chisel_inputs:
  "psel (dut (tick_chisel ev s)) = psel (dut s)"
  "penable (dut (tick_chisel ev s)) = penable (dut s)"
  "pwrite (dut (tick_chisel ev s)) = pwrite (dut s)"
  "pwdata (dut (tick_chisel ev s)) = pwdata (dut s)"
  "paddr (dut (tick_chisel ev s)) = paddr (dut s)"
  "pstrb (dut (tick_chisel ev s)) = pstrb (dut s)"
  "reset (dut (tick_chisel ev s)) = reset (dut s)"
  using tick_chisel_frame(4) [of ev s] by (simp_all add: apb_request_def)

lemma ticks_chisel_inputs:
  "psel (dut ((tick_chisel ev ^^ k) s)) = psel (dut s)"
  "penable (dut ((tick_chisel ev ^^ k) s)) = penable (dut s)"
  "pwrite (dut ((tick_chisel ev ^^ k) s)) = pwrite (dut s)"
  using ticks_chisel_frame(4) [where ev = ev and k = k and s = s] by (simp_all add: apb_request_def)

lemma tick_chisel_time:
  "tfp s \<noteq> None \<Longrightarrow> tfp (tick_chisel ev s) \<noteq> None"
  "tfp s \<noteq> None \<Longrightarrow> sim_time (tick_chisel ev s) = sim_time s + 2"
  by (auto simp add: tick_chisel_def Let_def dump_def)

lemma one_wait_spi_access:
  assumes "psel (dut a)" "penable (dut a)" "internal (dut a) = 0"
  shows "access_wait_chisel one_wait_spi a = Some (tick_chisel one_wait_spi (tick_chisel one_wait_spi a))"
proof -
  have "\<forall>k<1. \<not> pready (dut ((tick_chisel one_wait_spi ^^ Suc k) a))"
    using assms by (simp add: one_wait_spi_tick)
  moreover have "pready (dut ((tick_chisel one_wait_spi ^^ Suc 1) a))"
    using assms by (simp add: one_wait_spi_tick tick_chisel_inputs)
  ultimately show ?thesis
    using access_wait_chisel_ready [of 1 one_wait_spi a] by simp
qed

lemma one_wait_spi_write:
  "apb_write_chisel one_wait_spi addr data s =
     Some (let s1 = tick_chisel one_wait_spi (s\<lparr>dut := (dut s)\<lparr>paddr := ucast addr, pwdata := data,
                          pstrb := 0xF, pwrite := True, psel := True, penable := False\<rparr>\<rparr>);
               r = tick_chisel one_wait_spi (tick_chisel one_wait_spi (s1\<lparr>dut := (dut s1)\<lparr>penable := True\<rparr>\<rparr>))
           in tick_chisel one_wait_spi (r\<lparr>dut := (dut r)\<lparr>psel := False, penable := False, pwrite := False\<rparr>\<rparr>))"
  unfolding apb_write_chisel_def Let_def
  by (subst one_wait_spi_access) (simp_all add: tick_chisel_inputs one_wait_spi_tick)

lemma one_wait_spi_read:
  "apb_read_chisel one_wait_spi addr s =
     Some (let s1 = tick_chisel one_wait_spi (s\<lparr>dut := (dut s)\<lparr>paddr := ucast addr, pwrite := False,
                          pstrb := 0xF, psel := True, penable := False\<rparr>\<rparr>);
               r = tick_chisel one_wait_spi (tick_chisel one_wait_spi (s1\<lparr>dut := (dut s1)\<lparr>penable := True\<rparr>\<rparr>))
           in (pwdata (dut s), tick_chisel one_wait_spi (r\<lparr>dut := (dut r)\<lparr>psel := False, penable := False\<rparr>\<rparr>)))"
  unfolding apb_read_chisel_def Let_def
  by (subst one_wait_spi_access) (simp_all add: tick_chisel_inputs one_wait_spi_tick)



text \<open>
  Claim C2. A write, and a read, of \<^verbatim>\<open>sim_chisel_spi.cpp\<close> returns exactly when the
  model raises \<^verbatim>\<open>pready\<close> after some access edge, and then the transaction has
  this shape, where \<open>n\<close> is the number of wait states: one setup edge, through
  which the select line is asserted and the enable line is not; \<open>n + 1\<close> access
  edges with select and enable asserted, \<^verbatim>\<open>pready\<close> reading false after each of the
  first \<open>n\<close> and true after the last; for a read, the returned word is
  \<^verbatim>\<open>prdata\<close> as it stands after that last access edge; then select and enable are
  de-asserted (and the write line cleared) and one further edge is advanced. On
  return select, enable and the write line read de-asserted.
\<close>

theorem apb_three_phase_chisel:
  fixes ev :: "'m spi_model"
  shows
  "(apb_write_chisel ev addr data s = Some s' \<longleftrightarrow>
      (\<exists>n. let setup = tick_chisel ev (s\<lparr>dut := (dut s)\<lparr>paddr := ucast addr, pwdata := data,
                          pstrb := 0xF, pwrite := True, psel := True, penable := False\<rparr>\<rparr>);
               access = (\<lambda>k. (tick_chisel ev ^^ k) (setup\<lparr>dut := (dut setup)\<lparr>penable := True\<rparr>\<rparr>));
               ready = access (Suc n)
           in (\<forall>k<n. \<not> pready (dut (access (Suc k)))) \<and> pready (dut ready)
              \<and> s' = tick_chisel ev
                        (ready\<lparr>dut := (dut ready)\<lparr>psel := False, penable := False, pwrite := False\<rparr>\<rparr>)
              \<and> psel (dut setup) \<and> \<not> penable (dut setup)
              \<and> (\<forall>k\<le>Suc n. psel (dut (access k)) \<and> penable (dut (access k)))
              \<and> \<not> psel (dut s') \<and> \<not> penable (dut s') \<and> \<not> pwrite (dut s')))
   \<and> (apb_read_chisel ev addr' t = Some (v, t') \<longleftrightarrow>
      (\<exists>n. let setup = tick_chisel ev (t\<lparr>dut := (dut t)\<lparr>paddr := ucast addr', pwrite := False,
                          pstrb := 0xF, psel := True, penable := False\<rparr>\<rparr>);
               access = (\<lambda>k. (tick_chisel ev ^^ k) (setup\<lparr>dut := (dut setup)\<lparr>penable := True\<rparr>\<rparr>));
               ready = access (Suc n)
           in (\<forall>k<n. \<not> pready (dut (access (Suc k)))) \<and> pready (dut ready)
              \<and> v = prdata (dut ready)
              \<and> t' = tick_chisel ev (ready\<lparr>dut := (dut ready)\<lparr>psel := False, penable := False\<rparr>\<rparr>)
              \<and> psel (dut setup) \<and> \<not> penable (dut setup)
              \<and> (\<forall>k\<le>Suc n. psel (dut (access k)) \<and> penable (dut (access k)))
              \<and> \<not> psel (dut t') \<and> \<not> penable (dut t') \<and> \<not> pwrite (dut t')))"
proof -
  \<comment> \<open>the write\<close>
  define s1 where "s1 = s\<lparr>dut := (dut s)\<lparr>paddr := ucast addr, pwdata := data,
                          pstrb := 0xF, pwrite := True, psel := True, penable := False\<rparr>\<rparr>"
  define a where "a = (tick_chisel ev s1)\<lparr>dut := (dut (tick_chisel ev s1))\<lparr>penable := True\<rparr>\<rparr>"
  define idle where "idle = (\<lambda>r :: 'm spi_dut sim.
      tick_chisel ev (r\<lparr>dut := (dut r)\<lparr>psel := False, penable := False, pwrite := False\<rparr>\<rparr>))"
  have w: "apb_write_chisel ev addr data s =
             (case access_wait_chisel ev a of None \<Rightarrow> None | Some r \<Rightarrow> Some (idle r))"
    unfolding apb_write_chisel_def Let_def s1_def a_def idle_def ..
  have rs1: "apb_request (dut (tick_chisel ev s1)) =
               (reset (dut s), True, False, True, 0xF, ucast addr, data)"
    by (simp add: tick_chisel_frame) (simp add: s1_def apb_request_def)
  have ra: "apb_request (dut ((tick_chisel ev ^^ k) a)) =
               (reset (dut s), True, True, True, 0xF, ucast addr, data)" for k
    using apb_request_sel [OF rs1]
    by (simp add: ticks_chisel_frame) (simp add: a_def apb_request_def)
  have ri: "apb_request (dut (idle r)) =
               (reset (dut r), False, False, False, pstrb (dut r), paddr (dut r), pwdata (dut r))" for r
    by (simp add: idle_def tick_chisel_frame) (simp add: apb_request_def)
  have W: "apb_write_chisel ev addr data s = Some s' \<longleftrightarrow>
      (\<exists>n. (\<forall>k<n. \<not> pready (dut ((tick_chisel ev ^^ Suc k) a)))
           \<and> pready (dut ((tick_chisel ev ^^ Suc n) a))
           \<and> s' = idle ((tick_chisel ev ^^ Suc n) a)
           \<and> psel (dut (tick_chisel ev s1)) \<and> \<not> penable (dut (tick_chisel ev s1))
           \<and> (\<forall>k\<le>Suc n. psel (dut ((tick_chisel ev ^^ k) a)) \<and> penable (dut ((tick_chisel ev ^^ k) a)))
           \<and> \<not> psel (dut s') \<and> \<not> penable (dut s') \<and> \<not> pwrite (dut s'))"
    (is "?L \<longleftrightarrow> ?R")
  proof
    assume ?L
    then obtain r where r: "access_wait_chisel ev a = Some r" and s': "s' = idle r"
      unfolding w by (auto split: option.splits)
    from r obtain n where n: "\<forall>k<n. \<not> pready (dut ((tick_chisel ev ^^ Suc k) a))"
      "pready (dut ((tick_chisel ev ^^ Suc n) a))" "r = (tick_chisel ev ^^ Suc n) a"
      unfolding access_wait_chisel_iff by blast
    show ?R
      using n s' apb_request_sel [OF rs1] apb_request_sel [OF ra] apb_request_sel [OF ri]
      by (intro exI [where x = n]) simp
  next
    assume ?R
    then obtain n where n: "\<forall>k<n. \<not> pready (dut ((tick_chisel ev ^^ Suc k) a))"
      "pready (dut ((tick_chisel ev ^^ Suc n) a))" "s' = idle ((tick_chisel ev ^^ Suc n) a)"
      by blast
    from access_wait_chisel_ready [OF n(1,2)] n(3) show ?L unfolding w by simp
  qed
  \<comment> \<open>the read\<close>
  define t1 where "t1 = t\<lparr>dut := (dut t)\<lparr>paddr := ucast addr', pwrite := False,
                          pstrb := 0xF, psel := True, penable := False\<rparr>\<rparr>"
  define b where "b = (tick_chisel ev t1)\<lparr>dut := (dut (tick_chisel ev t1))\<lparr>penable := True\<rparr>\<rparr>"
  define idle' where "idle' = (\<lambda>r :: 'm spi_dut sim.
      tick_chisel ev (r\<lparr>dut := (dut r)\<lparr>psel := False, penable := False\<rparr>\<rparr>))"
  have rd: "apb_read_chisel ev addr' t =
             (case access_wait_chisel ev b of None \<Rightarrow> None
              | Some r \<Rightarrow> Some (prdata (dut r), idle' r))"
    unfolding apb_read_chisel_def Let_def t1_def b_def idle'_def ..
  have rt1: "apb_request (dut (tick_chisel ev t1)) =
               (reset (dut t), True, False, False, 0xF, ucast addr', pwdata (dut t))"
    by (simp add: tick_chisel_frame) (simp add: t1_def apb_request_def)
  have rb: "apb_request (dut ((tick_chisel ev ^^ k) b)) =
               (reset (dut t), True, True, False, 0xF, ucast addr', pwdata (dut t))" for k
    using apb_request_sel [OF rt1]
    by (simp add: ticks_chisel_frame) (simp add: b_def apb_request_def)
  have ri': "apb_request (dut (idle' r)) =
               (reset (dut r), False, False, pwrite (dut r), pstrb (dut r), paddr (dut r), pwdata (dut r))" for r
    by (simp add: idle'_def tick_chisel_frame) (simp add: apb_request_def)
  have R: "apb_read_chisel ev addr' t = Some (v, t') \<longleftrightarrow>
      (\<exists>n. (\<forall>k<n. \<not> pready (dut ((tick_chisel ev ^^ Suc k) b)))
           \<and> pready (dut ((tick_chisel ev ^^ Suc n) b))
           \<and> v = prdata (dut ((tick_chisel ev ^^ Suc n) b))
           \<and> t' = idle' ((tick_chisel ev ^^ Suc n) b)
           \<and> psel (dut (tick_chisel ev t1)) \<and> \<not> penable (dut (tick_chisel ev t1))
           \<and> (\<forall>k\<le>Suc n. psel (dut ((tick_chisel ev ^^ k) b)) \<and> penable (dut ((tick_chisel ev ^^ k) b)))
           \<and> \<not> psel (dut t') \<and> \<not> penable (dut t') \<and> \<not> pwrite (dut t'))"
    (is "?L \<longleftrightarrow> ?R")
  proof
    assume ?L
    then obtain r where r: "access_wait_chisel ev b = Some r" and v: "v = prdata (dut r)"
      and t': "t' = idle' r"
      unfolding rd by (auto split: option.splits)
    from r obtain n where n: "\<forall>k<n. \<not> pready (dut ((tick_chisel ev ^^ Suc k) b))"
      "pready (dut ((tick_chisel ev ^^ Suc n) b))" "r = (tick_chisel ev ^^ Suc n) b"
      unfolding access_wait_chisel_iff by blast
    show ?R
      using n v t' apb_request_sel [OF rt1] apb_request_sel [OF rb] apb_request_sel [OF ri']
        apb_request_sel [OF rb [of "Suc n"]]
      by (intro exI [where x = n]) simp
  next
    assume ?R
    then obtain n where n: "\<forall>k<n. \<not> pready (dut ((tick_chisel ev ^^ Suc k) b))"
      "pready (dut ((tick_chisel ev ^^ Suc n) b))"
      "v = prdata (dut ((tick_chisel ev ^^ Suc n) b))" "t' = idle' ((tick_chisel ev ^^ Suc n) b)"
      by blast
    from access_wait_chisel_ready [OF n(1,2)] n(3,4) show ?L unfolding rd by simp
  qed
  show ?thesis
    unfolding Let_def using W R
    unfolding s1_def [symmetric] a_def [symmetric] t1_def [symmetric] b_def [symmetric] idle_def idle'_def
    by blast
qed




text \<open>
  The theorem on the model with one wait state (\<open>n = 1\<close>): writing 4 to the divider
  register from the start state takes four edges, eight trace entries, and leaves
  the request lines de-asserted; the read that follows returns 4.
\<close>

theorem apb_three_phase_chisel_witness:
  "map_option sim_time (apb_write_chisel one_wait_spi ADDR_DIVIDE 4 spi_sim0) = Some 8
   \<and> map_option (apb_request \<circ> dut) (apb_write_chisel one_wait_spi ADDR_DIVIDE 4 spi_sim0) =
       Some (False, False, False, False, 0xF, 0x14, 4)
   \<and> map_option fst (apb_read_chisel one_wait_spi ADDR_DIVIDE
        (the (apb_write_chisel one_wait_spi ADDR_DIVIDE 4 spi_sim0))) = Some 4"
proof -
  let ?tick = "tick_chisel one_wait_spi"
  define s0 where "s0 = spi_sim0\<lparr>dut := (dut spi_sim0)\<lparr>paddr := ucast ADDR_DIVIDE,
      pwdata := 4, pstrb := 0xF, pwrite := True, psel := True, penable := False\<rparr>\<rparr>"
  define s1 where "s1 = ?tick s0"
  define a where "a = s1\<lparr>dut := (dut s1)\<lparr>penable := True\<rparr>\<rparr>"
  define r where "r = (?tick ^^ Suc 1) a"
  define i where "i = r\<lparr>dut := (dut r)\<lparr>psel := False, penable := False, pwrite := False\<rparr>\<rparr>"
  define s' where "s' = ?tick i"
  have a: "psel (dut a)" "penable (dut a)" "internal (dut a) = 0" "pwdata (dut a) = 4"
    "tfp a \<noteq> None" "sim_time a = 2" "pstrb (dut a) = 0xF" "paddr (dut a) = 0x14"
    "\<not> reset (dut a)"
    by (simp_all add: a_def s1_def s0_def tick_chisel_inputs one_wait_spi_tick tick_chisel_time
        spi_sim0_def spi_dut0_def ADDR_DIVIDE_def)
  have p1: "\<forall>k<1. \<not> pready (dut ((?tick ^^ Suc k) a))"
    using a by (simp add: one_wait_spi_tick)
  have p2: "pready (dut r)"
    using a by (simp add: r_def one_wait_spi_tick tick_chisel_inputs)
  have p3: "psel (dut s1) \<and> \<not> penable (dut s1)"
    by (simp add: s1_def s0_def tick_chisel_inputs)
  have p4: "\<forall>k\<le>Suc 1. psel (dut ((?tick ^^ k) a)) \<and> penable (dut ((?tick ^^ k) a))"
    using a by (simp add: ticks_chisel_inputs)
  have p5: "\<not> psel (dut s') \<and> \<not> penable (dut s') \<and> \<not> pwrite (dut s')"
    by (simp add: s'_def i_def tick_chisel_inputs)
  have W: "apb_write_chisel one_wait_spi ADDR_DIVIDE 4 spi_sim0 = Some s'"
    apply (rule apb_three_phase_chisel [THEN conjunct1, THEN iffD2])
    apply (rule exI [where x = 1])
    unfolding Let_def s0_def [symmetric] s1_def [symmetric] a_def [symmetric] r_def [symmetric]
      i_def [symmetric] s'_def [symmetric]
    using p1 p2 p3 p4 p5 by blast
  have t: "sim_time s' = 8" "apb_request (dut s') = (False, False, False, False, 0xF, 0x14, 4)"
    "pwdata (dut s') = 4"
    using a by (simp_all add: s'_def i_def r_def tick_chisel_inputs tick_chisel_time apb_request_def)
  have R: "fst (the (apb_read_chisel one_wait_spi ADDR_DIVIDE s')) = 4"
    using t(3) by (simp add: one_wait_spi_read Let_def)
  have "apb_read_chisel one_wait_spi ADDR_DIVIDE s' \<noteq> None"
    by (simp add: one_wait_spi_read)
  with R have R': "map_option fst (apb_read_chisel one_wait_spi ADDR_DIVIDE s') = Some 4"
    by (cases "apb_read_chisel one_wait_spi ADDR_DIVIDE s'") auto
  from W t R' show ?thesis by simp
qed

subsection \<open>The bus master of \<^verbatim>\<open>sim_qspi_psram.cpp\<close>\<close>


lemma psram_write_frame:
  "dut (psram_write a d s) = dut s" "tfp (psram_write a d s) = tfp s"
  "sim_time (psram_write a d s) = sim_time s"
  "test_pass (psram_write a d s) = test_pass s" "test_fail (psram_write a d s) = test_fail s"
  by (simp_all add: psram_write_def Let_def)

lemma psram_writes_frame:
  "dut (fold (\<lambda>(a, d). psram_write a d) ws s) = dut s"
  "tfp (fold (\<lambda>(a, d). psram_write a d) ws s) = tfp s"
  "sim_time (fold (\<lambda>(a, d). psram_write a d) ws s) = sim_time s"
  "test_pass (fold (\<lambda>(a, d). psram_write a d) ws s) = test_pass s"
  "test_fail (fold (\<lambda>(a, d). psram_write a d) ws s) = test_fail s"
  by (induction ws arbitrary: s) (simp_all add: psram_write_frame split: prod.splits)

lemma eval_qspi_frame:
  "clock (dut (eval_qspi ev s)) = clock (dut s)"
  "apb_request (dut (eval_qspi ev s)) = apb_request (dut s)"
  "tfp (eval_qspi ev s) = tfp s" "sim_time (eval_qspi ev s) = sim_time s"
  "test_pass (eval_qspi ev s) = test_pass s" "test_fail (eval_qspi ev s) = test_fail s"
  by (simp_all add: eval_qspi_def psram_writes_frame apb_request_def split: prod.splits)

lemma tick_qspi_frame:
  "test_pass (tick_qspi ev s) = test_pass s" "test_fail (tick_qspi ev s) = test_fail s"
  "apb_request (dut (tick_qspi ev s)) = apb_request (dut s)"
  by (simp_all add: tick_qspi_def Let_def dump_frame eval_qspi_frame apb_request_clock)

lemma ticks_qspi_frame:
  "test_pass ((tick_qspi ev ^^ k) s) = test_pass s"
  "test_fail ((tick_qspi ev ^^ k) s) = test_fail s"
  "apb_request (dut ((tick_qspi ev ^^ k) s)) = apb_request (dut s)"
  by (induction k) (simp_all add: tick_qspi_frame)

declare apb_write_wait_qspi.simps [simp del] apb_read_wait_qspi.simps [simp del]

lemma apb_write_wait_qspi_ready:
  "\<forall>k<n. \<not> pready (dut ((tick_qspi ev ^^ Suc k) a)) \<Longrightarrow>
   pready (dut ((tick_qspi ev ^^ Suc n) a)) \<Longrightarrow>
   c + int (Suc n) \<le> MAX_CYCLES \<Longrightarrow>
   apb_write_wait_qspi ev addr c a = (tick_qspi ev ^^ Suc n) a"
proof (induction n arbitrary: a c)
  case 0
  then show ?case by (subst apb_write_wait_qspi.simps) (simp add: Let_def)
next
  case (Suc n)
  from Suc.prems(1) have nr: "\<not> pready (dut (tick_qspi ev a))" by force
  have "\<forall>k<n. \<not> pready (dut ((tick_qspi ev ^^ Suc k) (tick_qspi ev a)))"
    using Suc.prems(1) by (auto simp: funpow_swap1)
  moreover have "pready (dut ((tick_qspi ev ^^ Suc n) (tick_qspi ev a)))"
    using Suc.prems(2) by (simp add: funpow_swap1)
  moreover have "(c + 1) + int (Suc n) \<le> MAX_CYCLES" using Suc.prems(3) by simp
  ultimately have "apb_write_wait_qspi ev addr (c + 1) (tick_qspi ev a) =
      (tick_qspi ev ^^ Suc n) (tick_qspi ev a)"
    by (rule Suc.IH)
  moreover have "\<not> c + 1 > MAX_CYCLES" using Suc.prems(3) by simp
  ultimately show ?case using nr
    by (subst apb_write_wait_qspi.simps) (simp add: Let_def funpow_swap1)
qed

lemma apb_read_wait_qspi_ready:
  "\<forall>k<n. \<not> pready (dut ((tick_qspi ev ^^ Suc k) a)) \<Longrightarrow>
   pready (dut ((tick_qspi ev ^^ Suc n) a)) \<Longrightarrow>
   c + int (Suc n) \<le> MAX_CYCLES \<Longrightarrow>
   apb_read_wait_qspi ev addr c a = Inr ((tick_qspi ev ^^ Suc n) a)"
proof (induction n arbitrary: a c)
  case 0
  then show ?case by (subst apb_read_wait_qspi.simps) (simp add: Let_def)
next
  case (Suc n)
  from Suc.prems(1) have nr: "\<not> pready (dut (tick_qspi ev a))" by force
  have "\<forall>k<n. \<not> pready (dut ((tick_qspi ev ^^ Suc k) (tick_qspi ev a)))"
    using Suc.prems(1) by (auto simp: funpow_swap1)
  moreover have "pready (dut ((tick_qspi ev ^^ Suc n) (tick_qspi ev a)))"
    using Suc.prems(2) by (simp add: funpow_swap1)
  moreover have "(c + 1) + int (Suc n) \<le> MAX_CYCLES" using Suc.prems(3) by simp
  ultimately have "apb_read_wait_qspi ev addr (c + 1) (tick_qspi ev a) =
      Inr ((tick_qspi ev ^^ Suc n) (tick_qspi ev a))"
    by (rule Suc.IH)
  moreover have "\<not> c + 1 > MAX_CYCLES" using Suc.prems(3) by simp
  ultimately show ?case using nr
    by (subst apb_read_wait_qspi.simps) (simp add: Let_def funpow_swap1)
qed

lemma apb_read_wait_qspi_timeout:
  "\<forall>k. c + int (Suc k) \<le> MAX_CYCLES \<longrightarrow> \<not> pready (dut ((tick_qspi ev ^^ Suc k) a)) \<Longrightarrow>
   c \<le> MAX_CYCLES \<Longrightarrow> m = nat (MAX_CYCLES - c) \<Longrightarrow>
   apb_read_wait_qspi ev addr c a =
     Inl (0xDEADBEEF, ((tick_qspi ev ^^ Suc m) a)\<lparr>out := out ((tick_qspi ev ^^ Suc m) a) @ [TIMEOUT_apb_read addr]\<rparr>)"
proof (induction m arbitrary: a c)
  case 0
  then have "c = MAX_CYCLES" by simp
  then show ?case by (subst apb_read_wait_qspi.simps) (simp add: Let_def)
next
  case (Suc m)
  then have c: "c + 1 \<le> MAX_CYCLES" "m = nat (MAX_CYCLES - (c + 1))" by simp_all
  from Suc.prems(1) [rule_format, of 0] c have nr: "\<not> pready (dut (tick_qspi ev a))" by simp
  have "\<forall>k. (c + 1) + int (Suc k) \<le> MAX_CYCLES \<longrightarrow>
          \<not> pready (dut ((tick_qspi ev ^^ Suc k) (tick_qspi ev a)))"
  proof (intro allI impI)
    fix k assume "(c + 1) + int (Suc k) \<le> MAX_CYCLES"
    then have "c + int (Suc (Suc k)) \<le> MAX_CYCLES" by simp
    from Suc.prems(1) [rule_format, OF this]
    show "\<not> pready (dut ((tick_qspi ev ^^ Suc k) (tick_qspi ev a)))" by (simp add: funpow_swap1)
  qed
  from Suc.IH [OF this c(1) c(2)] nr c(1) show ?case
    by (subst apb_read_wait_qspi.simps) (simp add: Let_def funpow_swap1)
qed

lemma apb_write_wait_qspi_timeout:
  "\<forall>k. c + int (Suc k) \<le> MAX_CYCLES \<longrightarrow> \<not> pready (dut ((tick_qspi ev ^^ Suc k) a)) \<Longrightarrow>
   c \<le> MAX_CYCLES \<Longrightarrow> m = nat (MAX_CYCLES - c) \<Longrightarrow>
   apb_write_wait_qspi ev addr c a =
     ((tick_qspi ev ^^ Suc m) a)\<lparr>out := out ((tick_qspi ev ^^ Suc m) a) @ [TIMEOUT_apb_write addr]\<rparr>"
proof (induction m arbitrary: a c)
  case 0
  then have "c = MAX_CYCLES" by simp
  then show ?case by (subst apb_write_wait_qspi.simps) (simp add: Let_def)
next
  case (Suc m)
  then have c: "c + 1 \<le> MAX_CYCLES" "m = nat (MAX_CYCLES - (c + 1))" by simp_all
  from Suc.prems(1) [rule_format, of 0] c have nr: "\<not> pready (dut (tick_qspi ev a))" by simp
  have "\<forall>k. (c + 1) + int (Suc k) \<le> MAX_CYCLES \<longrightarrow>
          \<not> pready (dut ((tick_qspi ev ^^ Suc k) (tick_qspi ev a)))"
  proof (intro allI impI)
    fix k assume "(c + 1) + int (Suc k) \<le> MAX_CYCLES"
    then have "c + int (Suc (Suc k)) \<le> MAX_CYCLES" by simp
    from Suc.prems(1) [rule_format, OF this]
    show "\<not> pready (dut ((tick_qspi ev ^^ Suc k) (tick_qspi ev a)))" by (simp add: funpow_swap1)
  qed
  from Suc.IH [OF this c(1) c(2)] nr c(1) show ?case
    by (subst apb_write_wait_qspi.simps) (simp add: Let_def funpow_swap1)
qed

lemma strobe_all: "filter (\<lambda>i. bit (0xF :: u8) i) [0..<4] = [0, 1, 2, 3]"
  by code_simp

lemma psram_write_mem:
  "psram_mem (psram_write a d s) = (psram_mem s)[unat (a AND 0xFFFFF) := d]"
  by (simp add: psram_write_def Let_def)

lemma psram_writes_mem:
  "psram_mem (fold (\<lambda>(a, d). psram_write a d) ws s) =
     fold (\<lambda>(a, d) m. m[unat (a AND 0xFFFFF) := d]) ws (psram_mem s)"
  by (induction ws arbitrary: s) (simp_all add: psram_write_mem split: prod.splits)

lemma psram_bridge_eval:
  "eval_qspi psram_bridge s =
     (let d = dut s;
          n = (if psel d \<and> penable d then (if clock d then Suc (internal d) else internal d)
               else 0);
          ws = (if psel d \<and> penable d \<and> clock d \<and> n = 2 \<and> pwrite d
                then map (\<lambda>i. (paddr d + of_nat i, ucast (drop_bit (8 * i) (pwdata d))))
                       (filter (\<lambda>i. bit (pstrb d) i) [0..<4])
                else []);
          word = ucast (psram_read (paddr d) s) OR push_bit 8 (ucast (psram_read (paddr d + 1) s))
                 OR push_bit 16 (ucast (psram_read (paddr d + 2) s))
                 OR push_bit 24 (ucast (psram_read (paddr d + 3) s))
      in fold (\<lambda>(a, d). psram_write a d) ws
           (s\<lparr>dut := d\<lparr>pready := psel d \<and> penable d \<and> 2 \<le> n, prdata := word, internal := n\<rparr>\<rparr>))"
  by (simp add: eval_qspi_def psram_bridge_def Let_def)

lemma psram_bridge_eval_low:
  assumes "\<not> clock (dut s)"
  shows "eval_qspi psram_bridge s =
     (let d = dut s;
          n = (if psel d \<and> penable d then internal d else 0);
          word = ucast (psram_read (paddr d) s) OR push_bit 8 (ucast (psram_read (paddr d + 1) s))
                 OR push_bit 16 (ucast (psram_read (paddr d + 2) s))
                 OR push_bit 24 (ucast (psram_read (paddr d + 3) s))
      in s\<lparr>dut := d\<lparr>pready := psel d \<and> penable d \<and> 2 \<le> n, prdata := word, internal := n\<rparr>\<rparr>)"
  using assms by (simp add: psram_bridge_eval Let_def)

lemma psram_bridge_eval_high:
  assumes "clock (dut s)"
  shows
  "internal (dut (eval_qspi psram_bridge s)) =
     (if psel (dut s) \<and> penable (dut s) then Suc (internal (dut s)) else 0)"
  "psram_mem (eval_qspi psram_bridge s) =
     (if psel (dut s) \<and> penable (dut s) \<and> internal (dut s) = 1 \<and> pwrite (dut s)
      then fold (\<lambda>(a, d) m. m[unat (a AND 0xFFFFF) := d])
             (map (\<lambda>i. (paddr (dut s) + of_nat i, ucast (drop_bit (8 * i) (pwdata (dut s)))))
                       (filter (\<lambda>i. bit (pstrb (dut s)) i) [0..<4])) (psram_mem s)
      else psram_mem s)"
  "psel (dut (eval_qspi psram_bridge s)) = psel (dut s)"
  "penable (dut (eval_qspi psram_bridge s)) = penable (dut s)"
  "paddr (dut (eval_qspi psram_bridge s)) = paddr (dut s)"
  using assms
  by (auto simp add: psram_bridge_eval Let_def psram_writes_frame psram_writes_mem)


lemma tick_qspi_eq:
  "tick_qspi ev s = dump (eval_qspi ev
       ((dump (eval_qspi ev (s\<lparr>dut := (dut s)\<lparr>clock := True\<rparr>\<rparr>)))
          \<lparr>dut := (dut (eval_qspi ev (s\<lparr>dut := (dut s)\<lparr>clock := True\<rparr>\<rparr>)))\<lparr>clock := False\<rparr>\<rparr>))"
  by (simp add: tick_qspi_def Let_def dump_frame)

lemma dump_mem: "psram_mem (dump s) = psram_mem s"
  by (simp add: dump_def split: option.splits)

lemma psram_read_cong:
  "psram_mem s = psram_mem s' \<Longrightarrow> psram_read a s = psram_read a s'"
  by (simp add: psram_read_def)

lemma psram_bridge_tick:
  "internal (dut (tick_qspi psram_bridge s)) =
     (if psel (dut s) \<and> penable (dut s) then Suc (internal (dut s)) else 0)"
  "pready (dut (tick_qspi psram_bridge s)) =
     (psel (dut s) \<and> penable (dut s) \<and> 1 \<le> internal (dut s))"
  "psram_mem (tick_qspi psram_bridge s) =
     (if psel (dut s) \<and> penable (dut s) \<and> internal (dut s) = 1 \<and> pwrite (dut s)
      then fold (\<lambda>(a, d) m. m[unat (a AND 0xFFFFF) := d])
             (map (\<lambda>i. (paddr (dut s) + of_nat i, ucast (drop_bit (8 * i) (pwdata (dut s)))))
                       (filter (\<lambda>i. bit (pstrb (dut s)) i) [0..<4])) (psram_mem s)
      else psram_mem s)"
  "prdata (dut (tick_qspi psram_bridge s)) =
     ucast (psram_read (paddr (dut s)) (tick_qspi psram_bridge s))
       OR push_bit 8 (ucast (psram_read (paddr (dut s) + 1) (tick_qspi psram_bridge s)))
       OR push_bit 16 (ucast (psram_read (paddr (dut s) + 2) (tick_qspi psram_bridge s)))
       OR push_bit 24 (ucast (psram_read (paddr (dut s) + 3) (tick_qspi psram_bridge s)))"
proof -
  define h where "h = eval_qspi psram_bridge (s\<lparr>dut := (dut s)\<lparr>clock := True\<rparr>\<rparr>)"
  define l where "l = (dump h)\<lparr>dut := (dut h)\<lparr>clock := False\<rparr>\<rparr>"
  have t: "tick_qspi psram_bridge s = dump (eval_qspi psram_bridge l)"
    unfolding tick_qspi_eq h_def l_def ..
  have h: "internal (dut h) = (if psel (dut s) \<and> penable (dut s) then Suc (internal (dut s)) else 0)"
    "psel (dut h) = psel (dut s)" "penable (dut h) = penable (dut s)" "paddr (dut h) = paddr (dut s)"
    "psram_mem h = (if psel (dut s) \<and> penable (dut s) \<and> internal (dut s) = 1 \<and> pwrite (dut s)
      then fold (\<lambda>(a, d) m. m[unat (a AND 0xFFFFF) := d])
             (map (\<lambda>i. (paddr (dut s) + of_nat i, ucast (drop_bit (8 * i) (pwdata (dut s)))))
                       (filter (\<lambda>i. bit (pstrb (dut s)) i) [0..<4])) (psram_mem s)
      else psram_mem s)"
    unfolding h_def by (simp_all add: psram_bridge_eval_high)
  have l: "\<not> clock (dut l)" "internal (dut l) = internal (dut h)" "psel (dut l) = psel (dut h)"
    "penable (dut l) = penable (dut h)" "paddr (dut l) = paddr (dut h)" "psram_mem l = psram_mem h"
    by (simp_all add: l_def dump_mem)
  have e: "eval_qspi psram_bridge l =
     (let d = dut l;
          n = (if psel d \<and> penable d then internal d else 0);
          word = ucast (psram_read (paddr d) l) OR push_bit 8 (ucast (psram_read (paddr d + 1) l))
                 OR push_bit 16 (ucast (psram_read (paddr d + 2) l))
                 OR push_bit 24 (ucast (psram_read (paddr d + 3) l))
      in l\<lparr>dut := d\<lparr>pready := psel d \<and> penable d \<and> 2 \<le> n, prdata := word, internal := n\<rparr>\<rparr>)"
    by (rule psram_bridge_eval_low [OF l(1)])
  have m: "psram_mem (tick_qspi psram_bridge s) = psram_mem l"
    unfolding t e by (simp add: dump_mem Let_def)
  show "internal (dut (tick_qspi psram_bridge s)) =
     (if psel (dut s) \<and> penable (dut s) then Suc (internal (dut s)) else 0)"
    unfolding t e using h l by (simp add: dump_frame Let_def)
  show "pready (dut (tick_qspi psram_bridge s)) =
     (psel (dut s) \<and> penable (dut s) \<and> 1 \<le> internal (dut s))"
    unfolding t e using h l by (auto simp add: dump_frame Let_def)
  show "psram_mem (tick_qspi psram_bridge s) =
     (if psel (dut s) \<and> penable (dut s) \<and> internal (dut s) = 1 \<and> pwrite (dut s)
      then fold (\<lambda>(a, d) m. m[unat (a AND 0xFFFFF) := d])
             (map (\<lambda>i. (paddr (dut s) + of_nat i, ucast (drop_bit (8 * i) (pwdata (dut s)))))
                       (filter (\<lambda>i. bit (pstrb (dut s)) i) [0..<4])) (psram_mem s)
      else psram_mem s)"
    unfolding m l(6) h(5) ..
  have "prdata (dut (tick_qspi psram_bridge s)) =
     ucast (psram_read (paddr (dut s)) l)
       OR push_bit 8 (ucast (psram_read (paddr (dut s) + 1) l))
       OR push_bit 16 (ucast (psram_read (paddr (dut s) + 2) l))
       OR push_bit 24 (ucast (psram_read (paddr (dut s) + 3) l))"
    unfolding t e using h l by (simp add: dump_frame Let_def)
  then show "prdata (dut (tick_qspi psram_bridge s)) =
     ucast (psram_read (paddr (dut s)) (tick_qspi psram_bridge s))
       OR push_bit 8 (ucast (psram_read (paddr (dut s) + 1) (tick_qspi psram_bridge s)))
       OR push_bit 16 (ucast (psram_read (paddr (dut s) + 2) (tick_qspi psram_bridge s)))
       OR push_bit 24 (ucast (psram_read (paddr (dut s) + 3) (tick_qspi psram_bridge s)))"
    using m by (simp add: psram_read_def)
qed

lemma tick_qspi_inputs:
  "psel (dut (tick_qspi ev s)) = psel (dut s)"
  "penable (dut (tick_qspi ev s)) = penable (dut s)"
  "pwrite (dut (tick_qspi ev s)) = pwrite (dut s)"
  "pwdata (dut (tick_qspi ev s)) = pwdata (dut s)"
  "paddr (dut (tick_qspi ev s)) = paddr (dut s)"
  "pstrb (dut (tick_qspi ev s)) = pstrb (dut s)"
  "reset (dut (tick_qspi ev s)) = reset (dut s)"
  using tick_qspi_frame(3) [where ev = ev and s = s] by (simp_all add: apb_request_def)

lemma ticks_qspi_inputs:
  "psel (dut ((tick_qspi ev ^^ k) s)) = psel (dut s)"
  "penable (dut ((tick_qspi ev ^^ k) s)) = penable (dut s)"
  "pwrite (dut ((tick_qspi ev ^^ k) s)) = pwrite (dut s)"
  using ticks_qspi_frame(3) [where ev = ev and k = k and s = s] by (simp_all add: apb_request_def)

text \<open>
  Claim C3. In \<^verbatim>\<open>sim_qspi_psram.cpp\<close>, when the model first raises \<^verbatim>\<open>pready\<close>
  after the access edge number \<open>n + 1\<close>, within the ceiling of \<^verbatim>\<open>MAX_CYCLES\<close>
  edges, then \<^verbatim>\<open>apb_write\<close> and \<^verbatim>\<open>apb_read\<close> advance exactly one more edge with
  select and enable still asserted, and only then de-assert them and advance the
  idle edge; the read returns \<^verbatim>\<open>prdata\<close> as sampled before that extra edge.
\<close>

theorem apb_qspi_grace_edge:
  fixes ev :: "'m qspi_model"
  assumes "int (Suc n) \<le> MAX_CYCLES" and "int (Suc n') \<le> MAX_CYCLES"
  shows
  "(let setup = tick_qspi ev (s\<lparr>dut := (dut s)\<lparr>paddr := addr, pwdata := data, pstrb := strb,
                      pwrite := True, psel := True, penable := False\<rparr>\<rparr>);
        access = (\<lambda>k. (tick_qspi ev ^^ k) (setup\<lparr>dut := (dut setup)\<lparr>penable := True\<rparr>\<rparr>));
        ready = access (Suc n);
        grace = tick_qspi ev ready;
        result = apb_write_qspi ev addr data strb s
    in (\<forall>k<n. \<not> pready (dut (access (Suc k)))) \<and> pready (dut ready) \<longrightarrow>
         result = tick_qspi ev
                    (grace\<lparr>dut := (dut grace)\<lparr>psel := False, penable := False, pwrite := False\<rparr>\<rparr>)
         \<and> psel (dut ready) \<and> penable (dut ready)
         \<and> psel (dut grace) \<and> penable (dut grace)
         \<and> \<not> psel (dut result) \<and> \<not> penable (dut result) \<and> \<not> pwrite (dut result))
   \<and> (let setup = tick_qspi ev (t\<lparr>dut := (dut t)\<lparr>paddr := addr', pwrite := False, pstrb := 0xF,
                        psel := True, penable := False\<rparr>\<rparr>);
          access = (\<lambda>k. (tick_qspi ev ^^ k) (setup\<lparr>dut := (dut setup)\<lparr>penable := True\<rparr>\<rparr>));
          ready = access (Suc n');
          grace = tick_qspi ev ready;
          result = apb_read_qspi ev addr' t
      in (\<forall>k<n'. \<not> pready (dut (access (Suc k)))) \<and> pready (dut ready) \<longrightarrow>
           fst result = prdata (dut ready)
           \<and> snd result = tick_qspi ev (grace\<lparr>dut := (dut grace)\<lparr>psel := False, penable := False\<rparr>\<rparr>)
           \<and> psel (dut ready) \<and> penable (dut ready)
           \<and> psel (dut grace) \<and> penable (dut grace)
           \<and> \<not> psel (dut (snd result)) \<and> \<not> penable (dut (snd result)))"
proof -
  define s1 where "s1 = tick_qspi ev (s\<lparr>dut := (dut s)\<lparr>paddr := addr, pwdata := data, pstrb := strb,
                      pwrite := True, psel := True, penable := False\<rparr>\<rparr>)"
  define a where "a = s1\<lparr>dut := (dut s1)\<lparr>penable := True\<rparr>\<rparr>"
  define r where "r = (tick_qspi ev ^^ Suc n) a"
  define g where "g = tick_qspi ev r"
  have w: "apb_write_qspi ev addr data strb s =
      (let x = tick_qspi ev (apb_write_wait_qspi ev addr 0 a)
       in tick_qspi ev (x\<lparr>dut := (dut x)\<lparr>psel := False, penable := False, pwrite := False\<rparr>\<rparr>))"
    unfolding apb_write_qspi_def Let_def s1_def a_def ..
  have a: "psel (dut a)" "penable (dut a)"
    by (simp_all add: a_def s1_def tick_qspi_inputs)
  have W: "apb_write_qspi ev addr data strb s =
             tick_qspi ev (g\<lparr>dut := (dut g)\<lparr>psel := False, penable := False, pwrite := False\<rparr>\<rparr>)
           \<and> psel (dut r) \<and> penable (dut r) \<and> psel (dut g) \<and> penable (dut g)
           \<and> \<not> psel (dut (apb_write_qspi ev addr data strb s))
           \<and> \<not> penable (dut (apb_write_qspi ev addr data strb s))
           \<and> \<not> pwrite (dut (apb_write_qspi ev addr data strb s))"
    if "\<forall>k<n. \<not> pready (dut ((tick_qspi ev ^^ Suc k) a))" "pready (dut r)"
  proof -
    have "apb_write_wait_qspi ev addr 0 a = r"
      unfolding r_def using that assms(1) by (intro apb_write_wait_qspi_ready) (simp_all add: r_def)
    then have "apb_write_qspi ev addr data strb s =
             tick_qspi ev (g\<lparr>dut := (dut g)\<lparr>psel := False, penable := False, pwrite := False\<rparr>\<rparr>)"
      unfolding w g_def Let_def by simp
    then show ?thesis using a by (simp add: g_def r_def tick_qspi_inputs ticks_qspi_inputs)
  qed
  define t1 where "t1 = tick_qspi ev (t\<lparr>dut := (dut t)\<lparr>paddr := addr', pwrite := False, pstrb := 0xF,
                        psel := True, penable := False\<rparr>\<rparr>)"
  define b where "b = t1\<lparr>dut := (dut t1)\<lparr>penable := True\<rparr>\<rparr>"
  define r' where "r' = (tick_qspi ev ^^ Suc n') b"
  define g' where "g' = tick_qspi ev r'"
  have rd: "apb_read_qspi ev addr' t =
      (case apb_read_wait_qspi ev addr' 0 b of
         Inl timed_out \<Rightarrow> timed_out
       | Inr x \<Rightarrow> (prdata (dut x),
           tick_qspi ev ((tick_qspi ev x)\<lparr>dut := (dut (tick_qspi ev x))\<lparr>psel := False, penable := False\<rparr>\<rparr>)))"
    unfolding apb_read_qspi_def Let_def t1_def b_def ..
  have b: "psel (dut b)" "penable (dut b)"
    by (simp_all add: b_def t1_def tick_qspi_inputs)
  have R: "fst (apb_read_qspi ev addr' t) = prdata (dut r')
           \<and> snd (apb_read_qspi ev addr' t) =
               tick_qspi ev (g'\<lparr>dut := (dut g')\<lparr>psel := False, penable := False\<rparr>\<rparr>)
           \<and> psel (dut r') \<and> penable (dut r') \<and> psel (dut g') \<and> penable (dut g')
           \<and> \<not> psel (dut (snd (apb_read_qspi ev addr' t)))
           \<and> \<not> penable (dut (snd (apb_read_qspi ev addr' t)))"
    if "\<forall>k<n'. \<not> pready (dut ((tick_qspi ev ^^ Suc k) b))" "pready (dut r')"
  proof -
    have "apb_read_wait_qspi ev addr' 0 b = Inr r'"
      unfolding r'_def using that assms(2) by (intro apb_read_wait_qspi_ready) (simp_all add: r'_def)
    then have "apb_read_qspi ev addr' t = (prdata (dut r'),
               tick_qspi ev (g'\<lparr>dut := (dut g')\<lparr>psel := False, penable := False\<rparr>\<rparr>))"
      unfolding rd g'_def by simp
    then show ?thesis using b by (simp add: g'_def r'_def tick_qspi_inputs ticks_qspi_inputs)
  qed
  show ?thesis
    unfolding Let_def s1_def [symmetric] t1_def [symmetric]
    unfolding a_def [symmetric] b_def [symmetric]
    unfolding r_def [symmetric] r'_def [symmetric]
    unfolding g_def [symmetric] g'_def [symmetric]
    using W R by blast
qed

lemma psram_bridge_access:
  assumes "psel (dut a)" "penable (dut a)" "internal (dut a) = 0"
  shows "\<forall>k<1. \<not> pready (dut ((tick_qspi psram_bridge ^^ Suc k) a))"
    and "pready (dut ((tick_qspi psram_bridge ^^ Suc 1) a))"
  using assms by (simp_all add: psram_bridge_tick tick_qspi_inputs)

lemma MAX_CYCLES_2: "int (Suc 1) \<le> MAX_CYCLES"
  by (simp add: MAX_CYCLES_def)

lemma deadbeef_bytes:
  "(3735928559 :: u8) = 239" "(14593470 :: u8) = 190" "(57005 :: u8) = 173"
  by simp_all

lemma psram_bridge_write_mem:
  "psram_mem (apb_write_qspi psram_bridge 0x400 0xDEADBEEF 0xF s) =
     (psram_mem s)[1024 := 0xEF, 1025 := 0xBE, 1026 := 0xAD, 1027 := 0xDE]"
proof -
  define s1 where "s1 = tick_qspi psram_bridge (s\<lparr>dut := (dut s)\<lparr>paddr := 0x400, pwdata := 0xDEADBEEF,
      pstrb := 0xF, pwrite := True, psel := True, penable := False\<rparr>\<rparr>)"
  define a where "a = s1\<lparr>dut := (dut s1)\<lparr>penable := True\<rparr>\<rparr>"
  define a1 where "a1 = tick_qspi psram_bridge a"
  define r where "r = tick_qspi psram_bridge a1"
  define g where "g = tick_qspi psram_bridge r"
  define i where "i = g\<lparr>dut := (dut g)\<lparr>psel := False, penable := False, pwrite := False\<rparr>\<rparr>"
  have a: "psel (dut a)" "penable (dut a)" "internal (dut a) = 0" "pwrite (dut a)"
    "paddr (dut a) = 0x400" "pwdata (dut a) = 0xDEADBEEF" "pstrb (dut a) = 0xF"
    "psram_mem a = psram_mem s"
    by (simp_all add: a_def s1_def tick_qspi_inputs psram_bridge_tick)
  have a1: "psel (dut a1)" "penable (dut a1)" "internal (dut a1) = 1" "pwrite (dut a1)"
    "paddr (dut a1) = 0x400" "pwdata (dut a1) = 0xDEADBEEF" "pstrb (dut a1) = 0xF"
    "psram_mem a1 = psram_mem s"
    using a by (simp_all add: a1_def tick_qspi_inputs psram_bridge_tick)
  have r: "psel (dut r)" "penable (dut r)" "internal (dut r) = 2"
    "psram_mem r = (psram_mem s)[1024 := 0xEF, 1025 := 0xBE, 1026 := 0xAD, 1027 := 0xDE]"
    using a1 by (simp_all add: r_def tick_qspi_inputs psram_bridge_tick strobe_all deadbeef_bytes)
  have g: "psram_mem g = psram_mem r"
    using r by (simp add: g_def psram_bridge_tick)
  have w: "apb_write_wait_qspi psram_bridge 0x400 0 a = r"
    using apb_write_wait_qspi_ready [OF psram_bridge_access [OF a(1-3)], of 0 "0x400"] MAX_CYCLES_2
    by (simp add: r_def a1_def)
  have "apb_write_qspi psram_bridge 0x400 0xDEADBEEF 0xF s = tick_qspi psram_bridge i"
    unfolding apb_write_qspi_def Let_def s1_def [symmetric] a_def [symmetric] w
      g_def [symmetric] i_def [symmetric] ..
  then show ?thesis using g r by (simp add: psram_bridge_tick i_def)
qed

lemma psram_bridge_read:
  "apb_read_wait_qspi psram_bridge addr 0
     ((tick_qspi psram_bridge (s\<lparr>dut := (dut s)\<lparr>paddr := addr, pwrite := False, pstrb := 0xF,
                 psel := True, penable := False\<rparr>\<rparr>))
      \<lparr>dut := (dut (tick_qspi psram_bridge (s\<lparr>dut := (dut s)\<lparr>paddr := addr, pwrite := False,
                 pstrb := 0xF, psel := True, penable := False\<rparr>\<rparr>)))\<lparr>penable := True\<rparr>\<rparr>) \<noteq>
     Inl x"
  "fst (apb_read_qspi psram_bridge addr s) =
     ucast (psram_read addr s) OR push_bit 8 (ucast (psram_read (addr + 1) s))
       OR push_bit 16 (ucast (psram_read (addr + 2) s))
       OR push_bit 24 (ucast (psram_read (addr + 3) s))"
proof -
  define t1 where "t1 = tick_qspi psram_bridge (s\<lparr>dut := (dut s)\<lparr>paddr := addr, pwrite := False,
      pstrb := 0xF, psel := True, penable := False\<rparr>\<rparr>)"
  define b where "b = t1\<lparr>dut := (dut t1)\<lparr>penable := True\<rparr>\<rparr>"
  define b1 where "b1 = tick_qspi psram_bridge b"
  define r where "r = tick_qspi psram_bridge b1"
  have b: "psel (dut b)" "penable (dut b)" "internal (dut b) = 0" "\<not> pwrite (dut b)"
    "paddr (dut b) = addr" "psram_mem b = psram_mem s"
    by (simp_all add: b_def t1_def tick_qspi_inputs psram_bridge_tick)
  have b1: "psel (dut b1)" "penable (dut b1)" "internal (dut b1) = 1" "\<not> pwrite (dut b1)"
    "paddr (dut b1) = addr" "psram_mem b1 = psram_mem s"
    using b by (simp_all add: b1_def tick_qspi_inputs psram_bridge_tick)
  have m: "psram_mem r = psram_mem s"
    using b1 by (simp add: r_def psram_bridge_tick)
  then have rd: "psram_read x r = psram_read x s" for x by (simp add: psram_read_def)
  have p: "prdata (dut r) =
     ucast (psram_read addr s) OR push_bit 8 (ucast (psram_read (addr + 1) s))
       OR push_bit 16 (ucast (psram_read (addr + 2) s))
       OR push_bit 24 (ucast (psram_read (addr + 3) s))"
    unfolding r_def psram_bridge_tick(4) [of b1] unfolding r_def [symmetric] rd b1(5) ..
  have w: "apb_read_wait_qspi psram_bridge addr 0 b = Inr r"
    using apb_read_wait_qspi_ready [OF psram_bridge_access [OF b(1-3)], of 0 addr] MAX_CYCLES_2
    by (simp add: r_def b1_def)
  show "apb_read_wait_qspi psram_bridge addr 0
     ((tick_qspi psram_bridge (s\<lparr>dut := (dut s)\<lparr>paddr := addr, pwrite := False, pstrb := 0xF,
                 psel := True, penable := False\<rparr>\<rparr>))
      \<lparr>dut := (dut (tick_qspi psram_bridge (s\<lparr>dut := (dut s)\<lparr>paddr := addr, pwrite := False,
                 pstrb := 0xF, psel := True, penable := False\<rparr>\<rparr>)))\<lparr>penable := True\<rparr>\<rparr>) \<noteq>
     Inl x"
    unfolding t1_def [symmetric] b_def [symmetric] w by simp
  show "fst (apb_read_qspi psram_bridge addr s) =
     ucast (psram_read addr s) OR push_bit 8 (ucast (psram_read (addr + 1) s))
       OR push_bit 16 (ucast (psram_read (addr + 2) s))
       OR push_bit 24 (ucast (psram_read (addr + 3) s))"
    unfolding apb_read_qspi_def Let_def t1_def [symmetric] b_def [symmetric] w
    using p by simp
qed

lemma psram_bridge_write_read:
  assumes "length (psram_mem s) = 2 ^ 20"
  shows "fst (apb_read_qspi psram_bridge 0x400
            (apb_write_qspi psram_bridge 0x400 0xDEADBEEF 0xF s)) = 0xDEADBEEF"
  using assms
  by (simp add: psram_bridge_read(2) psram_read_def psram_bridge_write_mem)

lemma tick_qspi_time:
  "tfp s \<noteq> None \<Longrightarrow> tfp (tick_qspi ev s) \<noteq> None"
  "tfp s \<noteq> None \<Longrightarrow> sim_time (tick_qspi ev s) = sim_time s + 2"
  by (auto simp add: tick_qspi_def Let_def dump_def eval_qspi_frame)

text \<open>
  The theorem on the bridge model, which raises \<^verbatim>\<open>pready\<close> after one wait state
  (\<open>n = 1\<close>): the write of test 4 takes five edges (setup, two access edges, the
  extra edge, idle) and leaves select and enable de-asserted, and so does the read
  that follows it.
\<close>

theorem apb_qspi_grace_edge_witness:
  "int (Suc 1) \<le> MAX_CYCLES
   \<and> \<not> psel (dut (apb_write_qspi psram_bridge 0x400 0xDEADBEEF 0xF qspi_sim0))
   \<and> \<not> penable (dut (apb_write_qspi psram_bridge 0x400 0xDEADBEEF 0xF qspi_sim0))
   \<and> sim_time (apb_write_qspi psram_bridge 0x400 0xDEADBEEF 0xF qspi_sim0) = 10
   \<and> \<not> psel (dut (snd (apb_read_qspi psram_bridge 0x400
          (apb_write_qspi psram_bridge 0x400 0xDEADBEEF 0xF qspi_sim0))))
   \<and> \<not> penable (dut (snd (apb_read_qspi psram_bridge 0x400
          (apb_write_qspi psram_bridge 0x400 0xDEADBEEF 0xF qspi_sim0))))"
proof -
  let ?tick = "tick_qspi psram_bridge"
  define w where "w = apb_write_qspi psram_bridge 0x400 0xDEADBEEF 0xF qspi_sim0"
  define s1 where "s1 = ?tick (qspi_sim0\<lparr>dut := (dut qspi_sim0)\<lparr>paddr := 0x400, pwdata := 0xDEADBEEF,
      pstrb := 0xF, pwrite := True, psel := True, penable := False\<rparr>\<rparr>)"
  define a where "a = s1\<lparr>dut := (dut s1)\<lparr>penable := True\<rparr>\<rparr>"
  define t1 where "t1 = ?tick (w\<lparr>dut := (dut w)\<lparr>paddr := 0x400, pwrite := False, pstrb := 0xF,
      psel := True, penable := False\<rparr>\<rparr>)"
  define b where "b = t1\<lparr>dut := (dut t1)\<lparr>penable := True\<rparr>\<rparr>"
  have a: "psel (dut a)" "penable (dut a)" "internal (dut a) = 0" "tfp a \<noteq> None" "sim_time a = 2"
    by (simp_all add: a_def s1_def tick_qspi_inputs psram_bridge_tick tick_qspi_time qspi_sim0_def)
  have b: "psel (dut b)" "penable (dut b)" "internal (dut b) = 0"
    by (simp_all add: b_def t1_def tick_qspi_inputs psram_bridge_tick)
  note m = MAX_CYCLES_2
  note g = apb_qspi_grace_edge [OF m m, where ev = psram_bridge and s = qspi_sim0 and addr = "0x400"
      and data = "0xDEADBEEF" and strb = "0xF" and t = w and addr' = "0x400",
      unfolded Let_def, folded w_def s1_def, folded a_def, folded t1_def, folded b_def]
  from g [THEN conjunct1, rule_format, OF conjI [OF psram_bridge_access [OF a(1-3)]]]
  have W: "w = ?tick ((?tick ((?tick ^^ Suc 1) a))\<lparr>dut := (dut (?tick ((?tick ^^ Suc 1) a)))
              \<lparr>psel := False, penable := False, pwrite := False\<rparr>\<rparr>)"
    "\<not> psel (dut w)" "\<not> penable (dut w)"
    by blast+
  from g [THEN conjunct2, rule_format, OF conjI [OF psram_bridge_access [OF b(1-3)]]]
  have R: "\<not> psel (dut (snd (apb_read_qspi psram_bridge 0x400 w)))"
    "\<not> penable (dut (snd (apb_read_qspi psram_bridge 0x400 w)))"
    by blast+
  have "sim_time w = 10"
    unfolding W(1) using a(4,5) by (simp add: tick_qspi_time)
  with m W(2,3) R show ?thesis unfolding w_def by simp
qed

lemma never_ready_qspi_tick: "\<not> pready (dut (tick_qspi never_ready_qspi s))"
  by (simp add: tick_qspi_eq dump_frame eval_qspi_def never_ready_qspi_def)

lemma never_ready_qspi_ticks: "\<not> pready (dut ((tick_qspi never_ready_qspi ^^ Suc k) s))"
  by (simp add: never_ready_qspi_tick)

lemma apb_read_wait_qspi_Inl:
  "apb_read_wait_qspi ev addr c s = Inl (v, s') \<Longrightarrow>
     v = 0xDEADBEEF \<and> out s' \<noteq> [] \<and> last (out s') = TIMEOUT_apb_read addr"
proof (induction ev addr c s rule: apb_read_wait_qspi.induct)
  case (1 ev addr cycles s)
  show ?case
  proof (cases "cycles + 1 > MAX_CYCLES")
    case True
    with "1.prems" show ?thesis
      by (subst (asm) apb_read_wait_qspi.simps) (auto simp add: Let_def)
  next
    case False
    show ?thesis
    proof (cases "pready (dut (tick_qspi ev s))")
      case True
      with False "1.prems" show ?thesis
        by (subst (asm) apb_read_wait_qspi.simps) (simp add: Let_def)
    next
      case nr: False
      with False "1.prems" have "apb_read_wait_qspi ev addr (cycles + 1) (tick_qspi ev s) = Inl (v, s')"
        by (subst (asm) apb_read_wait_qspi.simps) (simp add: Let_def)
      with "1.IH" [OF refl refl False nr] show ?thesis by simp
    qed
  qed
qed

lemma apb_read_timed_out_sentinel:
  assumes "apb_read_timed_out ev addr s"
  shows "fst (apb_read_qspi ev addr s) = 0xDEADBEEF"
    and "last (out (snd (apb_read_qspi ev addr s))) = TIMEOUT_apb_read addr"
proof -
  define s3 where "s3 = (let s1 = s\<lparr>dut := (dut s)\<lparr>paddr := addr, pwrite := False, pstrb := 0xF,
                   psel := True, penable := False\<rparr>\<rparr>;
          s2 = tick_qspi ev s1 in s2\<lparr>dut := (dut s2)\<lparr>penable := True\<rparr>\<rparr>)"
  from assms obtain x where x: "apb_read_wait_qspi ev addr 0 s3 = Inl x"
    unfolding apb_read_timed_out_def s3_def Let_def by (auto split: sum.splits)
  then have r: "apb_read_qspi ev addr s = x"
    unfolding apb_read_qspi_def s3_def Let_def by simp
  obtain v s' where "x = (v, s')" by (cases x)
  with x apb_read_wait_qspi_Inl [of ev addr 0 s3 v s'] r
  show "fst (apb_read_qspi ev addr s) = 0xDEADBEEF"
    and "last (out (snd (apb_read_qspi ev addr s))) = TIMEOUT_apb_read addr"
    by simp_all
qed

lemma never_ready_qspi_timed_out: "apb_read_timed_out never_ready_qspi addr s"
proof -
  define a where "a = (tick_qspi never_ready_qspi (s\<lparr>dut := (dut s)\<lparr>paddr := addr, pwrite := False,
      pstrb := 0xF, psel := True, penable := False\<rparr>\<rparr>))
      \<lparr>dut := (dut (tick_qspi never_ready_qspi (s\<lparr>dut := (dut s)\<lparr>paddr := addr,
         pwrite := False, pstrb := 0xF, psel := True, penable := False\<rparr>\<rparr>)))\<lparr>penable := True\<rparr>\<rparr>"
  have 1: "\<forall>k. 0 + int (Suc k) \<le> MAX_CYCLES \<longrightarrow>
             \<not> pready (dut ((tick_qspi never_ready_qspi ^^ Suc k) a))"
    using never_ready_qspi_ticks by blast
  have 2: "0 \<le> MAX_CYCLES" unfolding MAX_CYCLES_def by simp
  obtain x where "apb_read_wait_qspi never_ready_qspi addr 0 a = Inl x"
    using apb_read_wait_qspi_timeout [OF 1 2 refl, of addr] by blast
  then show ?thesis
    unfolding apb_read_timed_out_def Let_def a_def [symmetric] by (simp only: sum.case)
qed

lemma psram_bridge_not_timed_out: "\<not> apb_read_timed_out psram_bridge addr s"
  unfolding apb_read_timed_out_def Let_def
  using psram_bridge_read(1) [of addr s]
  by (cases "apb_read_wait_qspi psram_bridge addr 0
     ((tick_qspi psram_bridge (s\<lparr>dut := (dut s)\<lparr>paddr := addr, pwrite := False, pstrb := 0xF,
                 psel := True, penable := False\<rparr>\<rparr>))
      \<lparr>dut := (dut (tick_qspi psram_bridge (s\<lparr>dut := (dut s)\<lparr>paddr := addr, pwrite := False,
                 pstrb := 0xF, psel := True, penable := False\<rparr>\<rparr>)))\<lparr>penable := True\<rparr>\<rparr>)") auto

text \<open>
  Claim C10. A read of \<^verbatim>\<open>sim_qspi_psram.cpp\<close> that leaves through the timeout
  branch returns the fixed word \<open>0xDEADBEEF\<close> (and has just logged the timeout).
  The same word is the first value of test 4, written to and read back from address
  \<open>0x400\<close>. Against the model that never raises \<^verbatim>\<open>pready\<close> the read of
  \<open>0x400\<close> times out and returns \<open>0xDEADBEEF\<close>; against the bridge model, after
  \<open>0xDEADBEEF\<close> has been written to \<open>0x400\<close>, the read completes and returns
  \<open>0xDEADBEEF\<close> as well. Hence no function of the returned word alone tells
  whether a read timed out.
\<close>

theorem apb_read_qspi_sentinel_ambiguous:
  "(\<forall>(ev :: 'm qspi_model) addr s. apb_read_timed_out ev addr s \<longrightarrow>
       fst (apb_read_qspi ev addr s) = 0xDEADBEEF
       \<and> last (out (snd (apb_read_qspi ev addr s))) = TIMEOUT_apb_read addr)
   \<and> test4_addrs ! 0 = 0x400 \<and> test4_vals ! 0 = 0xDEADBEEF
   \<and> apb_read_timed_out never_ready_qspi 0x400 qspi_sim0
   \<and> \<not> apb_read_timed_out psram_bridge 0x400
         (apb_write_qspi psram_bridge 0x400 0xDEADBEEF 0xF qspi_sim0)
   \<and> fst (apb_read_qspi never_ready_qspi 0x400 qspi_sim0) = 0xDEADBEEF
   \<and> fst (apb_read_qspi psram_bridge 0x400
            (apb_write_qspi psram_bridge 0x400 0xDEADBEEF 0xF qspi_sim0)) = 0xDEADBEEF
   \<and> \<not> (\<exists>status. \<forall>(ev :: nat qspi_model) addr s.
            status (fst (apb_read_qspi ev addr s)) = apb_read_timed_out ev addr s)"
proof -
  have l: "length (psram_mem qspi_sim0) = 2 ^ 20" by (simp add: qspi_sim0_def)
  define w where "w = apb_write_qspi psram_bridge 0x400 0xDEADBEEF 0xF qspi_sim0"
  have a: "apb_read_timed_out never_ready_qspi 0x400 qspi_sim0"
    by (rule never_ready_qspi_timed_out)
  have b: "\<not> apb_read_timed_out psram_bridge 0x400 w"
    by (rule psram_bridge_not_timed_out)
  have c: "fst (apb_read_qspi never_ready_qspi 0x400 qspi_sim0) = 0xDEADBEEF"
    by (rule apb_read_timed_out_sentinel(1) [OF a])
  have d: "fst (apb_read_qspi psram_bridge 0x400 w) = 0xDEADBEEF"
    unfolding w_def by (rule psram_bridge_write_read [OF l])
  have e: "\<not> (\<exists>status. \<forall>(ev :: nat qspi_model) addr s.
            status (fst (apb_read_qspi ev addr s)) = apb_read_timed_out ev addr s)"
  proof
    assume "\<exists>status. \<forall>(ev :: nat qspi_model) addr s.
            status (fst (apb_read_qspi ev addr s)) = apb_read_timed_out ev addr s"
    then obtain status where st: "\<And>(ev :: nat qspi_model) addr s.
            status (fst (apb_read_qspi ev addr s)) = apb_read_timed_out ev addr s" by blast
    from st [of never_ready_qspi "0x400" qspi_sim0] a c have "status 0xDEADBEEF"
      by (simp only: simp_thms)
    moreover from st [of psram_bridge "0x400" w] b d have "\<not> status 0xDEADBEEF"
      by (simp only: simp_thms)
    ultimately show False by contradiction
  qed
  have f: "test4_addrs ! 0 = 0x400" "test4_vals ! 0 = 0xDEADBEEF"
    by (simp_all add: test4_addrs_def test4_vals_def)
  have g: "\<forall>(ev :: 'm qspi_model) addr s. apb_read_timed_out ev addr s \<longrightarrow>
       fst (apb_read_qspi ev addr s) = 0xDEADBEEF
       \<and> last (out (snd (apb_read_qspi ev addr s))) = TIMEOUT_apb_read addr"
    using apb_read_timed_out_sentinel by blast
  show ?thesis
    apply (intro conjI)
    apply (rule g)
    apply (rule f(1))
    apply (rule f(2))
    apply (rule a)
    apply (rule b [unfolded w_def])
    apply (rule c)
    apply (rule d [unfolded w_def])
    apply (rule e [unfolded w_def])
    done
qed

text \<open>
  The first part of the theorem on the read of \<open>0x400\<close> against the model that
  never raises \<^verbatim>\<open>pready\<close>: it times out, returns the sentinel, and the last line
  of the output is the timeout message.
\<close>

theorem apb_read_qspi_sentinel_ambiguous_witness:
  "apb_read_timed_out never_ready_qspi 0x400 qspi_sim0
   \<and> apb_read_qspi never_ready_qspi 0x400 qspi_sim0 =
       (0xDEADBEEF, snd (apb_read_qspi never_ready_qspi 0x400 qspi_sim0))
   \<and> last (out (snd (apb_read_qspi never_ready_qspi 0x400 qspi_sim0))) = TIMEOUT_apb_read 0x400"
proof -
  have a: "apb_read_timed_out never_ready_qspi 0x400 qspi_sim0"
    by (rule never_ready_qspi_timed_out)
  from apb_read_qspi_sentinel_ambiguous [THEN conjunct1, rule_format, OF a] a
  show ?thesis by (simp only: prod_eq_iff fst_conv snd_conv simp_thms)
qed

lemma ticks_qspi_time:
  "tfp s \<noteq> None \<Longrightarrow>
     tfp ((tick_qspi ev ^^ k) s) \<noteq> None \<and> sim_time ((tick_qspi ev ^^ k) s) = sim_time s + 2 * of_nat k"
  by (induction k) (simp_all add: tick_qspi_time algebra_simps)

lemma never_ready_qspi_out: "out (tick_qspi never_ready_qspi s) = out s"
  by (simp add: tick_qspi_eq dump_frame eval_qspi_def never_ready_qspi_def)

lemma never_ready_qspi_outs: "out ((tick_qspi never_ready_qspi ^^ k) s) = out s"
  by (induction k) (simp_all add: never_ready_qspi_out)

text \<open>
  The bound at work: against a model that never raises \<^verbatim>\<open>pready\<close>, a read of
  \<^verbatim>\<open>sim_qspi_psram.cpp\<close> gives up after the setup edge and \<^verbatim>\<open>MAX_CYCLES + 1\<close>
  access edges, logs the timeout and returns \<open>0xDEADBEEF\<close>; a write gives up
  after as many access edges, logs the timeout and goes on to its last two edges.
\<close>

lemma bounded_wait_qspi_gives_up:
  assumes "tfp s \<noteq> None"
  shows "apb_read_qspi never_ready_qspi addr s =
           (0xDEADBEEF, snd (apb_read_qspi never_ready_qspi addr s))"
    and "out (snd (apb_read_qspi never_ready_qspi addr s)) = out s @ [TIMEOUT_apb_read addr]"
    and "sim_time (snd (apb_read_qspi never_ready_qspi addr s)) = sim_time s + 2 * (1 + 500001)"
    and "out (apb_write_qspi never_ready_qspi addr data strb s) = out s @ [TIMEOUT_apb_write addr]"
    and "sim_time (apb_write_qspi never_ready_qspi addr data strb s) =
           sim_time s + 2 * (1 + 500001 + 1 + 1)"
proof -
  let ?tick = "tick_qspi never_ready_qspi"
  define m where "m = nat (MAX_CYCLES - 0)"
  have m: "(of_nat (Suc m) :: u64) = 500001" by (simp add: m_def MAX_CYCLES_def)
  have 2: "0 \<le> MAX_CYCLES" unfolding MAX_CYCLES_def by simp
  have nr: "\<forall>k. 0 + int (Suc k) \<le> MAX_CYCLES \<longrightarrow> \<not> pready (dut ((?tick ^^ Suc k) a))" for a
    using never_ready_qspi_ticks by blast
  \<comment> \<open>the read\<close>
  define b where "b = (?tick (s\<lparr>dut := (dut s)\<lparr>paddr := addr, pwrite := False,
      pstrb := 0xF, psel := True, penable := False\<rparr>\<rparr>))
      \<lparr>dut := (dut (?tick (s\<lparr>dut := (dut s)\<lparr>paddr := addr,
         pwrite := False, pstrb := 0xF, psel := True, penable := False\<rparr>\<rparr>)))\<lparr>penable := True\<rparr>\<rparr>"
  define e where "e = (?tick ^^ Suc m) b"
  have b: "tfp b \<noteq> None" "sim_time b = sim_time s + 2" "out b = out s"
    using assms by (simp_all add: b_def tick_qspi_time never_ready_qspi_out)
  have e: "sim_time e = sim_time s + 2 + 2 * 500001" "out e = out s"
    using ticks_qspi_time [OF b(1), where ev = never_ready_qspi and k = "Suc m"] b(2,3)
    unfolding e_def never_ready_qspi_outs m by simp_all
  have w: "apb_read_wait_qspi never_ready_qspi addr 0 b =
             Inl (0xDEADBEEF, e\<lparr>out := out e @ [TIMEOUT_apb_read addr]\<rparr>)"
    unfolding e_def m_def by (rule apb_read_wait_qspi_timeout [OF nr 2 refl])
  have r: "apb_read_qspi never_ready_qspi addr s = (0xDEADBEEF, e\<lparr>out := out e @ [TIMEOUT_apb_read addr]\<rparr>)"
    unfolding apb_read_qspi_def Let_def b_def [symmetric] w by simp
  show "apb_read_qspi never_ready_qspi addr s =
           (0xDEADBEEF, snd (apb_read_qspi never_ready_qspi addr s))"
    unfolding r by simp
  show "out (snd (apb_read_qspi never_ready_qspi addr s)) = out s @ [TIMEOUT_apb_read addr]"
    unfolding r using e by simp
  show "sim_time (snd (apb_read_qspi never_ready_qspi addr s)) = sim_time s + 2 * (1 + 500001)"
    unfolding r using e by simp
  \<comment> \<open>the write\<close>
  define a where "a = (?tick (s\<lparr>dut := (dut s)\<lparr>paddr := addr, pwdata := data, pstrb := strb,
      pwrite := True, psel := True, penable := False\<rparr>\<rparr>))
      \<lparr>dut := (dut (?tick (s\<lparr>dut := (dut s)\<lparr>paddr := addr, pwdata := data, pstrb := strb,
      pwrite := True, psel := True, penable := False\<rparr>\<rparr>)))\<lparr>penable := True\<rparr>\<rparr>"
  define f where "f = (?tick ^^ Suc m) a"
  have a: "tfp a \<noteq> None" "sim_time a = sim_time s + 2" "out a = out s"
    using assms by (simp_all add: a_def tick_qspi_time never_ready_qspi_out)
  have f: "tfp f \<noteq> None" "sim_time f = sim_time s + 2 + 2 * 500001" "out f = out s"
    using ticks_qspi_time [OF a(1), where ev = never_ready_qspi and k = "Suc m"] a(2,3)
    unfolding f_def never_ready_qspi_outs m by simp_all
  have ww: "apb_write_wait_qspi never_ready_qspi addr 0 a = f\<lparr>out := out f @ [TIMEOUT_apb_write addr]\<rparr>"
    unfolding f_def m_def by (rule apb_write_wait_qspi_timeout [OF nr 2 refl])
  define g where "g = ?tick (f\<lparr>out := out f @ [TIMEOUT_apb_write addr]\<rparr>)"
  have g: "tfp g \<noteq> None" "sim_time g = sim_time s + 2 + 2 * 500001 + 2"
    "out g = out s @ [TIMEOUT_apb_write addr]"
    using f by (simp_all add: g_def tick_qspi_time never_ready_qspi_out)
  have wr: "apb_write_qspi never_ready_qspi addr data strb s =
      ?tick (g\<lparr>dut := (dut g)\<lparr>psel := False, penable := False, pwrite := False\<rparr>\<rparr>)"
    unfolding apb_write_qspi_def Let_def a_def [symmetric] ww g_def ..
  show "out (apb_write_qspi never_ready_qspi addr data strb s) = out s @ [TIMEOUT_apb_write addr]"
    unfolding wr using g by (simp add: never_ready_qspi_out)
  show "sim_time (apb_write_qspi never_ready_qspi addr data strb s) =
           sim_time s + 2 * (1 + 500001 + 1 + 1)"
    unfolding wr using g by (simp add: tick_qspi_time)
qed

subsection \<open>The wait loops without a bound\<close>


lemma never_ready_tick: "\<not> pready (dut (tick_bitrev never_ready s))"
  by (simp add: tick_bitrev_def Let_def dump_frame eval_apb_def never_ready_def)

lemma never_ack_tick: "\<not> wb_ack_o (dut (tick_spi_top never_ack s))"
  by (simp add: tick_spi_top_def Let_def dump_frame eval_wb_def never_ack_def)

lemma never_ready_wait: "access_wait_bitrev never_ready a = None"
proof (cases "access_wait_bitrev never_ready a")
  case (Some r)
  then obtain n where "pready (dut ((tick_bitrev never_ready ^^ Suc n) a))"
    using access_wait_bitrev_returns by blast
  then show ?thesis by (simp add: never_ready_tick)
qed simp

lemma never_ack_wait: "ack_wait_spi_top never_ack a = None"
proof (cases "ack_wait_spi_top never_ack a")
  case (Some r)
  then obtain n where "wb_ack_o (dut ((tick_spi_top never_ack ^^ Suc n) a))"
    using ack_wait_spi_top_returns by blast
  then show ?thesis by (simp add: never_ack_tick)
qed simp

text \<open>
  Claim C1 asks that every wait loop give up after a bounded number of iterations,
  as those of \<^verbatim>\<open>sim_qspi_psram.cpp\<close> do (\<open>bounded_wait_qspi_gives_up\<close>). The
  loops of \<^verbatim>\<open>sim_bitrev_spi.cpp\<close> and \<^verbatim>\<open>sim_spi_top.cpp\<close> have no such
  bound: against a model that never raises \<^verbatim>\<open>pready\<close>, or never acknowledges, no
  write and no read returns, from any state and for any address and data.
\<close>

theorem unbounded_wait_never_returns:
  "apb_write_bitrev never_ready addr data s = None
   \<and> apb_read_bitrev never_ready addr s = None
   \<and> wb_write never_ack addr' data' w = None
   \<and> wb_read never_ack addr' w = None"
  by (simp add: apb_write_bitrev_def apb_read_bitrev_def wb_write_def wb_read_def Let_def
      never_ready_wait never_ack_wait)

subsection \<open>Polling for the end of a transfer\<close>


declare wait_xfer_done.simps [simp del]

lemma wait_xfer_done_skip:
  "\<forall>i<k. wb_read ev ADDR_CTRL (\<sigma> i) = Some (c i, \<sigma> (Suc i)) \<Longrightarrow>
   \<forall>i<k. c i AND CTRL_GO \<noteq> 0 \<Longrightarrow> int k \<le> timeout \<Longrightarrow>
   wait_xfer_done ev timeout (\<sigma> 0) = wait_xfer_done ev (timeout - int k) (\<sigma> k)"
proof (induction k)
  case 0
  then show ?case by simp
next
  case (Suc k)
  then have "wait_xfer_done ev timeout (\<sigma> 0) = wait_xfer_done ev (timeout - int k) (\<sigma> k)"
    by simp
  also have "\<dots> = wait_xfer_done ev (timeout - int k - 1) (\<sigma> (Suc k))"
    using Suc.prems by (subst wait_xfer_done.simps) simp
  finally show ?case by (simp add: algebra_simps)
qed

text \<open>
  The function when its reads return. Let the first \<open>k\<close> reads of the control
  register issued by \<^verbatim>\<open>wait_xfer_done\<close> return with the GO bit set (\<open>\<sigma> i\<close> is the
  state before read number \<open>i\<close>, \<open>c i\<close> the word it returns). If fewer than
  \<open>timeout\<close> reads have been made and the next read returns a word with the GO bit
  clear, the function returns true in the state that read leaves, without a further
  read. If \<open>k\<close> is the timeout (or the timeout is not positive and no read was made),
  it logs the timeout and returns false, having made exactly that many reads. If the
  next read does not return, neither does the function. The default timeout is 100000.
\<close>

lemma wait_xfer_done_polls:
  assumes "\<forall>i<k. wb_read ev ADDR_CTRL (\<sigma> i) = Some (c i, \<sigma> (Suc i))"
      and "\<forall>i<k. c i AND CTRL_GO \<noteq> 0"
  shows
  "(int k < timeout \<and> wb_read ev ADDR_CTRL (\<sigma> k) = Some (v, s') \<and> v AND CTRL_GO = 0 \<longrightarrow>
      wait_xfer_done ev timeout (\<sigma> 0) = Some (True, s'))
   \<and> (k = nat timeout \<longrightarrow>
      wait_xfer_done ev timeout (\<sigma> 0) =
        Some (False, (\<sigma> k)\<lparr>out := out (\<sigma> k) @ [ERROR_xfer_timeout]\<rparr>))
   \<and> (int k < timeout \<and> wb_read ev ADDR_CTRL (\<sigma> k) = None \<longrightarrow>
      wait_xfer_done ev timeout (\<sigma> 0) = None)
   \<and> wait_xfer_done_default ev (\<sigma> 0) = wait_xfer_done ev 100000 (\<sigma> 0)"
proof (intro conjI impI)
  assume a: "int k < timeout \<and> wb_read ev ADDR_CTRL (\<sigma> k) = Some (v, s') \<and> v AND CTRL_GO = 0"
  then have "wait_xfer_done ev timeout (\<sigma> 0) = wait_xfer_done ev (timeout - int k) (\<sigma> k)"
    using assms by (intro wait_xfer_done_skip) simp_all
  also have "\<dots> = Some (True, s')"
    using a by (subst wait_xfer_done.simps) simp
  finally show "wait_xfer_done ev timeout (\<sigma> 0) = Some (True, s')" .
next
  assume k: "k = nat timeout"
  show "wait_xfer_done ev timeout (\<sigma> 0) =
        Some (False, (\<sigma> k)\<lparr>out := out (\<sigma> k) @ [ERROR_xfer_timeout]\<rparr>)"
  proof (cases "timeout \<le> 0")
    case True
    with k have "k = 0" by simp
    with True show ?thesis by (subst wait_xfer_done.simps) simp
  next
    case False
    with k have "int k \<le> timeout" "timeout - int k = 0" by simp_all
    then have "wait_xfer_done ev timeout (\<sigma> 0) = wait_xfer_done ev 0 (\<sigma> k)"
      using assms wait_xfer_done_skip [of k ev \<sigma> c timeout] by simp
    then show ?thesis by (subst (asm) (2) wait_xfer_done.simps) simp
  qed
next
  assume a: "int k < timeout \<and> wb_read ev ADDR_CTRL (\<sigma> k) = None"
  then have "wait_xfer_done ev timeout (\<sigma> 0) = wait_xfer_done ev (timeout - int k) (\<sigma> k)"
    using assms by (intro wait_xfer_done_skip) simp_all
  also have "\<dots> = None"
    using a by (subst wait_xfer_done.simps) simp
  finally show "wait_xfer_done ev timeout (\<sigma> 0) = None" .
next
  show "wait_xfer_done_default ev (\<sigma> 0) = wait_xfer_done ev 100000 (\<sigma> 0)"
    by (simp add: wait_xfer_done_default_def)
qed


lemma tick_spi_top_dut:
  "dut (tick_spi_top ev s) =
     (let d1 = eval_wb ev ((dut s)\<lparr>wb_clk_i := False, miso_pad_i := mosi_pad_o (dut s)\<rparr>)
      in eval_wb ev (d1\<lparr>wb_clk_i := True, miso_pad_i := mosi_pad_o d1\<rparr>))"
  by (simp add: tick_spi_top_def Let_def dump_frame)

lemma tick_spi_top_inputs:
  "wb_cyc_i (dut (tick_spi_top ev s)) = wb_cyc_i (dut s)"
  "wb_stb_i (dut (tick_spi_top ev s)) = wb_stb_i (dut s)"
  using tick_spi_top_frame(4) [where ev = ev and s = s] by (simp_all add: wb_request_def)

lemma busy_wb_eval:
  "wb_internal (eval_wb busy_wb d) =
     (if wb_clk_i d \<and> wb_cyc_i d \<and> wb_stb_i d then Suc (wb_internal d) else wb_internal d)"
  "wb_ack_o (eval_wb busy_wb d) = (wb_cyc_i d \<and> wb_stb_i d)"
  "wb_dat_o (eval_wb busy_wb d) = (if wb_internal (eval_wb busy_wb d) < 3 then CTRL_GO else 0)"
  "wb_cyc_i (eval_wb busy_wb d) = wb_cyc_i d" "wb_stb_i (eval_wb busy_wb d) = wb_stb_i d"
  by (simp_all add: eval_wb_def busy_wb_def Let_def)

lemma busy_wb_tick:
  "wb_internal (dut (tick_spi_top busy_wb s)) =
     (if wb_cyc_i (dut s) \<and> wb_stb_i (dut s) then Suc (wb_internal (dut s))
      else wb_internal (dut s))"
  "wb_ack_o (dut (tick_spi_top busy_wb s)) = (wb_cyc_i (dut s) \<and> wb_stb_i (dut s))"
  "wb_dat_o (dut (tick_spi_top busy_wb s)) =
     (if wb_internal (dut (tick_spi_top busy_wb s)) < 3 then CTRL_GO else 0)"
  by (simp_all add: tick_spi_top_dut Let_def busy_wb_eval)

lemma busy_wb_read:
  "\<exists>s'. wb_read busy_wb addr s =
          Some (if Suc (wb_internal (dut s)) < 3 then CTRL_GO else 0, s')
        \<and> wb_internal (dut s') = Suc (wb_internal (dut s)) \<and> out s' = out s"
proof -
  define s1 where "s1 = s\<lparr>dut := (dut s)\<lparr>wb_adr_i := addr, wb_sel_i := 0xF, wb_we_i := False,
                   wb_stb_i := True, wb_cyc_i := True\<rparr>\<rparr>"
  have "wb_ack_o (dut ((tick_spi_top busy_wb ^^ Suc 0) s1))"
    by (simp add: busy_wb_tick s1_def)
  from ack_wait_spi_top_ready [OF _ this]
  have w: "ack_wait_spi_top busy_wb s1 = Some (tick_spi_top busy_wb s1)" by simp
  show ?thesis
    unfolding wb_read_def Let_def s1_def [symmetric] w
    by (simp add: busy_wb_tick tick_spi_top_frame s1_def)
qed


text \<open>
  On the model that shows the GO bit until its third acknowledged cycle: with a
  timeout of two the function gives up after two reads and logs the timeout, with the
  default timeout it returns true after the third read.
\<close>

lemma wait_xfer_done_polls_busy_wb:
  "map_option fst (wait_xfer_done busy_wb 2 (wb_sim0 0)) = Some False
   \<and> map_option (out \<circ> snd) (wait_xfer_done busy_wb 2 (wb_sim0 0)) = Some [ERROR_xfer_timeout]
   \<and> map_option (wb_internal \<circ> dut \<circ> snd) (wait_xfer_done busy_wb 2 (wb_sim0 0)) = Some 2
   \<and> map_option fst (wait_xfer_done_default busy_wb (wb_sim0 0)) = Some True
   \<and> map_option (wb_internal \<circ> dut \<circ> snd) (wait_xfer_done_default busy_wb (wb_sim0 0)) = Some 3"
proof -
  define rd where "rd = (\<lambda>s. the (wb_read busy_wb ADDR_CTRL s))"
  define \<sigma> where "\<sigma> = (\<lambda>i. ((snd \<circ> rd) ^^ i) (wb_sim0 0))"
  define c where "c = (\<lambda>i. fst (rd (\<sigma> i)))"
  have step: "wb_read busy_wb ADDR_CTRL (\<sigma> i) = Some (c i, \<sigma> (Suc i))
      \<and> c i = (if Suc (wb_internal (dut (\<sigma> i))) < 3 then CTRL_GO else 0)
      \<and> wb_internal (dut (\<sigma> (Suc i))) = Suc (wb_internal (dut (\<sigma> i)))
      \<and> out (\<sigma> (Suc i)) = out (\<sigma> i)" for i
  proof -
    from busy_wb_read [of ADDR_CTRL "\<sigma> i"] obtain s' where
      s': "wb_read busy_wb ADDR_CTRL (\<sigma> i) =
             Some (if Suc (wb_internal (dut (\<sigma> i))) < 3 then CTRL_GO else 0, s')"
        "wb_internal (dut s') = Suc (wb_internal (dut (\<sigma> i)))" "out s' = out (\<sigma> i)"
      by blast
    have "\<sigma> (Suc i) = snd (rd (\<sigma> i))" by (simp add: \<sigma>_def)
    with s' show ?thesis by (simp add: c_def rd_def)
  qed
  have z: "\<sigma> 0 = wb_sim0 0" by (simp add: \<sigma>_def)
  have n: "wb_internal (dut (\<sigma> i)) = i \<and> out (\<sigma> i) = []" for i
  proof (induction i)
    case 0
    show ?case by (simp add: z wb_sim0_def wb_dut0_def)
  next
    case (Suc i)
    with step [of i] show ?case by simp
  qed
  have go: "CTRL_GO AND CTRL_GO \<noteq> 0" by (simp add: CTRL_GO_def)
  have reads: "\<forall>i<2. wb_read busy_wb ADDR_CTRL (\<sigma> i) = Some (c i, \<sigma> (Suc i))"
    using step by blast
  have busy: "\<forall>i<2. c i AND CTRL_GO \<noteq> 0"
  proof (intro allI impI)
    fix i :: nat assume "i < 2"
    then have "Suc i < 3" by simp
    with step [of i] n [of i] have "c i = CTRL_GO" by simp
    with go show "c i AND CTRL_GO \<noteq> 0" by simp
  qed
  have c2: "c 2 AND CTRL_GO = 0" using step [of 2] n [of 2] by simp
  note polls = wait_xfer_done_polls [OF reads busy]
  have t: "wait_xfer_done busy_wb 2 (wb_sim0 0) =
             Some (False, (\<sigma> 2)\<lparr>out := out (\<sigma> 2) @ [ERROR_xfer_timeout]\<rparr>)"
    using polls [of 2 "c 2" "\<sigma> 3", THEN conjunct2, THEN conjunct1] unfolding z by simp
  have "wait_xfer_done busy_wb 100000 (wb_sim0 0) = Some (True, \<sigma> 3)"
    using polls [of 100000 "c 2" "\<sigma> 3", THEN conjunct1] step [of 2] c2 unfolding z
    by (simp add: numeral_3_eq_3)
  moreover have "wait_xfer_done_default busy_wb (wb_sim0 0) = wait_xfer_done busy_wb 100000 (wb_sim0 0)"
    using polls [of 100000 "c 2" "\<sigma> 3"] unfolding z by blast
  ultimately have d: "wait_xfer_done_default busy_wb (wb_sim0 0) = Some (True, \<sigma> 3)" by simp
  show ?thesis unfolding t d using n [of 2] n [of 3] by simp
qed


lemma never_ack_read: "wb_read never_ack addr s = None"
  by (simp add: wb_read_def Let_def never_ack_wait)

text \<open>
  Claim C8 says that \<^verbatim>\<open>wait_xfer_done\<close> returns success as soon as the GO bit reads
  clear and that, if the bit never reads clear, it makes at most \<open>timeout\<close>
  iterations (100000 by default), logs the timeout and returns failure. Each
  iteration is a \<^verbatim>\<open>wb_read\<close>, and the wait for the acknowledge inside it has no bound
  (claim C1): against a model that never acknowledges, the first read never returns.
  So the call with the default timeout never returns, from the start state or any
  other, and the same holds for every positive timeout: no timeout is logged and no
  failure is returned, the iteration bound never being looked at again. Only a call
  with a timeout that is not positive returns, having read nothing.
\<close>

theorem wait_xfer_done_never_returns:
  "wait_xfer_done_default never_ack (wb_sim0 ()) = None
   \<and> wait_xfer_done_default never_ack s = None
   \<and> wait_xfer_done never_ack timeout s =
       (if 0 < timeout then None else Some (False, s\<lparr>out := out s @ [ERROR_xfer_timeout]\<rparr>))"
  unfolding wait_xfer_done_default_def
  by (simp add: wait_xfer_done.simps [of never_ack] never_ack_read)


subsection \<open>The exit status\<close>

text \<open>
  The fail counter starts at zero and only \<^verbatim>\<open>check\<close> changes it, by one at most: a
  run with ten checks ends with a counter between 0 and 10, far from the sign bit.
\<close>

lemma check_test_fail_le:
  "unat (test_fail s) \<le> k \<Longrightarrow> unat (test_fail (check name e a m s)) \<le> Suc k"
  using c_int_succ_le [of "test_fail s"] by (simp add: check_def Let_def)

lemma check_default_test_fail_le:
  "unat (test_fail s) \<le> k \<Longrightarrow> unat (test_fail (check_default name e a s)) \<le> Suc k"
  unfolding check_default_def by (rule check_test_fail_le)

lemma fold_preserves:
  "(\<And>i s. g (f i s) = g s) \<Longrightarrow> g (fold f xs s) = g s"
  by (induction xs arbitrary: s) simp_all

lemma fold_grows:
  fixes m :: "'s \<Rightarrow> nat"
  assumes "\<And>i s k. m s \<le> k \<Longrightarrow> m (f i s) \<le> Suc k"
  shows "m s \<le> k \<Longrightarrow> m (fold f xs s) \<le> k + length xs"
proof (induction xs arbitrary: s k)
  case Nil
  then show ?case by simp
next
  case (Cons x xs)
  from assms [OF Cons.prems] have "m (f x s) \<le> Suc k" .
  from Cons.IH [OF this] show ?case by simp
qed

lemma apb_write_wait_qspi_test_fail:
  "test_fail (apb_write_wait_qspi ev addr c s) = test_fail s"
proof (induction ev addr c s rule: apb_write_wait_qspi.induct)
  case (1 ev addr cycles s)
  show ?case
  proof (cases "cycles + 1 > MAX_CYCLES \<or> pready (dut (tick_qspi ev s))")
    case True
    then show ?thesis
      by (subst apb_write_wait_qspi.simps) (auto simp add: Let_def tick_qspi_frame)
  next
    case False
    then have "apb_write_wait_qspi ev addr cycles s =
                 apb_write_wait_qspi ev addr (cycles + 1) (tick_qspi ev s)"
      by (subst apb_write_wait_qspi.simps) (simp add: Let_def)
    with "1.IH" [OF refl refl] False show ?thesis by (simp add: tick_qspi_frame)
  qed
qed

lemma apb_read_wait_qspi_test_fail:
  "test_fail (case apb_read_wait_qspi ev addr c s of Inl x \<Rightarrow> snd x | Inr y \<Rightarrow> y) = test_fail s"
proof (induction ev addr c s rule: apb_read_wait_qspi.induct)
  case (1 ev addr cycles s)
  show ?case
  proof (cases "cycles + 1 > MAX_CYCLES \<or> pready (dut (tick_qspi ev s))")
    case True
    then show ?thesis
      by (subst apb_read_wait_qspi.simps) (auto simp add: Let_def tick_qspi_frame)
  next
    case False
    then have "apb_read_wait_qspi ev addr cycles s =
                 apb_read_wait_qspi ev addr (cycles + 1) (tick_qspi ev s)"
      by (subst apb_read_wait_qspi.simps) (simp add: Let_def)
    with "1.IH" [OF refl refl] False show ?thesis by (simp add: tick_qspi_frame)
  qed
qed

lemma apb_write_qspi_test_fail: "test_fail (apb_write_qspi ev addr data strb s) = test_fail s"
  by (simp add: apb_write_qspi_def Let_def tick_qspi_frame apb_write_wait_qspi_test_fail)

lemma apb_read_qspi_test_fail: "test_fail (snd (apb_read_qspi ev addr s)) = test_fail s"
proof -
  define s3 where "s3 = (let s1 = s\<lparr>dut := (dut s)\<lparr>paddr := addr, pwrite := False, pstrb := 0xF,
                   psel := True, penable := False\<rparr>\<rparr>;
          s2 = tick_qspi ev s1 in s2\<lparr>dut := (dut s2)\<lparr>penable := True\<rparr>\<rparr>)"
  have s3: "test_fail s3 = test_fail s" by (simp add: s3_def Let_def tick_qspi_frame)
  show ?thesis
    unfolding apb_read_qspi_def Let_def s3_def [unfolded Let_def, symmetric]
    using apb_read_wait_qspi_test_fail [of ev addr 0 s3] s3
    by (cases "apb_read_wait_qspi ev addr 0 s3") (simp_all add: tick_qspi_frame)
qed

lemma do_reset_qspi_test_fail: "test_fail (do_reset_qspi ev s) = test_fail s"
  by (simp add: do_reset_qspi_def Let_def tick_qspi_frame ticks_qspi_frame eval_qspi_frame)

lemmas qspi_test_fail =
  apb_write_qspi_test_fail apb_read_qspi_test_fail

lemma test1_qspi_test_fail:
  "unat (test_fail s) \<le> k \<Longrightarrow> unat (test_fail (test1_qspi ev s)) \<le> k + 1"
  unfolding test1_qspi_def Let_def split_def
  by (rule check_default_test_fail_le [THEN order_trans]) (simp_all add: qspi_test_fail)

lemma test2_qspi_test_fail:
  "unat (test_fail s) \<le> k \<Longrightarrow> unat (test_fail (test2_qspi ev s)) \<le> k + 1"
  unfolding test2_qspi_def Let_def split_def
  by (rule check_default_test_fail_le [THEN order_trans]) (simp_all add: qspi_test_fail)

lemma test3_qspi_test_fail:
  "unat (test_fail s) \<le> k \<Longrightarrow> unat (test_fail (test3_qspi ev s)) \<le> k + 1"
  unfolding test3_qspi_def Let_def split_def
  by (rule check_default_test_fail_le [THEN order_trans]) (simp_all add: qspi_test_fail)

lemma test4_qspi_test_fail:
  assumes "unat (test_fail s) \<le> k"
  shows "unat (test_fail (test4_qspi ev s)) \<le> k + 4"
proof -
  define w where
    "w = fold (\<lambda>i s. apb_write_qspi ev (test4_addrs ! i) (test4_vals ! i) 0xF s) [0..<4] s"
  have "test_fail w = test_fail s"
    unfolding w_def by (rule fold_preserves) (rule apb_write_qspi_test_fail)
  with assms have w: "unat (test_fail w) \<le> k" by simp
  have "unat (test_fail (fold (\<lambda>i s. let (rd, s) = apb_read_qspi ev (test4_addrs ! i) s
                       in check_default (test4_names ! i) (test4_vals ! i) rd s) [0..<4] w))
          \<le> k + length [0..<4]"
  proof (rule fold_grows [where m = "\<lambda>s. unat (test_fail s)", OF _ w])
    fix i :: nat and s :: "'a apb_dut qsim" and k
    assume "unat (test_fail s) \<le> k"
    then have "unat (test_fail (snd (apb_read_qspi ev (test4_addrs ! i) s))) \<le> k"
      by (simp add: apb_read_qspi_test_fail)
    then show "unat (test_fail (let (rd, s) = apb_read_qspi ev (test4_addrs ! i) s
                       in check_default (test4_names ! i) (test4_vals ! i) rd s)) \<le> Suc k"
      unfolding Let_def split_def by (rule check_default_test_fail_le)
  qed
  then show ?thesis unfolding test4_qspi_def Let_def w_def by simp
qed

lemma test5_qspi_test_fail:
  "unat (test_fail s) \<le> k \<Longrightarrow> unat (test_fail (test5_qspi ev s)) \<le> k + 1"
  unfolding test5_qspi_def Let_def split_def
  by (rule check_default_test_fail_le [THEN order_trans]) (simp_all add: qspi_test_fail)

lemma test6_qspi_test_fail:
  assumes "unat (test_fail s) \<le> k"
  shows "unat (test_fail (test6_qspi ev s)) \<le> k + 2"
proof -
  define s1 where "s1 = snd (apb_read_qspi ev 0x500 (apb_write_qspi ev 0x500 0x00000000 0xF s))"
  define c1 where "c1 = check_default ''write zero'' 0x00000000
      (fst (apb_read_qspi ev 0x500 (apb_write_qspi ev 0x500 0x00000000 0xF s))) s1"
  have "unat (test_fail s1) \<le> k" using assms by (simp add: s1_def qspi_test_fail)
  then have "unat (test_fail c1) \<le> Suc k" unfolding c1_def by (rule check_default_test_fail_le)
  then have "unat (test_fail (snd (apb_read_qspi ev 0x500 (apb_write_qspi ev 0x500 0xFFFFFFFF 0xF c1))))
              \<le> Suc k"
    by (simp add: qspi_test_fail)
  then have "unat (test_fail (check_default ''write all-ones'' 0xFFFFFFFF
      (fst (apb_read_qspi ev 0x500 (apb_write_qspi ev 0x500 0xFFFFFFFF 0xF c1)))
      (snd (apb_read_qspi ev 0x500 (apb_write_qspi ev 0x500 0xFFFFFFFF 0xF c1))))) \<le> Suc (Suc k)"
    by (rule check_default_test_fail_le)
  then show ?thesis
    unfolding test6_qspi_def Let_def split_def c1_def s1_def by simp
qed

lemma main_qspi_test_fail: "unat (test_fail (snd (main_qspi ev d0))) \<le> 10"
proof -
  define s0 where "s0 = (let s = do_reset_qspi ev
      \<lparr>dut = d0, tfp = Some [], sim_time = 0, test_pass = 0, test_fail = 0, out = [],
        psram_mem = replicate (2 ^ 20) 0\<rparr> in s\<lparr>out := out s @ [RESET_done (sim_time s)]\<rparr>)"
  have "unat (test_fail s0) \<le> 0" by (simp add: s0_def Let_def do_reset_qspi_test_fail)
  from test1_qspi_test_fail [where ev = ev, OF this] have "unat (test_fail (test1_qspi ev s0)) \<le> 1" by simp
  from test2_qspi_test_fail [where ev = ev, OF this]
  have "unat (test_fail (test2_qspi ev (test1_qspi ev s0))) \<le> 2" by simp
  from test3_qspi_test_fail [where ev = ev, OF this]
  have "unat (test_fail (test3_qspi ev (test2_qspi ev (test1_qspi ev s0)))) \<le> 3" by simp
  from test4_qspi_test_fail [where ev = ev, OF this]
  have "unat (test_fail (test4_qspi ev (test3_qspi ev (test2_qspi ev (test1_qspi ev s0))))) \<le> 7"
    by simp
  from test5_qspi_test_fail [where ev = ev, OF this]
  have "unat (test_fail (test5_qspi ev (test4_qspi ev (test3_qspi ev (test2_qspi ev
          (test1_qspi ev s0)))))) \<le> 8" by simp
  from test6_qspi_test_fail [where ev = ev, OF this]
  have "unat (test_fail (test6_qspi ev (test5_qspi ev (test4_qspi ev (test3_qspi ev
          (test2_qspi ev (test1_qspi ev s0))))))) \<le> 10" by simp
  then show ?thesis
    unfolding main_qspi_def Let_def snd_conv ticks_qspi_frame s0_def .
qed

lemma main_qspi_exit:
  "fst (main_qspi ev d0) = (if 0 <s test_fail (snd (main_qspi ev d0)) then 1 else 0)"
  unfolding main_qspi_def Let_def by simp

lemma access_wait_chisel_test_fail:
  "access_wait_chisel ev a = Some r \<Longrightarrow> test_fail r = test_fail a"
  using access_wait_chisel_returns [of ev a r] by (auto simp add: tick_chisel_frame ticks_chisel_frame)

lemma apb_write_chisel_test_fail:
  "apb_write_chisel ev addr data s = Some s' \<Longrightarrow> test_fail s' = test_fail s"
  unfolding apb_write_chisel_def Let_def
  by (auto split: option.splits dest!: access_wait_chisel_test_fail simp add: tick_chisel_frame)

lemma apb_read_chisel_test_fail:
  "apb_read_chisel ev addr s = Some (v, s') \<Longrightarrow> test_fail s' = test_fail s"
  unfolding apb_read_chisel_def Let_def
  by (auto split: option.splits dest!: access_wait_chisel_test_fail simp add: tick_chisel_frame)

lemma spi_transfer_chisel_test_fail:
  "spi_transfer_chisel ev tx len dv s = Some (rx, s') \<Longrightarrow> test_fail s' = test_fail s"
  unfolding spi_transfer_chisel_def Let_def
  by (auto simp add: bind_eq_Some_conv dest!: apb_write_chisel_test_fail apb_read_chisel_test_fail)

lemma warmup_chisel_test_fail:
  "warmup_chisel ev s = Some s' \<Longrightarrow> test_fail s' = test_fail s"
  unfolding warmup_chisel_def
  by (auto simp add: bind_eq_Some_conv dest!: spi_transfer_chisel_test_fail)

lemma test1_chisel_test_fail:
  "test1_chisel ev s = Some s' \<Longrightarrow> unat (test_fail s) \<le> k \<Longrightarrow> unat (test_fail s') \<le> Suc k"
  unfolding test1_chisel_def Let_def
  by (auto simp add: bind_eq_Some_conv dest!: spi_transfer_chisel_test_fail
      intro!: check_test_fail_le)

lemma test2_chisel_test_fail:
  "test2_chisel ev s = Some s' \<Longrightarrow> unat (test_fail s) \<le> k \<Longrightarrow> unat (test_fail s') \<le> Suc k"
  unfolding test2_chisel_def Let_def
  by (auto simp add: bind_eq_Some_conv dest!: spi_transfer_chisel_test_fail
      intro!: check_test_fail_le)

lemma test3_chisel_test_fail:
  "test3_chisel ev s = Some s' \<Longrightarrow> unat (test_fail s) \<le> k \<Longrightarrow> unat (test_fail s') \<le> Suc k"
  unfolding test3_chisel_def Let_def
  by (auto simp add: bind_eq_Some_conv dest!: spi_transfer_chisel_test_fail
      intro!: check_test_fail_le)

lemma test4_chisel_test_fail:
  assumes "test4_chisel ev s = Some s'" "unat (test_fail s) \<le> k"
  shows "unat (test_fail s') \<le> Suc (Suc k)"
proof -
  from assms(1) obtain s1 dv s2 s3 ss s4 where
    1: "apb_write_chisel ev ADDR_DIVIDE 0x1234 s = Some s1"
    and 2: "apb_read_chisel ev ADDR_DIVIDE s1 = Some (dv, s2)"
    and 3: "apb_write_chisel ev ADDR_SS 0xAB (check ''DIVIDER register'' 0x1234 dv 0xFFFF s2) = Some s3"
    and 4: "apb_read_chisel ev ADDR_SS s3 = Some (ss, s4)"
    and 5: "s' = check ''SS register'' 0xAB ss 0xFF s4"
    unfolding test4_chisel_def Let_def by (auto simp add: bind_eq_Some_conv)
  from 1 2 assms(2) have "unat (test_fail s2) \<le> k"
    by (simp add: apb_write_chisel_test_fail apb_read_chisel_test_fail)
  then have "unat (test_fail (check ''DIVIDER register'' 0x1234 dv 0xFFFF s2)) \<le> Suc k"
    by (rule check_test_fail_le)
  with 3 4 have "unat (test_fail s4) \<le> Suc k"
    by (simp add: apb_write_chisel_test_fail apb_read_chisel_test_fail)
  then show ?thesis unfolding 5 by (rule check_test_fail_le)
qed

lemma main_chisel_exit:
  assumes "main_chisel ev d0 = Some (code, s')"
  shows "unat (test_fail s') \<le> 5" and "code = (if 0 <s test_fail s' then 1 else 0)"
proof -
  define r where "r = do_reset_chisel ev
      \<lparr>dut = d0, tfp = Some [], sim_time = 0, test_pass = 0, test_fail = 0, out = []\<rparr>"
  define s0 where "s0 = r\<lparr>out := out r @ [RESET_done (sim_time r)]\<rparr>"
  from assms obtain s1 s2 s3 s4 s5 where
    w: "warmup_chisel ev s0 = Some s1" and 1: "test1_chisel ev s1 = Some s2"
    and 2: "test2_chisel ev s2 = Some s3" and 3: "test3_chisel ev s3 = Some s4"
    and 4: "test4_chisel ev s4 = Some s5"
    and s': "s' = (tick_chisel ev ^^ 20) s5"
    and c: "code = (if 0 <s test_fail ((tick_chisel ev ^^ 20) s5) then 1 else 0)"
    unfolding main_chisel_def Let_def r_def [symmetric] s0_def [symmetric]
    by (auto simp add: bind_eq_Some_conv)
  have "unat (test_fail s0) \<le> 0"
    by (simp add: s0_def r_def do_reset_chisel_def Let_def tick_chisel_frame ticks_chisel_frame)
  with warmup_chisel_test_fail [OF w] have "unat (test_fail s1) \<le> 0" by simp
  from test1_chisel_test_fail [OF 1 this] have "unat (test_fail s2) \<le> 1" by simp
  from test2_chisel_test_fail [OF 2 this] have "unat (test_fail s3) \<le> 2" by simp
  from test3_chisel_test_fail [OF 3 this] have "unat (test_fail s4) \<le> 3" by simp
  from test4_chisel_test_fail [OF 4 this] have "unat (test_fail s5) \<le> 5" by simp
  then show "unat (test_fail s') \<le> 5" by (simp add: s' ticks_chisel_frame)
  from c show "code = (if 0 <s test_fail s' then 1 else 0)" by (simp add: s')
qed

text \<open>
  Claim C6. The exit status \<^verbatim>\<open>main\<close> returns is 0 if and only if the fail counter
  is zero at the end of the run, and it is 1 whenever the fail counter is not zero,
  whatever the pass counter holds: for every model and every run of
  \<^verbatim>\<open>sim_qspi_psram.cpp\<close>, whose \<^verbatim>\<open>main\<close> always returns, and for every run of
  \<^verbatim>\<open>sim_chisel_spi.cpp\<close> that returns. (The fail counter is a 32-bit signed
  integer that starts at zero and that only \<^verbatim>\<open>check\<close> changes, by adding one; a run
  of \<^verbatim>\<open>sim_qspi_psram.cpp\<close> makes ten checks and one of \<^verbatim>\<open>sim_chisel_spi.cpp\<close>
  five, so the counter stays far below the sign bit and \<^verbatim>\<open>test_fail > 0\<close> is the same
  as \<^verbatim>\<open>test_fail != 0\<close>.)
\<close>

theorem exit_status_iff_no_failures:
  "(fst (main_qspi ev d0) = 0 \<longleftrightarrow> test_fail (snd (main_qspi ev d0)) = 0)
   \<and> (test_fail (snd (main_qspi ev d0)) \<noteq> 0 \<longrightarrow> fst (main_qspi ev d0) = 1)
   \<and> (main_chisel ev' d0' = Some (code, s') \<longrightarrow>
        (code = 0 \<longleftrightarrow> test_fail s' = 0) \<and> (test_fail s' \<noteq> 0 \<longrightarrow> code = 1))"
proof -
  have "unat (test_fail (snd (main_qspi ev d0))) < 2 ^ 31"
    using main_qspi_test_fail [of ev d0] by simp
  from c_int_positive [OF this]
  have "fst (main_qspi ev d0) = 0 \<longleftrightarrow> test_fail (snd (main_qspi ev d0)) = 0"
    "test_fail (snd (main_qspi ev d0)) \<noteq> 0 \<longrightarrow> fst (main_qspi ev d0) = 1"
    using main_qspi_exit [of ev d0] by auto
  moreover have "(code = 0 \<longleftrightarrow> test_fail s' = 0) \<and> (test_fail s' \<noteq> 0 \<longrightarrow> code = 1)"
    if m: "main_chisel ev' d0' = Some (code, s')"
  proof -
    have "unat (test_fail s') < 2 ^ 31" using main_chisel_exit(1) [OF m] by simp
    from c_int_positive [OF this] main_chisel_exit(2) [OF m] show ?thesis by auto
  qed
  ultimately show ?thesis by blast
qed

lemma one_wait_spi_write_ex:
  "\<exists>s'. apb_write_chisel one_wait_spi addr data s = Some s' \<and> pwdata (dut s') = data
        \<and> test_fail s' = test_fail s"
  by (simp add: one_wait_spi_write Let_def tick_chisel_inputs tick_chisel_frame)

lemma one_wait_spi_read_ex:
  "\<exists>s'. apb_read_chisel one_wait_spi addr s = Some (pwdata (dut s), s')
        \<and> pwdata (dut s') = pwdata (dut s) \<and> test_fail s' = test_fail s"
  by (simp add: one_wait_spi_read Let_def tick_chisel_inputs tick_chisel_frame)

lemma one_wait_spi_transfer:
  "\<exists>s'. spi_transfer_chisel one_wait_spi tx len dv s =
          Some ((len AND 0x7F) OR CTRL_GO OR CTRL_ASS OR CTRL_TX_NEG, s')
        \<and> test_fail s' = test_fail s"
proof -
  obtain s1 where 1: "apb_write_chisel one_wait_spi ADDR_DIVIDE dv s = Some s1"
    "test_fail s1 = test_fail s" using one_wait_spi_write_ex by blast
  obtain s2 where 2: "apb_write_chisel one_wait_spi ADDR_SS 0x01 s1 = Some s2"
    "test_fail s2 = test_fail s1" using one_wait_spi_write_ex by blast
  obtain s3 where 3: "apb_write_chisel one_wait_spi ADDR_TX0 tx s2 = Some s3"
    "test_fail s3 = test_fail s2" using one_wait_spi_write_ex by blast
  obtain s4 where 4: "apb_write_chisel one_wait_spi ADDR_CTRL
      ((len AND 0x7F) OR CTRL_GO OR CTRL_ASS OR CTRL_TX_NEG) s3 = Some s4"
    "pwdata (dut s4) = (len AND 0x7F) OR CTRL_GO OR CTRL_ASS OR CTRL_TX_NEG"
    "test_fail s4 = test_fail s3" using one_wait_spi_write_ex by blast
  obtain s5 where 5: "apb_read_chisel one_wait_spi ADDR_TX0 s4 = Some (pwdata (dut s4), s5)"
    "test_fail s5 = test_fail s4" using one_wait_spi_read_ex by blast
  show ?thesis
    unfolding spi_transfer_chisel_def Let_def using 1 2 3 4 5 by simp
qed

lemma one_wait_spi_ctrl:
  "((8 :: u32) AND 0x7F) OR CTRL_GO OR CTRL_ASS OR CTRL_TX_NEG = 0x2508"
  "((16 :: u32) AND 0x7F) OR CTRL_GO OR CTRL_ASS OR CTRL_TX_NEG = 0x2510"
  "((32 :: u32) AND 0x7F) OR CTRL_GO OR CTRL_ASS OR CTRL_TX_NEG = 0x2520"
  by (simp_all add: CTRL_GO_def CTRL_ASS_def CTRL_TX_NEG_def)

lemma one_wait_spi_tests:
  "\<exists>s'. warmup_chisel one_wait_spi s = Some s' \<and> test_fail s' = test_fail s"
  "\<exists>s'. test1_chisel one_wait_spi s = Some s' \<and> test_fail s' = test_fail s + 1"
  "\<exists>s'. test2_chisel one_wait_spi s = Some s' \<and> test_fail s' = test_fail s + 1"
  "\<exists>s'. test3_chisel one_wait_spi s = Some s' \<and> test_fail s' = test_fail s + 1"
proof -
  show "\<exists>s'. warmup_chisel one_wait_spi s = Some s' \<and> test_fail s' = test_fail s"
    using one_wait_spi_transfer [of "0xFF" 8 4 s] unfolding warmup_chisel_def by auto
  show "\<exists>s'. test1_chisel one_wait_spi s = Some s' \<and> test_fail s' = test_fail s + 1"
    using one_wait_spi_transfer [of "0xA5" 8 4 s] unfolding test1_chisel_def one_wait_spi_ctrl
    by (auto simp add: check_def Let_def)
  show "\<exists>s'. test2_chisel one_wait_spi s = Some s' \<and> test_fail s' = test_fail s + 1"
    using one_wait_spi_transfer [of "0xBEEF" 16 4 s] unfolding test2_chisel_def one_wait_spi_ctrl
    by (auto simp add: check_def Let_def)
  show "\<exists>s'. test3_chisel one_wait_spi s = Some s' \<and> test_fail s' = test_fail s + 1"
    using one_wait_spi_transfer [of "0xDEADBEEF" 32 4 s] unfolding test3_chisel_def one_wait_spi_ctrl
    by (auto simp add: check_def Let_def)
qed

lemma one_wait_spi_test4:
  "\<exists>s'. test4_chisel one_wait_spi s = Some s' \<and> test_fail s' = test_fail s"
proof -
  obtain s1 where 1: "apb_write_chisel one_wait_spi ADDR_DIVIDE 0x1234 s = Some s1"
    "pwdata (dut s1) = 0x1234" "test_fail s1 = test_fail s" using one_wait_spi_write_ex by blast
  obtain s2 where 2: "apb_read_chisel one_wait_spi ADDR_DIVIDE s1 = Some (pwdata (dut s1), s2)"
    "test_fail s2 = test_fail s1" using one_wait_spi_read_ex by blast
  define s2' where "s2' = check ''DIVIDER register'' 0x1234 0x1234 0xFFFF s2"
  have c1: "test_fail s2' = test_fail s2" by (simp add: s2'_def check_def Let_def)
  obtain s3 where 3: "apb_write_chisel one_wait_spi ADDR_SS 0xAB s2' = Some s3"
    "pwdata (dut s3) = 0xAB" "test_fail s3 = test_fail s2'" using one_wait_spi_write_ex by blast
  obtain s4 where 4: "apb_read_chisel one_wait_spi ADDR_SS s3 = Some (pwdata (dut s3), s4)"
    "test_fail s4 = test_fail s3" using one_wait_spi_read_ex by blast
  have c2: "test_fail (check ''SS register'' 0xAB 0xAB 0xFF s4) = test_fail s4"
    by (simp add: check_def Let_def)
  show ?thesis
    unfolding test4_chisel_def Let_def using 1 2 3 4 c1 c2 by (simp add: s2'_def)
qed

text \<open>
  The theorem on the run of \<^verbatim>\<open>sim_chisel_spi.cpp\<close> against the model with one wait
  state, which echoes the last written word: the three loopback checks fail, the two
  register checks pass, and the exit status is 1.
\<close>

theorem exit_status_iff_no_failures_witness:
  "map_option fst (main_chisel one_wait_spi spi_dut0) = Some 1
   \<and> map_option (test_fail \<circ> snd) (main_chisel one_wait_spi spi_dut0) = Some 3"
proof -
  define r where "r = do_reset_chisel one_wait_spi
      \<lparr>dut = spi_dut0, tfp = Some [], sim_time = 0, test_pass = 0, test_fail = 0, out = []\<rparr>"
  define s0 where "s0 = r\<lparr>out := out r @ [RESET_done (sim_time r)]\<rparr>"
  have 0: "test_fail s0 = 0"
    by (simp add: s0_def r_def do_reset_chisel_def Let_def tick_chisel_frame ticks_chisel_frame)
  obtain s1 where 1: "warmup_chisel one_wait_spi s0 = Some s1" "test_fail s1 = test_fail s0"
    using one_wait_spi_tests(1) by blast
  obtain s2 where 2: "test1_chisel one_wait_spi s1 = Some s2" "test_fail s2 = test_fail s1 + 1"
    using one_wait_spi_tests(2) by blast
  obtain s3 where 3: "test2_chisel one_wait_spi s2 = Some s3" "test_fail s3 = test_fail s2 + 1"
    using one_wait_spi_tests(3) by blast
  obtain s4 where 4: "test3_chisel one_wait_spi s3 = Some s4" "test_fail s4 = test_fail s3 + 1"
    using one_wait_spi_tests(4) by blast
  obtain s5 where 5: "test4_chisel one_wait_spi s4 = Some s5" "test_fail s5 = test_fail s4"
    using one_wait_spi_test4 by blast
  define sF where "sF = (tick_chisel one_wait_spi ^^ 20) s5"
  have f: "test_fail sF = 3" using 0 1 2 3 4 5 by (simp add: sF_def ticks_chisel_frame)
  have "\<exists>code. main_chisel one_wait_spi spi_dut0 = Some (code, sF)"
    unfolding main_chisel_def Let_def r_def [symmetric] s0_def [symmetric]
    using 1 2 3 4 5 by (simp add: sF_def)
  then obtain code where m: "main_chisel one_wait_spi spi_dut0 = Some (code, sF)" by blast
  from exit_status_iff_no_failures [THEN conjunct2, THEN conjunct2, rule_format, OF m] f
  have "code = 1" by simp
  with m f show ?thesis by simp
qed

end
